(* ===== verification/Prelude.thy ===== *)
theory Prelude
  imports Main "HOL-Library.Word"
begin

text \<open>
  Shared material of the development: Go's strings as byte lists, the UTF-8 encoding used
  for the Chinese literals of the source, decimal formatting and parsing
  (\<open>fmt.Sprintf\<close> verbs, \<open>strconv.FormatInt\<close>, \<open>strconv.ParseInt\<close>), the functions of Go's
  \<open>strings\<close> package that the program calls, and Go maps with string keys as association
  lists. A Go \<open>string\<close> is a sequence of bytes, and a HOL \<open>char\<close> is a byte, so
  \<open>string\<close> is the exact model. Case conversion is the ASCII part of Go's functions: bytes
  from 128 on are kept as they are.
\<close>

named_theorems go_simps "unfolding equations of the model's operations"
named_theorems frame_simps "which parts of the state an operation leaves alone"

section \<open>Lists, options and sums\<close>

lemma list_all_append_iff [simp]: "list_all p (xs @ ys) \<longleftrightarrow> list_all p xs \<and> list_all p ys"
  by (induction xs) auto

fun is_Inr :: "'a + 'b \<Rightarrow> bool" where
  "is_Inr (Inr x) = True"
| "is_Inr (Inl x) = False"

lemma is_Inr_iff: "is_Inr x \<longleftrightarrow> (\<exists>y. x = Inr y)"
  by (cases x) auto

fun somes :: "'a option list \<Rightarrow> 'a list" where
  "somes [] = []"
| "somes (None # xs) = somes xs"
| "somes (Some x # xs) = x # somes xs"

lemma set_somes [simp]: "set (somes xs) = {x. Some x \<in> set xs}"
  by (induction xs rule: somes.induct) auto

lemma somes_Nil_iff: "somes xs = [] \<longleftrightarrow> (\<forall>x\<in>set xs. x = None)"
  by (induction xs rule: somes.induct) auto

section \<open>Decimal numbers\<close>

definition digit_char :: "nat \<Rightarrow> char" where
  "digit_char d = char_of (48 + d)"

fun nat_dec :: "nat \<Rightarrow> string" where
  "nat_dec n = (if n < 10 then [digit_char n] else nat_dec (n div 10) @ [digit_char (n mod 10)])"

declare nat_dec.simps [simp del]

text \<open>\<open>strconv.FormatInt(i, 10)\<close>, and the verb \<open>%d\<close>.\<close>

definition int_dec :: "int \<Rightarrow> string" where
  "int_dec i = (if i < 0 then CHR ''-'' # nat_dec (nat (- i)) else nat_dec (nat i))"

text \<open>The verb \<open>%06d\<close>: zero padding to six places, the sign counted.\<close>

definition pad0 :: "nat \<Rightarrow> string \<Rightarrow> string" where
  "pad0 w s = replicate (w - length s) (CHR ''0'') @ s"

definition fmt_06d :: "int \<Rightarrow> string" where
  "fmt_06d i = (if i < 0 then CHR ''-'' # pad0 5 (nat_dec (nat (- i))) else pad0 6 (nat_dec (nat i)))"

definition char_digit :: "char \<Rightarrow> nat option" where
  "char_digit c = (let k = of_char c in if 48 \<le> k \<and> k \<le> (57::nat) then Some (k - 48) else None)"

fun dec_nat_acc :: "nat \<Rightarrow> string \<Rightarrow> nat option" where
  "dec_nat_acc acc [] = Some acc"
| "dec_nat_acc acc (c # cs) =
     (case char_digit c of None \<Rightarrow> None | Some d \<Rightarrow> dec_nat_acc (10 * acc + d) cs)"

definition dec_nat :: "string \<Rightarrow> nat option" where
  "dec_nat s = (if s = [] then None else dec_nat_acc 0 s)"

definition int64_range :: "int \<Rightarrow> bool" where
  "int64_range i \<longleftrightarrow> - (2 ^ 63) \<le> i \<and> i < 2 ^ 63"

text \<open>\<open>strconv.ParseInt(s, 10, 64)\<close>: an optional sign, at least one digit, and the range check.\<close>

definition parse_int :: "string \<Rightarrow> int option" where
  "parse_int s =
     (let signed = (\<lambda>neg t. case dec_nat t of
          None \<Rightarrow> None
        | Some n \<Rightarrow> let i = (if neg then - int n else int n) in if int64_range i then Some i else None)
      in case s of
           [] \<Rightarrow> None
         | c # t \<Rightarrow> if c = CHR ''-'' then signed True t
                    else if c = CHR ''+'' then signed False t
                    else signed False s)"

lemma char_digit_digit_char [simp]: "d < 10 \<Longrightarrow> char_digit (digit_char d) = Some d"
  by (simp add: char_digit_def digit_char_def Let_def)

lemma dec_nat_acc_append:
  "dec_nat_acc a (s @ [c]) =
     (case dec_nat_acc a s of None \<Rightarrow> None
      | Some n \<Rightarrow> (case char_digit c of None \<Rightarrow> None | Some d \<Rightarrow> Some (10 * n + d)))"
  by (induction s arbitrary: a) (auto split: option.splits)

lemma nat_dec_nonempty [simp]: "nat_dec n \<noteq> []"
  by (subst nat_dec.simps) simp

lemma dec_nat_acc_nat_dec: "dec_nat_acc 0 (nat_dec n) = Some n"
proof (induction n rule: nat_dec.induct)
  case (1 n)
  show ?case
  proof (cases "n < 10")
    case True
    then show ?thesis by (subst nat_dec.simps) simp
  next
    case False
    with 1 show ?thesis
      by (subst nat_dec.simps) (simp add: dec_nat_acc_append)
  qed
qed

lemma dec_nat_nat_dec [simp]: "dec_nat (nat_dec n) = Some n"
  by (simp add: dec_nat_def dec_nat_acc_nat_dec)

lemma nat_dec_digits: "c \<in> set (nat_dec n) \<Longrightarrow> \<exists>d<10. c = digit_char d"
proof (induction n rule: nat_dec.induct)
  case (1 n)
  then show ?case
    by (cases "n < 10") (force simp: nat_dec.simps [of n])+
qed

lemma digit_char_not_sign [simp]:
  "d < 10 \<Longrightarrow> digit_char d \<noteq> CHR ''-''" "d < 10 \<Longrightarrow> digit_char d \<noteq> CHR ''+''"
  using char_digit_digit_char [of d] by (auto simp: char_digit_def Let_def)

lemma nat_dec_hd_not_sign: "nat_dec n = c # t \<Longrightarrow> c \<noteq> CHR ''-'' \<and> c \<noteq> CHR ''+''"
  using nat_dec_digits [of c n] by auto

text \<open>Formatting and parsing an \<open>int64\<close> round-trips.\<close>

lemma parse_int_int_dec: "int64_range i \<Longrightarrow> parse_int (int_dec i) = Some i"
proof (cases "i < 0")
  case True
  assume "int64_range i"
  with True show ?thesis by (simp add: parse_int_def int_dec_def Let_def)
next
  case False
  assume r: "int64_range i"
  obtain c t where ct: "nat_dec (nat i) = c # t" by (cases "nat_dec (nat i)") auto
  from nat_dec_hd_not_sign [OF ct] have s: "c \<noteq> CHR ''-''" "c \<noteq> CHR ''+''" by auto
  have "dec_nat (c # t) = Some (nat i)" using dec_nat_nat_dec [of "nat i"] by (simp add: ct)
  with False r s show ?thesis
    by (simp add: parse_int_def int_dec_def Let_def ct)
qed

lemma int_dec_inject: "int_dec i = int_dec j \<Longrightarrow> int64_range i \<Longrightarrow> int64_range j \<Longrightarrow> i = j"
  by (metis option.inject parse_int_int_dec)

section \<open>UTF-8\<close>

text \<open>
  The source's Chinese literals are written as their code points; \<open>utf8\<close> gives the bytes
  of the Go string. Every code point of the literals is below \<open>0x10000\<close>, so the encoder
  covers one to three bytes.
\<close>

definition utf8_char :: "nat \<Rightarrow> string" where
  "utf8_char c =
     (if c < 0x80 then [char_of c]
      else if c < 0x800 then [char_of (0xC0 + c div 0x40), char_of (0x80 + c mod 0x40)]
      else [char_of (0xE0 + c div 0x1000), char_of (0x80 + c div 0x40 mod 0x40), char_of (0x80 + c mod 0x40)])"

definition utf8 :: "nat list \<Rightarrow> string" where
  "utf8 cs = concat (map utf8_char cs)"

section \<open>Go's strings package\<close>

definition lower_char :: "char \<Rightarrow> char" where
  "lower_char c = (let k = of_char c in if 65 \<le> k \<and> k \<le> (90::nat) then char_of (k + 32) else c)"

definition upper_char :: "char \<Rightarrow> char" where
  "upper_char c = (let k = of_char c in if 97 \<le> k \<and> k \<le> (122::nat) then char_of (k - 32) else c)"

definition to_lower :: "string \<Rightarrow> string" where
  "to_lower = map lower_char"

definition to_upper :: "string \<Rightarrow> string" where
  "to_upper = map upper_char"

definition equal_fold :: "string \<Rightarrow> string \<Rightarrow> bool" where
  "equal_fold s t \<longleftrightarrow> to_lower s = to_lower t"

definition has_prefix :: "string \<Rightarrow> string \<Rightarrow> bool" where
  "has_prefix s p \<longleftrightarrow> take (length p) s = p"

definition trim_prefix :: "string \<Rightarrow> string \<Rightarrow> string" where
  "trim_prefix s p = (if has_prefix s p then drop (length p) s else s)"

fun contains :: "string \<Rightarrow> string \<Rightarrow> bool" where
  "contains [] p = (p = [])"
| "contains (c # s) p = (has_prefix (c # s) p \<or> contains s p)"

text \<open>\<open>unicode.IsSpace\<close> on ASCII: tab, newline, vertical tab, form feed, carriage return, blank.\<close>

definition is_space :: "char \<Rightarrow> bool" where
  "is_space c = (let k = of_char c in (9 \<le> k \<and> k \<le> (13::nat)) \<or> k = 32)"

definition trim_space :: "string \<Rightarrow> string" where
  "trim_space s = rev (dropWhile is_space (rev (dropWhile is_space s)))"

definition trim_right_char :: "string \<Rightarrow> char \<Rightarrow> string" where
  "trim_right_char s c = rev (dropWhile (\<lambda>x. x = c) (rev s))"

fun join_with :: "string \<Rightarrow> string list \<Rightarrow> string" where
  "join_with sep [] = ''''"
| "join_with sep [x] = x"
| "join_with sep (x # y # xs) = x @ sep @ join_with sep (y # xs)"

lemma equal_fold_refl [simp]: "equal_fold s s"
  by (simp add: equal_fold_def)

lemma has_prefix_append [simp]: "has_prefix (p @ s) p"
  by (simp add: has_prefix_def)

lemma trim_prefix_append [simp]: "trim_prefix (p @ s) p = s"
  by (simp add: trim_prefix_def)

lemma has_prefix_iff: "has_prefix s p \<longleftrightarrow> (\<exists>t. s = p @ t)"
  by (metis append_take_drop_id has_prefix_append has_prefix_def)

lemma contains_Nil [simp]: "contains s []"
  by (cases s) (auto simp: has_prefix_def)

lemma contains_iff: "contains s p \<longleftrightarrow> (\<exists>a b. s = a @ p @ b)"
proof (induction s p rule: contains.induct)
  case (1 p)
  then show ?case by auto
next
  case (2 c s p)
  show ?case
  proof
    assume "contains (c # s) p"
    then consider "has_prefix (c # s) p" | "contains s p" by auto
    then show "\<exists>a b. c # s = a @ p @ b"
    proof cases
      case 1
      then show ?thesis by (metis has_prefix_iff append_Nil)
    next
      case 2
      with "2.IH" obtain a b where "s = a @ p @ b" by auto
      then have "c # s = (c # a) @ p @ b" by simp
      then show ?thesis by blast
    qed
  next
    assume "\<exists>a b. c # s = a @ p @ b"
    then obtain a b where ab: "c # s = a @ p @ b" by blast
    show "contains (c # s) p"
    proof (cases a)
      case Nil
      with ab have "has_prefix (c # s) p" by (simp add: has_prefix_def)
      then show ?thesis by simp
    next
      case (Cons x a')
      with ab "2.IH" show ?thesis by auto
    qed
  qed
qed

lemma trim_space_blank: "trim_space s = [] \<longleftrightarrow> (\<forall>c\<in>set s. is_space c)"
proof
  assume "trim_space s = []"
  then have all: "\<forall>c\<in>set (dropWhile is_space s). is_space c"
    by (simp add: trim_space_def)
  have "dropWhile is_space s = []"
  proof (cases "dropWhile is_space s")
    case (Cons c t)
    then have "\<not> is_space c" using hd_dropWhile [of is_space s] by simp
    with all Cons show ?thesis by simp
  qed
  then show "\<forall>c\<in>set s. is_space c" by simp
next
  assume "\<forall>c\<in>set s. is_space c"
  then show "trim_space s = []" by (auto simp: trim_space_def dest: set_dropWhileD)
qed

section \<open>Go maps with string keys\<close>

text \<open>
  A Go map is an association list whose order stands for one iteration order of \<open>range\<close>;
  Go leaves that order open, so facts proved for every list hold for every order. A nil map
  and an empty map read alike, and both are the empty list. Indexing a missing key gives the
  zero value, the empty string.
\<close>

type_synonym strmap = "(string \<times> string) list"

definition mget :: "strmap \<Rightarrow> string \<Rightarrow> string" where
  "mget m k = (case map_of m k of None \<Rightarrow> '''' | Some v \<Rightarrow> v)"

definition mdel :: "strmap \<Rightarrow> string \<Rightarrow> strmap" where
  "mdel m k = filter (\<lambda>(a, b). a \<noteq> k) m"

fun mset_key :: "strmap \<Rightarrow> string \<Rightarrow> string \<Rightarrow> strmap" where
  "mset_key [] k v = [(k, v)]"
| "mset_key ((a, b) # m) k v = (if a = k then (k, v) # m else (a, b) # mset_key m k v)"

definition mhas :: "strmap \<Rightarrow> string \<Rightarrow> bool" where
  "mhas m k \<longleftrightarrow> map_of m k \<noteq> None"

lemma map_of_mset_key [simp]: "map_of (mset_key m k v) = (map_of m)(k \<mapsto> v)"
  by (induction m k v rule: mset_key.induct) (auto simp: fun_eq_iff)

lemma map_of_mdel [simp]: "map_of (mdel m k) = (map_of m)(k := None)"
  by (induction m) (auto simp: mdel_def fun_eq_iff)

lemma mget_mset_key [simp]: "mget (mset_key m k v) j = (if j = k then v else mget m j)"
  by (simp add: mget_def)

lemma mget_mdel [simp]: "mget (mdel m k) j = (if j = k then '''' else mget m j)"
  by (simp add: mget_def)

lemma mget_Nil [simp]: "mget [] k = ''''"
  by (simp add: mget_def)

text \<open>A map with values of any type: the key's value is replaced where it is, or appended.\<close>

fun upsert :: "string \<Rightarrow> 'v \<Rightarrow> (string \<times> 'v) list \<Rightarrow> (string \<times> 'v) list" where
  "upsert k v [] = [(k, v)]"
| "upsert k v ((j, u) # m) = (if j = k then (k, v) # m else (j, u) # upsert k v m)"

end
