(* ===== verification/GoErrors.thy ===== *)
theory GoErrors
  imports Prelude
begin

text \<open>
  Go's \<open>error\<close> values and the functions of package \<open>errors\<close> that the program uses, with
  the coded business errors of \<open>internal/domain/error.go\<close> and \<open>internal/domain/errno.go\<close>
  and the \<open>SendError\<close> of \<open>pkg/apikit/apinotify/errors.go\<close>. A sentinel (a package
  variable made by \<open>errors.New\<close>, compared by identity) is a constructor of \<open>sentinel\<close>;
  any other text error is \<open>ErrText\<close>, which equals no sentinel. \<open>fmt.Errorf\<close> with one
  \<open>%w\<close> is \<open>ErrWrap\<close>, which keeps the rendered text and the wrapped error.
\<close>

section \<open>Error values\<close>

datatype sentinel =
    CtxCanceled
  | CtxDeadlineExceeded
  | LdbErrNotFound
  | HttpErrNotSupported
  | TlsErrClosed
  | ProtoErrAuthFailed
  | ProtoErrHTTPStatus
  | ProtoErrBusiness
  | ProtoErrTOTPRequired
  | AuthErrAuthFailed
  | AuthErrHTTPStatus
  | AuthErrBusiness
  | AuthErrTOTPRequired
  | BrowseErrAuthFailed
  | BrowseErrHTTPStatus
  | BrowseErrBusiness
  | BrowseErrTOTPRequired
  | BrowseErrRequestBuild
  | ConfErrRead
  | ConfErrParse
  | ConfErrInvalid
  | NotifyErrManagerClosed

datatype 'e coded_error = CodedError (Code: int) (Message: string) (Cause: "'e option")

datatype goerror =
    Sentinel sentinel
  | ErrText string
  | ErrWrap string goerror
  | DomainError "goerror coded_error"
  | SendError string "goerror option"
  | JoinError "goerror list"

fun sentinel_text :: "sentinel \<Rightarrow> string" where
  "sentinel_text CtxCanceled = ''context canceled''"
| "sentinel_text CtxDeadlineExceeded = ''context deadline exceeded''"
| "sentinel_text LdbErrNotFound = ''leveldb: not found''"
| "sentinel_text HttpErrNotSupported = ''feature not supported''"
| "sentinel_text TlsErrClosed = ''tls client is closed''"
| "sentinel_text ProtoErrAuthFailed = ''mteam authentication failed''"
| "sentinel_text ProtoErrHTTPStatus = ''mteam http status error''"
| "sentinel_text ProtoErrBusiness = ''mteam business error''"
| "sentinel_text ProtoErrTOTPRequired = ''mteam totp required''"
| "sentinel_text AuthErrAuthFailed = ''mteam authentication failed''"
| "sentinel_text AuthErrHTTPStatus = ''mteam http status error''"
| "sentinel_text AuthErrBusiness = ''mteam business error''"
| "sentinel_text AuthErrTOTPRequired = ''mteam totp required''"
| "sentinel_text BrowseErrAuthFailed = ''mteam authentication failed''"
| "sentinel_text BrowseErrHTTPStatus = ''mteam http status error''"
| "sentinel_text BrowseErrBusiness = ''mteam business error''"
| "sentinel_text BrowseErrTOTPRequired = ''mteam totp required''"
| "sentinel_text BrowseErrRequestBuild = ''mteam request build failed''"
| "sentinel_text ConfErrRead = ''config read failed''"
| "sentinel_text ConfErrParse = ''config parse failed''"
| "sentinel_text ConfErrInvalid = ''config invalid''"
| "sentinel_text NotifyErrManagerClosed = ''notify manager closed''"

text \<open>The method \<open>Error()\<close> of every error type.\<close>

fun Error_text :: "goerror \<Rightarrow> string" where
  "Error_text (Sentinel s) = sentinel_text s"
| "Error_text (ErrText t) = t"
| "Error_text (ErrWrap t e) = t"
| "Error_text (DomainError (CodedError c m None)) = ''['' @ fmt_06d c @ ''] '' @ m"
| "Error_text (DomainError (CodedError c m (Some e))) =
     ''['' @ fmt_06d c @ ''] '' @ m @ '': '' @ Error_text e"
| "Error_text (SendError ch None) = ch @ '': notify send failed''"
| "Error_text (SendError ch (Some e)) = ch @ '': notify send failed: '' @ Error_text e"
| "Error_text (JoinError es) = join_with [CHR 0x0A] (map Error_text es)"

text \<open>\<open>fmt.Errorf("%w: %s", target, detail)\<close>.\<close>

definition wrapf :: "goerror \<Rightarrow> string \<Rightarrow> goerror" where
  "wrapf target detail = ErrWrap (Error_text target @ '': '' @ detail) target"

text \<open>\<open>fmt.Errorf("detail: %w", err)\<close>.\<close>

definition wrap_prefix :: "string \<Rightarrow> goerror \<Rightarrow> goerror" where
  "wrap_prefix pre e = ErrWrap (pre @ '': '' @ Error_text e) e"

section \<open>errors.Is and errors.As\<close>

text \<open>
  One step of \<open>errors.Is\<close>: equality with a sentinel, or the \<open>Is\<close> method of
  \<open>domain.Error\<close>, which compares codes. The targets of the program are sentinels and domain
  templates only.
\<close>

fun same_target :: "goerror \<Rightarrow> goerror \<Rightarrow> bool" where
  "same_target (Sentinel a) (Sentinel b) = (a = b)"
| "same_target (DomainError a) (DomainError b) = (Code a = Code b)"
| "same_target _ _ = False"

fun errors_is :: "goerror \<Rightarrow> goerror \<Rightarrow> bool" where
  "errors_is (Sentinel s) t = same_target (Sentinel s) t"
| "errors_is (ErrText x) t = False"
| "errors_is (ErrWrap x e) t = errors_is e t"
| "errors_is (DomainError (CodedError c m None)) t = same_target (DomainError (CodedError c m None)) t"
| "errors_is (DomainError (CodedError c m (Some e))) t =
     (same_target (DomainError (CodedError c m (Some e))) t \<or> errors_is e t)"
| "errors_is (SendError ch None) t = False"
| "errors_is (SendError ch (Some e)) t = errors_is e t"
| "errors_is (JoinError es) t = list_ex (\<lambda>e. errors_is e t) es"

text \<open>\<open>errors.Is\<close> on an \<open>error\<close> interface value, where \<open>None\<close> is nil.\<close>

definition is_err :: "goerror option \<Rightarrow> goerror \<Rightarrow> bool" where
  "is_err e t = (case e of None \<Rightarrow> False | Some x \<Rightarrow> errors_is x t)"

text \<open>\<open>errors.As(err, &target)\<close> for a target of type \<open>domain.Error\<close>: the first one met in depth first order.\<close>

fun errors_as :: "goerror \<Rightarrow> goerror coded_error option"
and errors_as_list :: "goerror list \<Rightarrow> goerror coded_error option" where
  "errors_as (Sentinel s) = None"
| "errors_as (ErrText x) = None"
| "errors_as (ErrWrap x e) = errors_as e"
| "errors_as (DomainError d) = Some d"
| "errors_as (SendError ch None) = None"
| "errors_as (SendError ch (Some e)) = errors_as e"
| "errors_as (JoinError es) = errors_as_list es"
| "errors_as_list [] = None"
| "errors_as_list (e # es) = (case errors_as e of Some d \<Rightarrow> Some d | None \<Rightarrow> errors_as_list es)"

text \<open>\<open>errors.Join\<close>: nil errors are dropped, and no error gives nil.\<close>

definition errors_join :: "goerror option list \<Rightarrow> goerror option" where
  "errors_join es = (let xs = somes es in if xs = [] then None else Some (JoinError xs))"

section \<open>The methods of domain.Error\<close>

definition WithCause :: "goerror coded_error \<Rightarrow> goerror \<Rightarrow> goerror coded_error" where
  "WithCause e err = CodedError (Code e) (Message e) (Some err)"

definition CodeOf :: "goerror option \<Rightarrow> int" where
  "CodeOf err = (case err of None \<Rightarrow> 0
     | Some e \<Rightarrow> (case errors_as e of Some target \<Rightarrow> Code target | None \<Rightarrow> 0))"

definition PublicMessage :: "goerror option \<Rightarrow> string" where
  "PublicMessage err = (case err of None \<Rightarrow> ''''
     | Some e \<Rightarrow> (case errors_as e of
          Some target \<Rightarrow> ''['' @ fmt_06d (Code target) @ ''] '' @ Message target
        | None \<Rightarrow> utf8 [0x8BF7, 0x6C42, 0x5931, 0x8D25, 0xFF0C, 0x8BF7, 0x67E5, 0x770B, 0x65E5, 0x5FD7]))"

section \<open>The error code templates\<close>

definition ConfigReadFailed :: "goerror coded_error" where
  "ConfigReadFailed = CodedError 100000 (utf8 [0x8BFB, 0x53D6, 0x914D, 0x7F6E, 0x5931, 0x8D25]) None"

definition ConfigParseFailed :: "goerror coded_error" where
  "ConfigParseFailed = CodedError 100001 (utf8 [0x89E3, 0x6790, 0x914D, 0x7F6E, 0x5931, 0x8D25]) None"

definition ConfigInvalid :: "goerror coded_error" where
  "ConfigInvalid = CodedError 100002 (utf8 [0x914D, 0x7F6E, 0x65E0, 0x6548]) None"

definition MTAuthFailed :: "goerror coded_error" where
  "MTAuthFailed = CodedError 200000 (''M-Team '' @ utf8 [0x8BA4, 0x8BC1, 0x5931, 0x8D25]) None"

definition MTHTTPStatus :: "goerror coded_error" where
  "MTHTTPStatus = CodedError 200001 (''M-Team HTTP '' @ utf8 [0x72B6, 0x6001, 0x5F02, 0x5E38]) None"

definition MTBusinessFailed :: "goerror coded_error" where
  "MTBusinessFailed = CodedError 200002 (''M-Team '' @ utf8 [0x4E1A, 0x52A1, 0x5931, 0x8D25]) None"

definition MTRequestBuildFailed :: "goerror coded_error" where
  "MTRequestBuildFailed =
     CodedError 200003 (''M-Team '' @ utf8 [0x8BF7, 0x6C42, 0x6784, 0x5EFA, 0x5931, 0x8D25]) None"

definition MTTOTPRequired :: "goerror coded_error" where
  "MTTOTPRequired =
     CodedError 200004 (''M-Team '' @ utf8 [0x9700, 0x8981, 0x4E8C, 0x6B21, 0x9A8C, 0x8BC1, 0x7801]) None"

definition RefreshIdentityChanged :: "goerror coded_error" where
  "RefreshIdentityChanged =
     CodedError 400000 (utf8 [0x5237, 0x65B0, 0x8EAB, 0x4EFD, 0x5DF2, 0x53D8, 0x66F4]) None"

definition RefreshIdentityResetFailed :: "goerror coded_error" where
  "RefreshIdentityResetFailed =
     CodedError 400001 (utf8 [0x5237, 0x65B0, 0x8EAB, 0x4EFD, 0x6E05, 0x7406, 0x5931, 0x8D25]) None"

definition SchedulerBusy :: "goerror coded_error" where
  "SchedulerBusy =
     CodedError 500000 (utf8 [0x5237, 0x65B0, 0x4EFB, 0x52A1, 0x6B63, 0x5728, 0x8FD0, 0x884C]) None"

definition RuntimeServiceNotPublished :: "goerror coded_error" where
  "RuntimeServiceNotPublished =
     CodedError 500001 (utf8 [0x5237, 0x65B0, 0x670D, 0x52A1, 0x672A, 0x53D1, 0x5E03]) None"

lemmas errno_defs =
  ConfigReadFailed_def ConfigParseFailed_def ConfigInvalid_def MTAuthFailed_def MTHTTPStatus_def
  MTBusinessFailed_def MTRequestBuildFailed_def MTTOTPRequired_def RefreshIdentityChanged_def
  RefreshIdentityResetFailed_def SchedulerBusy_def RuntimeServiceNotPublished_def

section \<open>Lemmas\<close>

lemma WithCause_sel [simp]:
  "Code (WithCause d e) = Code d" "Message (WithCause d e) = Message d" "Cause (WithCause d e) = Some e"
  by (simp_all add: WithCause_def)

lemma Code_errno [simp]:
  "Code ConfigReadFailed = 100000" "Code ConfigParseFailed = 100001" "Code ConfigInvalid = 100002"
  "Code MTAuthFailed = 200000" "Code MTHTTPStatus = 200001" "Code MTBusinessFailed = 200002"
  "Code MTRequestBuildFailed = 200003" "Code MTTOTPRequired = 200004"
  "Code RefreshIdentityChanged = 400000" "Code RefreshIdentityResetFailed = 400001"
  "Code SchedulerBusy = 500000" "Code RuntimeServiceNotPublished = 500001"
  by (simp_all add: errno_defs)

lemma Cause_errno [simp]:
  "Cause ConfigReadFailed = None" "Cause ConfigParseFailed = None" "Cause ConfigInvalid = None"
  "Cause MTAuthFailed = None" "Cause MTHTTPStatus = None" "Cause MTBusinessFailed = None"
  "Cause MTRequestBuildFailed = None" "Cause MTTOTPRequired = None"
  "Cause RefreshIdentityChanged = None" "Cause RefreshIdentityResetFailed = None"
  "Cause SchedulerBusy = None" "Cause RuntimeServiceNotPublished = None"
  by (simp_all add: errno_defs)

text \<open>\<open>errors.Is\<close> on a coded error looks at its code, then at its cause.\<close>

lemma errors_is_DomainError [simp]:
  "errors_is (DomainError d) t \<longleftrightarrow>
     same_target (DomainError d) t \<or> (case Cause d of None \<Rightarrow> False | Some e \<Rightarrow> errors_is e t)"
  by (cases d; cases "Cause d") auto

lemma errors_is_SendError [simp]:
  "errors_is (SendError ch e) t \<longleftrightarrow> (case e of None \<Rightarrow> False | Some x \<Rightarrow> errors_is x t)"
  by (cases e) auto

lemma errors_as_SendError [simp]:
  "errors_as (SendError ch e) = (case e of None \<Rightarrow> None | Some x \<Rightarrow> errors_as x)"
  by (cases e) auto

lemma errors_is_wrapf [simp]: "errors_is (wrapf e d) t \<longleftrightarrow> errors_is e t"
  by (simp add: wrapf_def)

lemma errors_is_wrap_prefix [simp]: "errors_is (wrap_prefix p e) t \<longleftrightarrow> errors_is e t"
  by (simp add: wrap_prefix_def)

lemma is_err_simps [simp]:
  "is_err None t = False" "is_err (Some e) t = errors_is e t"
  by (simp_all add: is_err_def)

lemma errors_is_same_code:
  "Code d = Code d' \<Longrightarrow> errors_is e (DomainError d) = errors_is e (DomainError d')"
proof (induction e "DomainError d" rule: errors_is.induct)
  case (8 es)
  then show ?case by (auto simp: list_ex_iff)
qed auto

text \<open>If a coded error of some code is in the chain, the chain has a coded error at all.\<close>

lemma errors_as_list_None: "errors_as_list es = None \<longleftrightarrow> (\<forall>e\<in>set es. errors_as e = None)"
  by (induction es) (auto split: option.splits)

lemma errors_is_domain_as: "errors_is e (DomainError d) \<Longrightarrow> errors_as e \<noteq> None"
proof (induction e "DomainError d" rule: errors_is.induct)
  case (8 es)
  from "8.prems" obtain x where "x \<in> set es" "errors_is x (DomainError d)"
    by (auto simp: list_ex_iff)
  with "8.hyps" have "x \<in> set es \<and> errors_as x \<noteq> None" by blast
  then have "errors_as_list es \<noteq> None" by (auto simp: errors_as_list_None)
  then show ?case by simp
qed auto

lemma errors_join_None: "errors_join es = None \<longleftrightarrow> (\<forall>e\<in>set es. e = None)"
  by (simp add: errors_join_def Let_def somes_Nil_iff)

lemma is_err_errors_join: "is_err (errors_join es) t \<longleftrightarrow> (\<exists>e\<in>set es. is_err e t)"
proof -
  have "list_ex (\<lambda>e. errors_is e t) (somes es) \<longleftrightarrow> (\<exists>e\<in>set es. is_err e t)"
    by (induction es rule: somes.induct) auto
  then show ?thesis by (auto simp: errors_join_def Let_def)
qed

text \<open>The part of an error that a notification may show: its first code and message.\<close>

definition public_part :: "goerror \<Rightarrow> goerror" where
  "public_part e = (case errors_as e of
      Some d \<Rightarrow> DomainError (CodedError (Code d) (Message d) None)
    | None \<Rightarrow> ErrText '''')"

lemma PublicMessage_public_part: "PublicMessage (Some (public_part e)) = PublicMessage (Some e)"
  by (simp add: PublicMessage_def public_part_def split: option.splits)

end
