(* ===== verification/GoNumbers.thy ===== *)
theory GoNumbers
  imports Prelude Complex_Main "HOL-Library.Log_Nat"
begin

text \<open>
  IEEE 754 binary64 as the program uses it: \<open>float64\<close> values, rounding to nearest with ties
  to even, multiplication, division by a positive constant, comparison, conversion to
  \<open>int64\<close>, the verb \<open>%.2f\<close>, and \<open>pkg/util/duration.go\<close>. A finite value is the
  rational number it denotes; negative zero is kept apart because it prints differently.
  Go leaves the conversion of a value outside \<open>int64\<close> to the platform, so that result is
  the parameter \<open>oob\<close>.
\<close>

section \<open>Values and rounding\<close>

datatype float64 = NaN | Inf bool | NegZero | Fin rat

definition pow2 :: "int \<Rightarrow> rat" where
  "pow2 e = (if 0 \<le> e then 2 ^ nat e else 1 / 2 ^ nat (- e))"

definition ilog2 :: "rat \<Rightarrow> int" where
  "ilog2 x = (let (p, q) = quotient_of x;
                  e = int (floorlog 2 (nat p)) - int (floorlog 2 (nat q))
              in if pow2 e \<le> x then e else e - 1)"

text \<open>Round to nearest integer, ties to even.\<close>

definition rne :: "rat \<Rightarrow> int" where
  "rne x = (let f = \<lfloor>x\<rfloor>; d = x - of_int f
            in if d < 1 / 2 then f else if 1 / 2 < d then f + 1 else if even f then f else f + 1)"

text \<open>The exponent of the last place of a positive \<open>x\<close>: 53 bits of precision, subnormals below.\<close>

definition ulp_exp :: "rat \<Rightarrow> int" where
  "ulp_exp x = max (ilog2 x - 52) (- 1074)"

definition round_pos :: "rat \<Rightarrow> rat" where
  "round_pos x = (let e = ulp_exp x in of_int (rne (x / pow2 e)) * pow2 e)"

definition round_f64 :: "rat \<Rightarrow> float64" where
  "round_f64 x =
     (if x = 0 then Fin 0
      else let r = round_pos \<bar>x\<bar>
           in if pow2 1024 \<le> r then Inf (x < 0)
              else if r = 0 then (if x < 0 then NegZero else Fin 0)
              else Fin (if x < 0 then - r else r))"

section \<open>Arithmetic, comparison, conversion\<close>

fun f_neg :: "float64 \<Rightarrow> bool" where
  "f_neg NaN = False"
| "f_neg (Inf s) = s"
| "f_neg NegZero = True"
| "f_neg (Fin x) = (x < 0)"

fun f_val :: "float64 \<Rightarrow> rat" where
  "f_val (Fin x) = x"
| "f_val _ = 0"

definition f_zero :: "float64 \<Rightarrow> bool" where
  "f_zero a \<longleftrightarrow> a = NegZero \<or> a = Fin 0"

definition f_inf :: "float64 \<Rightarrow> bool" where
  "f_inf a \<longleftrightarrow> a = Inf True \<or> a = Inf False"

definition f_mul :: "float64 \<Rightarrow> float64 \<Rightarrow> float64" where
  "f_mul a b =
     (if a = NaN \<or> b = NaN then NaN
      else if f_inf a \<or> f_inf b then (if f_zero a \<or> f_zero b then NaN else Inf (f_neg a \<noteq> f_neg b))
      else if f_zero a \<or> f_zero b then (if f_neg a \<noteq> f_neg b then NegZero else Fin 0)
      else round_f64 (f_val a * f_val b))"

text \<open>Division by a positive finite constant.\<close>

fun f_div_const :: "float64 \<Rightarrow> rat \<Rightarrow> float64" where
  "f_div_const (Fin x) c = round_f64 (x / c)"
| "f_div_const a c = a"

text \<open>Go's comparisons are false as soon as one side is NaN.\<close>

fun f_lt :: "float64 \<Rightarrow> float64 \<Rightarrow> bool" where
  "f_lt NaN b = False"
| "f_lt a NaN = False"
| "f_lt (Inf s) (Inf t) = (s \<and> \<not> t)"
| "f_lt (Inf s) b = s"
| "f_lt a (Inf t) = (\<not> t)"
| "f_lt a b = (f_val a < f_val b)"

fun f_le :: "float64 \<Rightarrow> float64 \<Rightarrow> bool" where
  "f_le NaN b = False"
| "f_le a NaN = False"
| "f_le (Inf s) (Inf t) = (s \<or> \<not> t)"
| "f_le (Inf s) b = s"
| "f_le a (Inf t) = (\<not> t)"
| "f_le a b = (f_val a \<le> f_val b)"

definition f_of_int :: "int \<Rightarrow> float64" where
  "f_of_int i = round_f64 (of_int i)"

definition trunc :: "rat \<Rightarrow> int" where
  "trunc x = (if 0 \<le> x then \<lfloor>x\<rfloor> else \<lceil>x\<rceil>)"

fun f_to_int64 :: "(float64 \<Rightarrow> int) \<Rightarrow> float64 \<Rightarrow> int" where
  "f_to_int64 oob (Fin x) = (if int64_range (trunc x) then trunc x else oob (Fin x))"
| "f_to_int64 oob NegZero = 0"
| "f_to_int64 oob a = oob a"

text \<open>The verb \<open>%.2f\<close>: exact decimal rounding, ties to even.\<close>

definition fmt_cents :: "nat \<Rightarrow> string" where
  "fmt_cents n = nat_dec (n div 100) @ ''.'' @ [digit_char (n div 10 mod 10), digit_char (n mod 10)]"

fun fmt_2f :: "float64 \<Rightarrow> string" where
  "fmt_2f NaN = ''NaN''"
| "fmt_2f (Inf s) = (if s then ''-Inf'' else ''+Inf'')"
| "fmt_2f NegZero = ''-0.00''"
| "fmt_2f (Fin x) = (if x < 0 then ''-'' else '''') @ fmt_cents (nat (rne (\<bar>x\<bar> * 100)))"

section \<open>util.SecondsDuration\<close>

text \<open>A \<open>time.Duration\<close> is an \<open>int64\<close> of nanoseconds.\<close>

type_synonym duration = int

definition second :: duration where
  "second = 1000000000"

definition SecondsDuration :: "(float64 \<Rightarrow> int) \<Rightarrow> float64 \<Rightarrow> duration" where
  "SecondsDuration oob seconds = f_to_int64 oob (f_mul seconds (f_of_int second))"

section \<open>Lemmas on rounding\<close>

lemma pow2_pos [simp]: "0 < pow2 e"
  by (simp add: pow2_def)

lemma pow2_powi: "pow2 e = 2 powi e"
  by (simp add: pow2_def power_int_def field_simps)

lemma pow2_add: "pow2 (a + b) = pow2 a * pow2 b"
  by (simp add: pow2_powi power_int_add)

lemma pow2_diff: "pow2 (a - b) = pow2 a / pow2 b"
  by (simp add: pow2_powi power_int_diff)

lemma pow2_mono: "a \<le> b \<Longrightarrow> pow2 a \<le> pow2 b"
  by (simp add: pow2_powi power_int_increasing)

lemma pow2_nat [simp]: "pow2 (int n) = 2 ^ n"
  by (simp add: pow2_def)

lemma rne_of_int [simp]: "rne (of_int n) = n"
  by (simp add: rne_def)

lemma rne_bounds: "\<lfloor>x\<rfloor> \<le> rne x" "rne x \<le> \<lfloor>x\<rfloor> + 1"
  by (auto simp: rne_def Let_def)

lemma rne_error: "\<bar>of_int (rne x) - x\<bar> \<le> 1 / 2"
  by (auto simp: rne_def Let_def abs_if) linarith+

lemma rne_le_int: "x \<le> of_int n \<Longrightarrow> rne x \<le> n"
proof -
  assume x: "x \<le> of_int n"
  show ?thesis
  proof (cases "x = of_int n")
    case False
    with x have "\<lfloor>x\<rfloor> < n" by (simp add: floor_less_iff)
    with rne_bounds(2) [of x] show ?thesis by linarith
  qed simp
qed

lemma rne_nonneg: "0 \<le> x \<Longrightarrow> 0 \<le> rne x"
  using rne_bounds(1) [of x] by linarith

lemma floorlog_two:
  assumes "0 < n"
  shows "2 ^ (floorlog 2 n - 1) \<le> n" and "n < 2 ^ floorlog 2 n" and "1 \<le> floorlog 2 n"
  using floorlog_bounds [of n 2] floorlog_ge_SucI [of 2 0 n] assms by auto

lemma ilog2_lower:
  assumes "0 < x"
  shows "pow2 (ilog2 x) \<le> x"
proof -
  obtain p q where pq: "quotient_of x = (p, q)" by (cases "quotient_of x")
  from pq have q0: "0 < q" by (rule quotient_of_denom_pos)
  from pq have x: "x = of_int p / of_int q" by (rule quotient_of_div)
  with assms q0 have p0: "0 < p" by (simp add: zero_less_divide_iff)
  define P where "P = floorlog 2 (nat p)"
  define Q where "Q = floorlog 2 (nat q)"
  have P: "2 ^ (P - 1) \<le> nat p" "1 \<le> P" using floorlog_two [of "nat p"] p0 by (auto simp: P_def)
  have Q: "nat q < 2 ^ Q" using floorlog_two [of "nat q"] q0 by (auto simp: Q_def)
  have "(2::rat) ^ (P - 1) \<le> of_int p"
  proof -
    have "of_nat (2 ^ (P - 1)) \<le> (of_nat (nat p) :: rat)" using P(1) by (simp only: of_nat_le_iff)
    then show ?thesis using p0 by simp
  qed
  moreover have "of_int q \<le> (2::rat) ^ Q"
  proof -
    have "(of_nat (nat q) :: rat) \<le> of_nat (2 ^ Q)" using Q by (simp only: of_nat_le_iff less_imp_le)
    then show ?thesis using q0 by simp
  qed
  ultimately have "(2::rat) ^ (P - 1) * of_int q \<le> of_int p * 2 ^ Q"
    using q0 p0 by (intro mult_mono) auto
  then have "(2::rat) ^ (P - 1) / 2 ^ Q \<le> x" using q0 by (simp add: x field_simps)
  moreover have "pow2 (int P - int Q - 1) = 2 ^ (P - 1) / 2 ^ Q"
  proof -
    have "int P - int Q - 1 = int (P - 1) - int Q" using P(2) by simp
    then show ?thesis by (simp only: pow2_diff pow2_nat)
  qed
  ultimately have "pow2 (int P - int Q - 1) \<le> x" by simp
  then show ?thesis by (simp add: ilog2_def pq P_def Q_def Let_def)
qed

text \<open>A value below \<open>2 ^ k\<close> has a smaller exponent.\<close>

lemma ilog2_less: "0 < x \<Longrightarrow> x < pow2 k \<Longrightarrow> ilog2 x < k"
proof (rule ccontr)
  assume x: "0 < x" "x < pow2 k" and "\<not> ilog2 x < k"
  then have "pow2 k \<le> pow2 (ilog2 x)" by (intro pow2_mono) simp
  with ilog2_lower [OF x(1)] x(2) show False by simp
qed

lemma rne_mult_pow2_le:
  assumes "x \<le> of_int n" "e \<le> 0"
  shows "of_int (rne (x / pow2 e)) * pow2 e \<le> of_int n"
proof -
  have inv: "of_int (2 ^ nat (- e)) * pow2 e = 1"
    using assms(2) by (simp add: pow2_def)
  have "1 / pow2 e = of_int (2 ^ nat (- e))"
    using assms(2) by (cases "e = 0") (auto simp: pow2_def)
  then have eq: "x / pow2 e = x * of_int (2 ^ nat (- e))" by (metis divide_inverse inverse_eq_divide)
  have "x * of_int (2 ^ nat (- e)) \<le> of_int (n * 2 ^ nat (- e))"
    using assms(1) by (simp add: mult_right_mono)
  then have "rne (x / pow2 e) \<le> n * 2 ^ nat (- e)"
    unfolding eq by (rule rne_le_int)
  then have "of_int (rne (x / pow2 e)) \<le> (of_int (n * 2 ^ nat (- e)) :: rat)"
    by (simp only: of_int_le_iff)
  then have "of_int (rne (x / pow2 e)) * pow2 e \<le> of_int (n * 2 ^ nat (- e)) * pow2 e"
    by (intro mult_right_mono) (auto simp: less_imp_le)
  also have "\<dots> = of_int n * (of_int (2 ^ nat (- e)) * pow2 e)" by simp
  also have "\<dots> = of_int n" by (simp only: inv mult_1_right)
  finally show ?thesis .
qed

text \<open>Rounding never passes an integer of at most 53 bits.\<close>

lemma round_pos_le_int:
  assumes "0 < x" "x \<le> of_int n" "n < 2 ^ 53"
  shows "round_pos x \<le> of_int n"
proof -
  have "(of_int n :: rat) < of_int (2 ^ 53)" using assms(3) by (simp only: of_int_less_iff)
  then have "x < pow2 53" using assms(2) by (simp add: pow2_def)
  with assms(1) have "ilog2 x < 53" by (rule ilog2_less)
  then have "ulp_exp x \<le> 0" by (simp add: ulp_exp_def)
  with assms(2) show ?thesis by (simp add: round_pos_def Let_def rne_mult_pow2_le)
qed

lemma round_pos_nonneg: "0 < x \<Longrightarrow> 0 \<le> round_pos x"
  by (simp add: round_pos_def Let_def rne_nonneg less_imp_le)

text \<open>An integer of at most 53 bits is a \<open>float64\<close>: it rounds to itself.\<close>

lemma round_pos_of_int:
  assumes "0 < n" "n < 2 ^ 53"
  shows "round_pos (of_int n) = of_int n"
proof -
  have "(of_int n :: rat) < of_int (2 ^ 53)" using assms(2) by (simp only: of_int_less_iff)
  then have "(of_int n :: rat) < pow2 53" by (simp add: pow2_def)
  then have "ilog2 (of_int n) < 53" using assms(1) by (intro ilog2_less) auto
  then have e: "ulp_exp (of_int n) \<le> 0" by (simp add: ulp_exp_def)
  define k where "k = nat (- ulp_exp (of_int n))"
  have p: "pow2 (ulp_exp (of_int n)) = 1 / 2 ^ k"
    using e by (cases "ulp_exp (of_int n) = 0") (auto simp: pow2_def k_def)
  have "(of_int n :: rat) / (1 / 2 ^ k) = of_int (n * 2 ^ k)" by simp
  then show ?thesis by (simp only: round_pos_def Let_def p rne_of_int) simp
qed

lemma f_of_int_small: "0 \<le> n \<Longrightarrow> n < 2 ^ 53 \<Longrightarrow> f_of_int n = Fin (of_int n)"
proof (cases "n = 0")
  case False
  assume n: "0 \<le> n" "n < 2 ^ 53"
  with False have "round_pos (of_int n) = of_int n" by (intro round_pos_of_int) auto
  moreover have "(of_int n :: rat) < pow2 1024"
  proof -
    have "(of_int n :: rat) < of_int (2 ^ 53)" using n(2) by (simp only: of_int_less_iff)
    also have "of_int (2 ^ 53) = pow2 53" by (simp add: pow2_def)
    also have "\<dots> \<le> pow2 1024" by (rule pow2_mono) simp
    finally show ?thesis .
  qed
  ultimately show ?thesis using n False by (simp add: f_of_int_def round_f64_def Let_def)
qed (simp add: f_of_int_def round_f64_def)

lemma int64_range_small: "0 \<le> i \<Longrightarrow> i < 2 ^ 53 \<Longrightarrow> int64_range i"
  by (simp add: int64_range_def)

lemma trunc_of_nonneg: "0 \<le> x \<Longrightarrow> trunc x = \<lfloor>x\<rfloor>"
  by (simp add: trunc_def)

text \<open>
  The product of a finite non-negative factor and a number, when it stays below an integer of
  at most 53 bits, converts to an \<open>int64\<close> between zero and that integer.
\<close>

lemma f_mul_to_int64_bounds:
  assumes "0 \<le> x" "0 \<le> y" "x * y \<le> of_int n" "n < 2 ^ 53"
  shows "0 \<le> f_to_int64 oob (f_mul (Fin x) (Fin y)) \<and> f_to_int64 oob (f_mul (Fin x) (Fin y)) \<le> n"
proof (cases "x = 0 \<or> y = 0")
  case True
  have "0 \<le> n" using assms(1,2,3) by (metis mult_nonneg_nonneg of_int_0_le_iff order_trans)
  with True assms(1,2) show ?thesis
    by (auto simp: f_mul_def f_inf_def f_zero_def trunc_def int64_range_def)
next
  case False
  with assms(1,2) have xy: "0 < x * y" by simp
  let ?r = "round_pos (x * y)"
  have r: "0 \<le> ?r" "?r \<le> of_int n"
    using round_pos_nonneg [OF xy] round_pos_le_int [OF xy assms(3,4)] by auto
  have "(of_int n :: rat) < of_int (2 ^ 53)" using assms(4) by (simp only: of_int_less_iff)
  also have "of_int (2 ^ 53) = pow2 53" by (simp add: pow2_def)
  also have "\<dots> \<le> pow2 1024" by (rule pow2_mono) simp
  finally have "?r < pow2 1024" using r(2) by simp
  then have m: "f_mul (Fin x) (Fin y) = Fin ?r"
    using False xy by (simp add: f_mul_def f_inf_def f_zero_def round_f64_def Let_def)
  have t: "0 \<le> \<lfloor>?r\<rfloor>" "\<lfloor>?r\<rfloor> \<le> n" using r by (auto simp: le_floor_iff floor_le_iff)
  moreover have "int64_range \<lfloor>?r\<rfloor>" using t(1) le_less_trans [OF t(2) assms(4)] by (rule int64_range_small)
  ultimately show ?thesis using r(1) by (simp add: m trunc_of_nonneg)
qed

end
