(* ===== verification/Domain.thy ===== *)
theory Domain
  imports GoErrors GoNumbers
begin

text \<open>
  The business values of \<open>internal/domain\<close> (\<open>identity.go\<close>, \<open>login_request.go\<close>,
  \<open>profile.go\<close>) and the log context of \<open>pkg/log/context.go\<close>. A Go context is the chain
  of derivations that made it; whether it is done at some moment is a question to the
  environment. The epoch keeps its 64 bits.
\<close>

section \<open>Identity\<close>

record auth_state =
  Token :: string
  DID :: string
  VisitorID :: string

type_synonym epoch = "64 word"

definition no_auth_state :: auth_state where
  "no_auth_state = \<lparr>Token = '''', DID = '''', VisitorID = ''''\<rparr>"

definition Empty :: "auth_state \<Rightarrow> bool" where
  "Empty s \<longleftrightarrow> Token s = '''' \<and> DID s = '''' \<and> VisitorID s = ''''"

definition Complete :: "auth_state \<Rightarrow> bool" where
  "Complete s \<longleftrightarrow> Token s \<noteq> '''' \<and> DID s \<noteq> '''' \<and> VisitorID s \<noteq> ''''"

record login_request =
  lr_Username :: string
  lr_Password :: string
  lr_TotpSecret :: string
  lr_VisitorID :: string

record profile =
  Username :: string
  UploadedBytes :: int
  DownloadedBytes :: int
  Bonus :: float64
  LastLogin :: string
  LastBrowse :: string

lemma Empty_iff [simp]: "Empty s \<longleftrightarrow> s = no_auth_state"
  by (cases s) (auto simp: Empty_def no_auth_state_def)

lemma no_auth_state_sel [simp]:
  "Token no_auth_state = ''''" "DID no_auth_state = ''''" "VisitorID no_auth_state = ''''"
  by (simp_all add: no_auth_state_def)

lemma Complete_not_Empty: "Complete s \<Longrightarrow> s \<noteq> no_auth_state"
  by (auto simp: Complete_def)

section \<open>Contexts\<close>

datatype ctx_val =
    StrVal string
  | MapVal strmap

datatype gocontext =
    Background
  | CancelCtx gocontext
  | TimeoutCtx duration gocontext
  | ValueCtx string ctx_val gocontext

record logctx =
  lc_ctx :: gocontext
  lc_logid :: string

definition ctx_WithCancel :: "logctx \<Rightarrow> logctx" where
  "ctx_WithCancel c = \<lparr>lc_ctx = CancelCtx (lc_ctx c), lc_logid = lc_logid c\<rparr>"

definition ctx_WithTimeout :: "duration \<Rightarrow> logctx \<Rightarrow> logctx" where
  "ctx_WithTimeout timeout c =
     (if timeout \<le> 0 then ctx_WithCancel c
      else \<lparr>lc_ctx = TimeoutCtx timeout (lc_ctx c), lc_logid = lc_logid c\<rparr>)"

definition ctx_WithValue :: "string \<Rightarrow> ctx_val \<Rightarrow> logctx \<Rightarrow> logctx" where
  "ctx_WithValue key v c = \<lparr>lc_ctx = ValueCtx key v (lc_ctx c), lc_logid = lc_logid c\<rparr>"

text \<open>\<open>log.NewContext\<close>: the log id comes from the snowflake generator, the argument \<open>i\<close>.\<close>

definition ctx_NewContext :: "string \<Rightarrow> gocontext option \<Rightarrow> logctx" where
  "ctx_NewContext i parent =
     \<lparr>lc_ctx = (case parent of None \<Rightarrow> Background | Some p \<Rightarrow> p), lc_logid = i\<rparr>"

definition ctx_WrapContext :: "string \<Rightarrow> gocontext option \<Rightarrow> logctx option \<Rightarrow> logctx" where
  "ctx_WrapContext i parent current =
     (let p = (case parent of None \<Rightarrow> Background | Some p \<Rightarrow> p)
      in case current of None \<Rightarrow> ctx_NewContext i (Some p)
         | Some c \<Rightarrow> \<lparr>lc_ctx = p, lc_logid = lc_logid c\<rparr>)"

definition LogID :: "logctx option \<Rightarrow> string" where
  "LogID c = (case c of None \<Rightarrow> '''' | Some c \<Rightarrow> lc_logid c)"

fun ctx_value :: "gocontext \<Rightarrow> string \<Rightarrow> ctx_val option" where
  "ctx_value Background k = None"
| "ctx_value (CancelCtx c) k = ctx_value c k"
| "ctx_value (TimeoutCtx t c) k = ctx_value c k"
| "ctx_value (ValueCtx k' v c) k = (if k' = k then Some v else ctx_value c k)"

text \<open>Every derived context stays on the log chain of its parent.\<close>

lemma derived_logid [simp]:
  "lc_logid (ctx_WithCancel c) = lc_logid c"
  "lc_logid (ctx_WithTimeout t c) = lc_logid c"
  "lc_logid (ctx_WithValue k v c) = lc_logid c"
  by (simp_all add: ctx_WithCancel_def ctx_WithTimeout_def ctx_WithValue_def)

end
