(* ===== verification/Crypto.thy ===== *)
theory Crypto
  imports GoErrors
begin

text \<open>
  The keyed hashes of the program: \<open>HmacSha1Base64\<close> (\<open>pkg/util/hmac.go\<close>), the request
  signature (\<open>pkg/apikit/internal/mtproto/signature.go\<close>), the one-time password
  (\<open>pkg/apikit/apimtauth/totp.go\<close>) and the random strings of \<open>pkg/util/string.go\<close>, over
  the packages of Go's library they call: SHA-1 and SHA-256 on 32-bit words, HMAC, base64 and base32.
\<close>

unbundle bit_operations_syntax

section \<open>Bytes and words\<close>

type_synonym word32 = "32 word"

definition byte_word :: "char \<Rightarrow> word32" where
  "byte_word c = word_of_int (of_char c)"

definition word_byte :: "word32 \<Rightarrow> char" where
  "word_byte w = char_of (uint w)"

text \<open>\<open>binary.BigEndian\<close> on four and on eight bytes.\<close>

definition be32 :: "word32 \<Rightarrow> string" where
  "be32 w = [word_byte (drop_bit 24 w), word_byte (drop_bit 16 w), word_byte (drop_bit 8 w), word_byte w]"

definition be64 :: "64 word \<Rightarrow> string" where
  "be64 w = map (\<lambda>k. char_of (uint (drop_bit k w))) [56, 48, 40, 32, 24, 16, 8, 0]"

fun be_word :: "string \<Rightarrow> word32" where
  "be_word [] = 0"
| "be_word cs = foldl (\<lambda>a c. push_bit 8 a OR byte_word c) 0 cs"

section \<open>SHA-1\<close>

text \<open>\<open>sha1.go\<close>: the message is padded with \<open>0x80\<close>, zeros and its length in bits.\<close>

definition sha1_pad :: "string \<Rightarrow> string" where
  "sha1_pad m =
     m @ CHR 0x80 # replicate ((119 - length m mod 64) mod 64) (CHR 0x00) @ be64 (of_nat (8 * length m))"

fun chunks :: "nat \<Rightarrow> 'a list \<Rightarrow> 'a list list" where
  "chunks n xs = (if n = 0 \<or> xs = [] then [] else take n xs # chunks n (drop n xs))"

declare chunks.simps [simp del]

text \<open>The message schedule, newest word first.\<close>

fun schedule :: "nat \<Rightarrow> word32 list \<Rightarrow> word32 list" where
  "schedule 0 ws = ws"
| "schedule (Suc n) ws =
     schedule n (word_rotl 1 (ws ! 2 XOR ws ! 7 XOR ws ! 13 XOR ws ! 15) # ws)"

fun sha1_fk :: "nat \<Rightarrow> word32 \<Rightarrow> word32 \<Rightarrow> word32 \<Rightarrow> word32 \<times> word32" where
  "sha1_fk i b c d =
     (if i < 20 then ((b AND c) OR (NOT b AND d), 0x5A827999)
      else if i < 40 then (b XOR c XOR d, 0x6ED9EBA1)
      else if i < 60 then (((b OR c) AND d) OR (b AND c), 0x8F1BBCDC)
      else (b XOR c XOR d, 0xCA62C1D6))"

fun sha1_rounds :: "nat \<Rightarrow> word32 list \<Rightarrow> word32 list \<Rightarrow> word32 list" where
  "sha1_rounds i (w # ws) [a, b, c, d, e] =
     (case sha1_fk i b c d of (f, k) \<Rightarrow>
        let t = word_rotl 5 a + f + e + w + k in sha1_rounds (Suc i) ws [t, a, word_rotl 30 b, c, d])"
| "sha1_rounds i ws hs = hs"

definition sha1_block :: "word32 list \<Rightarrow> string \<Rightarrow> word32 list" where
  "sha1_block hs blk =
     (let ws = rev (schedule 64 (rev (map be_word (chunks 4 blk))))
      in map2 (+) hs (sha1_rounds 0 ws hs))"

definition sha1_init :: "word32 list" where
  "sha1_init = [0x67452301, 0xEFCDAB89, 0x98BADCFE, 0x10325476, 0xC3D2E1F0]"

definition sha1 :: "string \<Rightarrow> string" where
  "sha1 m = concat (map be32 (foldl sha1_block sha1_init (chunks 64 (sha1_pad m))))"

section \<open>SHA-256\<close>

definition sha256_k :: "word32 list" where
  "sha256_k =
    [0x428A2F98, 0x71374491, 0xB5C0FBCF, 0xE9B5DBA5, 0x3956C25B, 0x59F111F1, 0x923F82A4, 0xAB1C5ED5,
     0xD807AA98, 0x12835B01, 0x243185BE, 0x550C7DC3, 0x72BE5D74, 0x80DEB1FE, 0x9BDC06A7, 0xC19BF174,
     0xE49B69C1, 0xEFBE4786, 0x0FC19DC6, 0x240CA1CC, 0x2DE92C6F, 0x4A7484AA, 0x5CB0A9DC, 0x76F988DA,
     0x983E5152, 0xA831C66D, 0xB00327C8, 0xBF597FC7, 0xC6E00BF3, 0xD5A79147, 0x06CA6351, 0x14292967,
     0x27B70A85, 0x2E1B2138, 0x4D2C6DFC, 0x53380D13, 0x650A7354, 0x766A0ABB, 0x81C2C92E, 0x92722C85,
     0xA2BFE8A1, 0xA81A664B, 0xC24B8B70, 0xC76C51A3, 0xD192E819, 0xD6990624, 0xF40E3585, 0x106AA070,
     0x19A4C116, 0x1E376C08, 0x2748774C, 0x34B0BCB5, 0x391C0CB3, 0x4ED8AA4A, 0x5B9CCA4F, 0x682E6FF3,
     0x748F82EE, 0x78A5636F, 0x84C87814, 0x8CC70208, 0x90BEFFFA, 0xA4506CEB, 0xBEF9A3F7, 0xC67178F2]"

definition sha256_init :: "word32 list" where
  "sha256_init =
    [0x6A09E667, 0xBB67AE85, 0x3C6EF372, 0xA54FF53A, 0x510E527F, 0x9B05688C, 0x1F83D9AB, 0x5BE0CD19]"

definition rotr :: "nat \<Rightarrow> word32 \<Rightarrow> word32" where
  "rotr n w = word_rotr n w"

fun schedule256 :: "nat \<Rightarrow> word32 list \<Rightarrow> word32 list" where
  "schedule256 0 ws = ws"
| "schedule256 (Suc n) ws =
     (let a = ws ! 14; b = ws ! 1;
          s0 = rotr 7 a XOR rotr 18 a XOR drop_bit 3 a;
          s1 = rotr 17 b XOR rotr 19 b XOR drop_bit 10 b
      in schedule256 n ((ws ! 15 + s0 + ws ! 6 + s1) # ws))"

fun sha256_rounds :: "(word32 \<times> word32) list \<Rightarrow> word32 list \<Rightarrow> word32 list" where
  "sha256_rounds ((w, k) # ws) [a, b, c, d, e, f, g, h] =
     (let t1 = h + (rotr 6 e XOR rotr 11 e XOR rotr 25 e) + ((e AND f) XOR (NOT e AND g)) + k + w;
          t2 = (rotr 2 a XOR rotr 13 a XOR rotr 22 a) + ((a AND b) XOR (a AND c) XOR (b AND c))
      in sha256_rounds ws [t1 + t2, a, b, c, d + t1, e, f, g])"
| "sha256_rounds ws hs = hs"

definition sha256_block :: "word32 list \<Rightarrow> string \<Rightarrow> word32 list" where
  "sha256_block hs blk =
     (let ws = rev (schedule256 48 (rev (map be_word (chunks 4 blk))))
      in map2 (+) hs (sha256_rounds (zip ws sha256_k) hs))"

definition sha256 :: "string \<Rightarrow> string" where
  "sha256 m = concat (map be32 (foldl sha256_block sha256_init (chunks 64 (sha1_pad m))))"

section \<open>HMAC\<close>

text \<open>Both hashes have blocks of 64 bytes.\<close>

definition hmac_key :: "(string \<Rightarrow> string) \<Rightarrow> string \<Rightarrow> string" where
  "hmac_key hash key = (let k = (if length key > 64 then hash key else key) in k @ replicate (64 - length k) (CHR 0x00))"

definition xor_byte :: "word32 \<Rightarrow> char \<Rightarrow> char" where
  "xor_byte w c = word_byte (byte_word c XOR w)"

definition hmac :: "(string \<Rightarrow> string) \<Rightarrow> string \<Rightarrow> string \<Rightarrow> string" where
  "hmac hash key message =
     (let k = hmac_key hash key
      in hash (map (xor_byte 0x5C) k @ hash (map (xor_byte 0x36) k @ message)))"

definition hmac_sha1 :: "string \<Rightarrow> string \<Rightarrow> string" where
  "hmac_sha1 key message = hmac sha1 key message"

definition hmac_sha256 :: "string \<Rightarrow> string \<Rightarrow> string" where
  "hmac_sha256 key message = hmac sha256 key message"

section \<open>Base64 and base32\<close>

definition base64_alphabet :: string where
  "base64_alphabet = ''ABCDEFGHIJKLMNOPQRSTUVWXYZabcdefghijklmnopqrstuvwxyz0123456789+/''"

definition base64_digits :: "nat \<Rightarrow> int \<Rightarrow> string" where
  "base64_digits k n = map (\<lambda>i. base64_alphabet ! nat (i mod 64)) (take k [n div 262144, n div 4096, n div 64, n])"

fun base64_encode :: "string \<Rightarrow> string" where
  "base64_encode (a # b # c # cs) =
     base64_digits 4 (65536 * of_char a + 256 * of_char b + of_char c) @ base64_encode cs"
| "base64_encode [a, b] = base64_digits 3 (65536 * of_char a + 256 * of_char b) @ ''=''"
| "base64_encode [a] = base64_digits 2 (65536 * of_char a) @ ''==''"
| "base64_encode [] = []"

definition base32_value :: "char \<Rightarrow> int option" where
  "base32_value c =
     (let k = of_char c
      in if 65 \<le> k \<and> k \<le> 90 then Some (k - 65)
         else if 50 \<le> k \<and> k \<le> 55 then Some (k - 24) else None)"

text \<open>
  One group of at most eight digits. A group of one, three or six digits falls through the
  decoder's \<open>switch\<close> and yields no byte at all.
\<close>

definition base32_group :: "int list \<Rightarrow> string" where
  "base32_group ds =
     (let n = foldl (\<lambda>a d. 32 * a + d) 0 (ds @ replicate (8 - length ds) 0);
          bytes = map char_of [n div 4294967296, n div 16777216, n div 65536, n div 256, n]
      in if length ds = 8 then bytes
         else if length ds = 7 then take 4 bytes
         else if length ds = 5 then take 3 bytes
         else if length ds = 4 then take 2 bytes
         else if length ds = 2 then take 1 bytes
         else [])"

fun base32_digits :: "nat \<Rightarrow> string \<Rightarrow> goerror + int list" where
  "base32_digits i [] = Inr []"
| "base32_digits i (c # cs) =
     (case base32_value c of
        None \<Rightarrow> Inl (ErrText (''illegal base32 data at input byte '' @ nat_dec i))
      | Some d \<Rightarrow> (case base32_digits (Suc i) cs of Inl e \<Rightarrow> Inl e | Inr ds \<Rightarrow> Inr (d # ds)))"

text \<open>\<open>StdEncoding.WithPadding(NoPadding).DecodeString\<close>: line breaks are dropped first.\<close>

definition base32_decode :: "string \<Rightarrow> goerror + string" where
  "base32_decode s =
     (case base32_digits 0 (filter (\<lambda>c. c \<noteq> CHR 0x0A \<and> c \<noteq> CHR 0x0D) s) of
        Inl e \<Rightarrow> Inl e
      | Inr ds \<Rightarrow> Inr (concat (map base32_group (chunks 8 ds))))"

section \<open>The program's functions\<close>

definition HmacSha1Base64 :: "string \<Rightarrow> string \<Rightarrow> string" where
  "HmacSha1Base64 message secret = base64_encode (hmac_sha1 secret message)"

definition Signature :: "string \<Rightarrow> string \<Rightarrow> int \<Rightarrow> string" where
  "Signature meth path timestamp =
     HmacSha1Base64 (meth @ ''&'' @ path @ ''&'' @ int_dec timestamp) ''HLkPcWmycL57mfJt''"

text \<open>Go's integer division truncates towards zero.\<close>

definition go_div :: "int \<Rightarrow> int \<Rightarrow> int" where
  "go_div a b = sgn a * sgn b * (\<bar>a\<bar> div \<bar>b\<bar>)"

text \<open>\<open>binary.BigEndian.Uint32(sum[offset:offset+4]) & 0x7fffffff\<close>.\<close>

definition totp_value :: "string \<Rightarrow> word32" where
  "totp_value digest =
     (let offset = unat (byte_word (last digest) AND 0x0F)
      in be_word (take 4 (drop offset digest)) AND 0x7FFFFFFF)"

definition totp_code :: "string \<Rightarrow> int \<Rightarrow> string" where
  "totp_code key now =
     (let counter = word_of_int (go_div now 30) :: 64 word;
          digest = hmac_sha1 key (be64 counter)
      in fmt_06d (int (unat (totp_value digest mod 1000000))))"

text \<open>\<open>generateAt\<close>, with the time in seconds; \<open>Generate\<close> reads the clock.\<close>

definition generateAt :: "string \<Rightarrow> int \<Rightarrow> goerror + string" where
  "generateAt secret now =
     (let normalized = to_upper (trim_space secret)
      in case base32_decode (trim_right_char normalized (CHR ''='')) of
           Inl err \<Rightarrow> Inl (wrap_prefix ''decode totp secret'' err)
         | Inr key \<Rightarrow> Inr (totp_code key now))"

definition digitsAndLowercase :: string where
  "digitsAndLowercase = ''1234567890abcdefghijklmnopqrstuvwxyz''"

text \<open>
  \<open>util.String\<close>: \<open>draw\<close> stands for \<open>rand.Int(rand.Reader, maxBound)\<close>, which gives a number
  below the bound or an error.
\<close>

type_synonym 'w random_int = "nat \<Rightarrow> 'w \<Rightarrow> (goerror + nat) \<times> 'w"

fun random_chars :: "'w random_int \<Rightarrow> nat \<Rightarrow> 'w \<Rightarrow> (goerror + string) \<times> 'w" where
  "random_chars draw 0 w = (Inr [], w)"
| "random_chars draw (Suc n) w =
     (case draw (length digitsAndLowercase) w of
        (Inl err, w) \<Rightarrow> (Inl err, w)
      | (Inr k, w) \<Rightarrow>
          (case random_chars draw n w of
             (Inl err, w) \<Rightarrow> (Inl err, w)
           | (Inr cs, w) \<Rightarrow> (Inr (digitsAndLowercase ! k # cs), w)))"

definition String :: "'w random_int \<Rightarrow> int \<Rightarrow> 'w \<Rightarrow> (goerror + string) \<times> 'w" where
  "String draw len w =
     (if len \<le> 0 then (Inl (ErrText ''length must be positive''), w) else random_chars draw (nat len) w)"

section \<open>Lengths\<close>

lemma length_be32 [simp]: "length (be32 w) = 4"
  by (simp add: be32_def)

lemma length_be64 [simp]: "length (be64 w) = 8"
  by (simp add: be64_def)

lemma chunks_Nil [simp]: "chunks n [] = []"
  by (simp add: chunks.simps)

lemma chunks_step: "0 < n \<Longrightarrow> xs \<noteq> [] \<Longrightarrow> chunks n xs = take n xs # chunks n (drop n xs)"
  by (subst chunks.simps) simp

text \<open>The padded message fills whole blocks.\<close>

lemma length_sha1_pad: "length (sha1_pad m) mod 64 = 0"
proof -
  define r where "r = length m mod 64"
  have r: "r < 64" by (simp add: r_def)
  have "length (sha1_pad m) = length m + 9 + (119 - r) mod 64"
    by (simp add: sha1_pad_def r_def)
  also have "\<dots> mod 64 = (r + 9 + (119 - r)) mod 64"
    unfolding r_def by (metis (no_types) add.assoc mod_add_left_eq mod_add_right_eq)
  also have "\<dots> = 0" using r by simp
  finally show ?thesis .
qed

lemma length_sha1_rounds: "length (sha1_rounds i ws hs) = length hs"
  by (induction i ws hs rule: sha1_rounds.induct) (auto simp: Let_def split: prod.splits simp del: sha1_fk.simps)

lemma length_sha1_block [simp]: "length (sha1_block hs blk) = length hs"
  by (simp add: sha1_block_def Let_def length_sha1_rounds)

lemma length_schedule: "length (schedule n ws) = n + length ws"
  by (induction n ws rule: schedule.induct) auto

lemma length_foldl_sha1_block: "length (foldl sha1_block hs bs) = length hs"
  by (induction bs arbitrary: hs) auto

lemma length_concat_be32: "length (concat (map be32 ws)) = 4 * length ws"
  by (induction ws) auto

lemma length_sha1 [simp]: "length (sha1 m) = 20"
  by (simp add: sha1_def length_concat_be32 length_foldl_sha1_block sha1_init_def)

lemma length_hmac_sha1 [simp]: "length (hmac_sha1 k m) = 20"
  by (simp add: hmac_sha1_def hmac_def Let_def)

lemma length_base64_digits [simp]: "k \<le> 4 \<Longrightarrow> length (base64_digits k n) = k"
  by (simp add: base64_digits_def)

lemma div3_step: "Suc (Suc (Suc n)) div 3 = Suc (n div 3)"
  using div_add_self2 [of 3 n] by simp

lemma length_base64: "length (base64_encode s) = 4 * ((length s + 2) div 3)"
proof (induction s rule: base64_encode.induct)
  case (1 a b c cs)
  then show ?case using div3_step [of "length cs + 2"] by simp
qed simp_all

text \<open>A signature is always 28 characters long.\<close>

lemma length_Signature: "length (Signature meth path t) = 28"
  by (simp add: Signature_def HmacSha1Base64_def length_base64)

section \<open>One-time passwords\<close>

text \<open>The offset read from the digest leaves four bytes to read: the slice never runs over.\<close>

lemma totp_slice: "length (take 4 (drop (unat (byte_word (last (hmac_sha1 k m)) AND 0x0F)) (hmac_sha1 k m))) = 4"
proof -
  have "unat (byte_word (last (hmac_sha1 k m)) AND 0x0F) \<le> unat (0x0F :: word32)"
    by (rule word_and_le1 [THEN word_le_nat_alt [THEN iffD1]])
  then show ?thesis by simp
qed

lemma nat_dec_length: "n < 10 ^ k \<Longrightarrow> 0 < k \<Longrightarrow> length (nat_dec n) \<le> k"
proof (induction k arbitrary: n)
  case (Suc k)
  show ?case
  proof (cases "n < 10")
    case True
    then show ?thesis by (subst nat_dec.simps) simp
  next
    case False
    with Suc.prems have "0 < k" by (cases k) auto
    moreover have "n div 10 < 10 ^ k" using Suc.prems by (simp add: less_mult_imp_div_less mult.commute)
    ultimately have "length (nat_dec (n div 10)) \<le> k" using Suc.IH by blast
    with False show ?thesis by (subst nat_dec.simps) simp
  qed
qed simp

lemma fmt_06d_digits:
  assumes "0 \<le> i" "i < 1000000"
  shows "length (fmt_06d i) = 6 \<and> (\<forall>c\<in>set (fmt_06d i). \<exists>d<10. c = digit_char d)"
proof -
  from assms have "nat i < 10 ^ 6" by simp
  then have len: "length (nat_dec (nat i)) \<le> 6" using nat_dec_length [of "nat i" 6] by simp
  have "CHR ''0'' = digit_char 0" by code_simp
  then have "\<exists>d<10. CHR ''0'' = digit_char d" by (intro exI [of _ 0]) simp
  then have "\<forall>c\<in>set (pad0 6 (nat_dec (nat i))). \<exists>d<10. c = digit_char d"
    using nat_dec_digits by (auto simp: pad0_def)
  with assms len show ?thesis by (auto simp: fmt_06d_def pad0_def)
qed

lemma totp_code_digits:
  "length (totp_code key now) = 6 \<and> (\<forall>c\<in>set (totp_code key now). \<exists>d<10. c = digit_char d)"
proof -
  have "unat (totp_value (hmac_sha1 key (be64 (word_of_int (go_div now 30)))) mod 1000000) < 1000000"
    by (simp add: unat_mod)
  then show ?thesis
    unfolding totp_code_def Let_def by (intro fmt_06d_digits) linarith+
qed

section \<open>Random strings\<close>

definition random_law :: "'w random_int \<Rightarrow> bool" where
  "random_law draw \<longleftrightarrow> (\<forall>n w k w'. draw n w = (Inr k, w') \<longrightarrow> k < n)"

lemma random_chars_ok:
  "random_chars draw n w = (Inr s, w') \<Longrightarrow> random_law draw \<Longrightarrow>
     length s = n \<and> set s \<subseteq> set digitsAndLowercase"
proof (induction n arbitrary: w s)
  case (Suc n)
  then obtain k w1 cs where d: "draw (length digitsAndLowercase) w = (Inr k, w1)"
    and r: "random_chars draw n w1 = (Inr cs, w')" and s: "s = digitsAndLowercase ! k # cs"
    by (auto split: prod.splits sum.splits)
  from d Suc.prems(2) have "k < length digitsAndLowercase" by (auto simp: random_law_def)
  with Suc.IH [OF r Suc.prems(2)] s show ?case by auto
qed auto

lemma String_ok:
  "String draw len w = (Inr s, w') \<Longrightarrow> random_law draw \<Longrightarrow>
     0 < len \<and> length s = nat len \<and> set s \<subseteq> set digitsAndLowercase"
  using random_chars_ok by (fastforce simp: String_def split: if_splits)

text \<open>
  A one-time password is six decimal digits, whatever the secret and the time, when the
  secret decodes at all.
\<close>

lemma one_time_password_is_six_digits:
  "case generateAt secret t of
     Inl err \<Rightarrow> True
   | Inr code \<Rightarrow> length code = 6 \<and> set code \<subseteq> digit_char ` {0..<10}"
  using totp_code_digits by (fastforce simp: generateAt_def Let_def split: sum.split)

end
