(* ===== verification/ApiCore.thy ===== *)
theory ApiCore
  imports Domain Crypto
begin

text \<open>
  The request executor of \<open>pkg/apicore\<close>: requests and responses (\<open>types.go\<close>), values carried
  by contexts (\<open>context.go\<close>), header lookup (\<open>headers.go\<close>), the middleware chain with the
  proxy and the logging middleware (\<open>tripper_proxy.go\<close>, \<open>tripper_logging.go\<close>,
  \<open>logging.go\<close>), and the notification client (\<open>client.go\<close>).

  A round tripper takes the context, the request pointer (\<open>None\<close> is nil) and the world, and
  gives back the response, the error, the request as it was left behind, and the world: the
  middleware writes into the request its caller holds. Any \<open>context.Context\<close> is a
  \<open>logctx\<close>, a context that is no \<open>*log.Context\<close> being one with an empty log id, which the
  program treats the same way.
\<close>

section \<open>Requests, responses, the environment\<close>

record request =
  rq_Server :: string
  rq_URL :: string
  rq_Method :: string
  rq_Headers :: strmap
  rq_Body :: string
  rq_BodyBytes :: string
  rq_Timeout :: duration
  rq_Proxy :: string
  rq_DisableRedirect :: bool
  rq_UserAgent :: string
  rq_CookieScope :: string

definition zero_request :: request where
  "zero_request = \<lparr>rq_Server = '''', rq_URL = '''', rq_Method = '''', rq_Headers = [], rq_Body = '''',
     rq_BodyBytes = '''', rq_Timeout = 0, rq_Proxy = '''', rq_DisableRedirect = False, rq_UserAgent = '''',
     rq_CookieScope = ''''\<rparr>"

record response =
  rp_Status :: int
  rp_Body :: string
  rp_Headers :: strmap

type_synonym 'w round_trip =
  "logctx \<Rightarrow> request option \<Rightarrow> 'w \<Rightarrow> (response option \<times> goerror option) \<times> request option \<times> 'w"

text \<open>
  What the program asks of its surroundings: the state of a context, the clock (in
  nanoseconds), random numbers, and the library behind the TLS client. Every question may
  change the outside state \<open>'x\<close>. Three large functions of Go's library are fields as well:
  \<open>strconv.ParseFloat\<close>, \<open>url.Parse\<close> followed by \<open>String\<close>, and the texts of the errors of
  \<open>encoding/json\<close>, by the place that reads.
\<close>

datatype client_profile = Firefox_148 | Safari_16_0 | Chrome_146 | DefaultClientProfile

record client_config =
  cc_profileName :: string
  cc_profile :: client_profile
  cc_proxy :: string
  cc_timeout :: duration
  cc_disableRedirect :: bool
  cc_jar :: "nat option"

record http_request =
  hq_ctx :: logctx
  hq_Method :: string
  hq_URL :: string
  hq_Header :: strmap
  hq_Body :: string

text \<open>A response body is a stream: the bytes it gives, and the error it ends with, if any.\<close>

record http_response =
  hp_StatusCode :: int
  hp_Header :: "(string \<times> string list) list"
  hp_Body :: "string \<times> goerror option"

record ('c, 'x) env =
  ev_ctx_err :: "gocontext \<Rightarrow> 'x \<Rightarrow> goerror option \<times> 'x"
  ev_now :: "'x \<Rightarrow> int \<times> 'x"
  ev_draw :: "'x random_int"
  ev_intn :: "nat \<Rightarrow> 'x \<Rightarrow> nat \<times> 'x"
  ev_boundary :: "'x \<Rightarrow> string \<times> 'x"
  ev_parse_float :: "string \<Rightarrow> float64 option"
  ev_json_error :: "string \<Rightarrow> string"
  ev_parse_url :: "string \<Rightarrow> goerror + string"
  ev_newClient :: "client_config \<Rightarrow> 'x \<Rightarrow> (goerror + 'c) \<times> 'x"
  ev_NewRequest :: "string \<Rightarrow> string \<Rightarrow> goerror option"
  ev_Do :: "'c \<Rightarrow> http_request \<Rightarrow> 'x \<Rightarrow> (goerror + http_response) \<times> 'x"
  ev_CloseIdle :: "'c \<Rightarrow> 'x \<Rightarrow> 'x"

text \<open>One HTTP log entry, as \<open>Logging\<close> assembles it.\<close>

record log_event =
  le_Server :: string
  le_Method :: string
  le_URL :: string
  le_Status :: int
  le_Headers :: strmap
  le_ResponseHeaders :: strmap
  le_Input :: string
  le_Output :: string
  le_Cost :: duration
  le_Err :: "goerror option"

record client_key =
  ck_profile :: string
  ck_proxy :: string
  ck_timeoutMillis :: int
  ck_disableRedirect :: bool
  ck_cookieScope :: string

text \<open>
  The TLS client's fields. A cookie jar is a fresh object; \<open>tc_next_jar\<close> counts the jars made,
  so that two jars are equal exactly when they are the same object.
\<close>

record 'c tls_client =
  tc_clients :: "(client_key \<times> 'c) list"
  tc_jars :: "(string \<times> nat) list"
  tc_next_jar :: nat
  tc_closed :: bool
  tc_inflight :: nat

record ('c, 'x) world =
  w_ext :: 'x
  w_tls :: "'c tls_client"
  w_httplog :: "(string \<times> log_event) list"
  w_notifylog :: "string list"

definition now :: "('c, 'x) env \<Rightarrow> ('c, 'x) world \<Rightarrow> int \<times> ('c, 'x) world" where
  "now E w = (case ev_now E (w_ext w) of (t, x) \<Rightarrow> (t, w\<lparr>w_ext := x\<rparr>))"

definition ctx_Err :: "('c, 'x) env \<Rightarrow> logctx \<Rightarrow> ('c, 'x) world \<Rightarrow> goerror option \<times> ('c, 'x) world" where
  "ctx_Err E c w = (case ev_ctx_err E (lc_ctx c) (w_ext w) of (e, x) \<Rightarrow> (e, w\<lparr>w_ext := x\<rparr>))"

definition draw :: "('c, 'x) env \<Rightarrow> ('c, 'x) world random_int" where
  "draw E n w = (case ev_draw E n (w_ext w) of (r, x) \<Rightarrow> (r, w\<lparr>w_ext := x\<rparr>))"

definition Intn :: "('c, 'x) env \<Rightarrow> nat \<Rightarrow> ('c, 'x) world \<Rightarrow> nat \<times> ('c, 'x) world" where
  "Intn E n w = (case ev_intn E n (w_ext w) of (k, x) \<Rightarrow> (k, w\<lparr>w_ext := x\<rparr>))"

section \<open>Values carried by a context\<close>

definition proxyKey :: string where
  "proxyKey = ''apicore.proxy''"

definition serverKey :: string where
  "serverKey = ''apicore.server''"

definition headersKey :: string where
  "headersKey = ''apicore.headers''"

text \<open>
  \<open>context.WithValue\<close> of the standard library: what it gives is no \<open>*log.Context\<close>, so the log id
  is gone until \<open>log.WrapContext\<close> puts it back.
\<close>

definition context_WithValue :: "string \<Rightarrow> ctx_val \<Rightarrow> logctx \<Rightarrow> logctx" where
  "context_WithValue key v c = \<lparr>lc_ctx = ValueCtx key v (lc_ctx c), lc_logid = []\<rparr>"

definition WithProxy :: "logctx \<Rightarrow> string \<Rightarrow> logctx" where
  "WithProxy c proxy = (if proxy = '''' then c else context_WithValue proxyKey (StrVal proxy) c)"

definition WithServer :: "logctx \<Rightarrow> string \<Rightarrow> logctx" where
  "WithServer c server = (if server = '''' then c else context_WithValue serverKey (StrVal server) c)"

definition WithHeaders :: "logctx \<Rightarrow> strmap \<Rightarrow> logctx" where
  "WithHeaders c headers = (if headers = [] then c else context_WithValue headersKey (MapVal headers) c)"

definition string_value :: "logctx \<Rightarrow> string \<Rightarrow> string" where
  "string_value c key = (case ctx_value (lc_ctx c) key of Some (StrVal v) \<Rightarrow> v | _ \<Rightarrow> '''')"

definition ProxyFromContext :: "logctx \<Rightarrow> string" where
  "ProxyFromContext c = string_value c proxyKey"

definition ServerFromContext :: "logctx \<Rightarrow> string" where
  "ServerFromContext c = string_value c serverKey"

definition HeadersFromContext :: "logctx \<Rightarrow> strmap" where
  "HeadersFromContext c = (case ctx_value (lc_ctx c) headersKey of Some (MapVal m) \<Rightarrow> m | _ \<Rightarrow> [])"

section \<open>Header lookup\<close>

fun HeaderValue :: "strmap \<Rightarrow> string \<Rightarrow> string" where
  "HeaderValue [] key = ''''"
| "HeaderValue ((k, v) # headers) key = (if equal_fold k key then v else HeaderValue headers key)"

fun FirstHeaderValue :: "strmap \<Rightarrow> string list \<Rightarrow> string" where
  "FirstHeaderValue headers [] = ''''"
| "FirstHeaderValue headers (key # keys) =
     (if HeaderValue headers key \<noteq> '''' then HeaderValue headers key else FirstHeaderValue headers keys)"

section \<open>The chain and its middleware\<close>

definition not_supported :: "'w round_trip" where
  "not_supported ctx req w = ((None, Some (Sentinel HttpErrNotSupported)), req, w)"

definition Chain :: "'w round_trip option \<Rightarrow> ('w round_trip \<Rightarrow> 'w round_trip) list \<Rightarrow> 'w round_trip" where
  "Chain base trippers =
     foldr (\<lambda>tripper rt. tripper rt) trippers (case base of None \<Rightarrow> not_supported | Some b \<Rightarrow> b)"

definition Proxy :: "'w round_trip \<Rightarrow> 'w round_trip" where
  "Proxy nxt ctx req w =
     nxt ctx (map_option (\<lambda>r. if rq_Proxy r = '''' then r\<lparr>rq_Proxy := ProxyFromContext ctx\<rparr> else r) req) w"

definition RequestBody :: "request option \<Rightarrow> string" where
  "RequestBody req = (case req of None \<Rightarrow> '''' | Some r \<Rightarrow> if rq_BodyBytes r \<noteq> '''' then rq_BodyBytes r else rq_Body r)"

text \<open>
  The entry is built from the request as the inner middleware left it; the log id of the
  context goes with it.
\<close>

definition request_event :: "logctx \<Rightarrow> request option \<Rightarrow> log_event \<Rightarrow> log_event" where
  "request_event ctx req event =
     (let event = (case req of None \<Rightarrow> event
        | Some r \<Rightarrow> event\<lparr>le_Server := (if rq_Server r = '''' then ServerFromContext ctx else rq_Server r),
                    le_Method := rq_Method r, le_URL := rq_URL r, le_Headers := rq_Headers r,
                    le_Input := RequestBody req\<rparr>)
      in if le_Server event = '''' then event\<lparr>le_Server := ''unknown''\<rparr> else event)"

definition response_event :: "response option \<Rightarrow> log_event \<Rightarrow> log_event" where
  "response_event resp event =
     (case resp of None \<Rightarrow> event
      | Some r \<Rightarrow> event\<lparr>le_Status := rp_Status r, le_ResponseHeaders := rp_Headers r, le_Output := rp_Body r\<rparr>)"

definition Logging :: "('c, 'x) env \<Rightarrow> ('c, 'x) world round_trip \<Rightarrow> ('c, 'x) world round_trip" where
  "Logging E nxt ctx req w =
     (case now E w of (start, w) \<Rightarrow>
      case nxt ctx req w of ((resp, err), req, w) \<Rightarrow>
      case now E w of (stop, w) \<Rightarrow>
        let event = response_event resp (request_event ctx req
              \<lparr>le_Server = '''', le_Method = '''', le_URL = '''', le_Status = 0, le_Headers = [],
               le_ResponseHeaders = [], le_Input = '''', le_Output = '''', le_Cost = stop - start, le_Err = err\<rparr>)
        in ((resp, err), req, w\<lparr>w_httplog := w_httplog w @ [(lc_logid ctx, event)]\<rparr>))"

section \<open>The client of the notification channels\<close>

definition client_Do :: "'w round_trip option \<Rightarrow> logctx \<Rightarrow> request \<Rightarrow> 'w \<Rightarrow> (goerror + response) \<times> 'w" where
  "client_Do rt ctx req w =
     (case rt of
        None \<Rightarrow> (Inl (ErrText ''apicore client is nil''), w)
      | Some rt \<Rightarrow>
          (case rt ctx (Some req) w of
             ((resp, Some err), _, w) \<Rightarrow> (Inl err, w)
           | ((None, None), _, w) \<Rightarrow> (Inl (ErrText ''apicore response is nil''), w)
           | ((Some resp, None), _, w) \<Rightarrow> (Inr resp, w)))"

definition client_do ::
  "'w round_trip option \<Rightarrow> logctx \<Rightarrow> request \<Rightarrow> 'w \<Rightarrow> (int \<times> string \<times> goerror option) \<times> 'w" where
  "client_do rt ctx req w =
     (case client_Do rt ctx req w of
        (Inl err, w) \<Rightarrow> ((0, '''', Some err), w)
      | (Inr resp, w) \<Rightarrow> ((rp_Status resp, rp_Body resp, None), w))"

fun headerToMap :: "(string \<times> string list) list \<Rightarrow> strmap" where
  "headerToMap [] = []"
| "headerToMap ((key, values) # header) =
     (if values = [] then headerToMap header else (key, join_with '','' values) # headerToMap header)"

definition GetJSON ::
  "'w round_trip option \<Rightarrow> logctx \<Rightarrow> string \<Rightarrow> string \<Rightarrow> (string \<times> string list) list \<Rightarrow> 'w
     \<Rightarrow> (int \<times> string \<times> goerror option) \<times> 'w" where
  "GetJSON rt ctx server rawURL header w =
     client_do rt ctx (zero_request\<lparr>rq_Server := server, rq_URL := rawURL, rq_Method := ''GET'',
       rq_Headers := mset_key (headerToMap header) ''Accept'' ''application/json''\<rparr>) w"

definition PostJSON ::
  "'w round_trip option \<Rightarrow> logctx \<Rightarrow> string \<Rightarrow> string \<Rightarrow> string \<Rightarrow> (string \<times> string list) list \<Rightarrow> 'w
     \<Rightarrow> (int \<times> string \<times> goerror option) \<times> 'w" where
  "PostJSON rt ctx server rawURL body header w =
     client_do rt ctx (zero_request\<lparr>rq_Server := server, rq_URL := rawURL, rq_Method := ''POST'',
       rq_Headers := mset_key (headerToMap header) ''Content-Type'' ''application/json'',
       rq_Body := body, rq_BodyBytes := body\<rparr>) w"

section \<open>Lemmas\<close>

lemma Proxy_overrides:
  "rq_Proxy r \<noteq> '''' \<Longrightarrow> Proxy nxt ctx (Some r) w = nxt ctx (Some r) w"
  by (simp add: Proxy_def)

lemma ProxyFromContext_WithProxy [simp]:
  "proxy \<noteq> '''' \<Longrightarrow> ProxyFromContext (WithProxy c proxy) = proxy"
  by (simp add: ProxyFromContext_def WithProxy_def string_value_def context_WithValue_def)

lemma ServerFromContext_WithProxy [simp]: "ServerFromContext (WithProxy c proxy) = ServerFromContext c"
  by (simp add: ServerFromContext_def WithProxy_def string_value_def context_WithValue_def proxyKey_def serverKey_def)

lemma string_value_derived [simp]:
  "string_value (ctx_WithCancel c) k = string_value c k"
  "string_value (ctx_WithTimeout t c) k = string_value c k"
  by (simp_all add: string_value_def ctx_WithCancel_def ctx_WithTimeout_def)

text \<open>The logging middleware changes neither the outcome nor the request, and writes one entry.\<close>

lemma Logging_transparent:
  assumes "Logging E nxt ctx req w = (r, req', w')"
  obtains w1 w2 event where "nxt ctx req w1 = (r, req', w2)"
    "w_tls w1 = w_tls w" "w_httplog w1 = w_httplog w"
    "w_tls w' = w_tls w2" "w_httplog w' = w_httplog w2 @ [(lc_logid ctx, event)]"
  using assms
  by (auto simp: Logging_def now_def Let_def split: prod.splits)

lemma chain_order [simp]:
  "Chain b [] = (case b of None \<Rightarrow> not_supported | Some b \<Rightarrow> b)"
  "Chain b (t # ts) = t (Chain b ts)"
  by (simp_all add: Chain_def)

lemma now_frame [simp]: "w_tls (snd (now E w)) = w_tls w" "w_httplog (snd (now E w)) = w_httplog w"
  by (simp_all add: now_def split: prod.splits)

end
