(* ===== verification/Json.thy ===== *)
theory Json
  imports Prelude
begin

text \<open>
  JSON as Go's \<open>encoding/json\<close> reads it: a lexer and a stack machine for the documents, and the
  rules by which the decoder fills the fields of a struct. Both are structural recursions
  over their input, so no fuel is needed; the machine has the decoder's nesting limit. A
  number keeps its text, as \<open>json.Number\<close> and \<open>json.RawMessage\<close> do, and an object keeps its
  members in document order with duplicates, since a later member overwrites an earlier one.
\<close>

datatype json =
    JNull
  | JBool bool
  | JNum string
  | JStr string
  | JArr "json list"
  | JObj "(string \<times> json) list"

section \<open>Strings\<close>

definition hex_digit :: "char \<Rightarrow> nat option" where
  "hex_digit c = (let k = of_char c in
     if 48 \<le> k \<and> k \<le> (57::nat) then Some (k - 48)
     else if 97 \<le> k \<and> k \<le> 102 then Some (k - 87)
     else if 65 \<le> k \<and> k \<le> 70 then Some (k - 55) else None)"

definition hex4 :: "char \<Rightarrow> char \<Rightarrow> char \<Rightarrow> char \<Rightarrow> nat option" where
  "hex4 a b c d = (case (hex_digit a, hex_digit b, hex_digit c, hex_digit d) of
      (Some w, Some x, Some y, Some z) \<Rightarrow> Some (w * 4096 + x * 256 + y * 16 + z)
    | _ \<Rightarrow> None)"

text \<open>UTF-8 of any code point; surrogates become the replacement character.\<close>

definition encode_rune :: "nat \<Rightarrow> string" where
  "encode_rune c =
     (if 0xD800 \<le> c \<and> c < 0xE000 then utf8_char 0xFFFD
      else if c < 0x10000 then utf8_char c
      else [char_of (0xF0 + c div 0x40000), char_of (0x80 + c div 0x1000 mod 0x40),
            char_of (0x80 + c div 0x40 mod 0x40), char_of (0x80 + c mod 0x40)])"

definition simple_escape :: "char \<Rightarrow> char option" where
  "simple_escape c =
     (if c = CHR 0x22 \<or> c = CHR 0x5C \<or> c = CHR ''/'' then Some c
      else if c = CHR ''b'' then Some (CHR 0x08)
      else if c = CHR ''f'' then Some (CHR 0x0C)
      else if c = CHR ''n'' then Some (CHR 0x0A)
      else if c = CHR ''r'' then Some (CHR 0x0D)
      else if c = CHR ''t'' then Some (CHR 0x09) else None)"

definition between :: "nat \<Rightarrow> char \<Rightarrow> nat \<Rightarrow> bool" where
  "between lo c hi \<longleftrightarrow> lo \<le> of_char c \<and> of_char c \<le> hi"

text \<open>The length of the well-formed UTF-8 sequence at the front, zero if there is none.\<close>

fun rune_len :: "string \<Rightarrow> nat" where
  "rune_len (a # b # c # d # s) =
     (if between 0 a 0x7F then 1
      else if between 0xC2 a 0xDF \<and> between 0x80 b 0xBF then 2
      else if between 0xE0 a 0xEF \<and> between (if a = CHR 0xE0 then 0xA0 else 0x80) b (if a = CHR 0xED then 0x9F else 0xBF)
              \<and> between 0x80 c 0xBF then 3
      else if between 0xF0 a 0xF4 \<and> between (if a = CHR 0xF0 then 0x90 else 0x80) b (if a = CHR 0xF4 then 0x8F else 0xBF)
              \<and> between 0x80 c 0xBF \<and> between 0x80 d 0xBF then 4
      else 0)"
| "rune_len [a, b, c] =
     (if between 0 a 0x7F then 1
      else if between 0xC2 a 0xDF \<and> between 0x80 b 0xBF then 2
      else if between 0xE0 a 0xEF \<and> between (if a = CHR 0xE0 then 0xA0 else 0x80) b (if a = CHR 0xED then 0x9F else 0xBF)
              \<and> between 0x80 c 0xBF then 3
      else 0)"
| "rune_len [a, b] =
     (if between 0 a 0x7F then 1 else if between 0xC2 a 0xDF \<and> between 0x80 b 0xBF then 2 else 0)"
| "rune_len [a] = (if between 0 a 0x7F then 1 else 0)"
| "rune_len [] = 0"

text \<open>
  The contents of a string literal: escapes resolved, a surrogate pair joined, a lone surrogate
  or an ill-formed byte replaced. \<open>None\<close> is a syntax error.
\<close>

function unquote :: "string \<Rightarrow> string option" where
  "unquote s =
     (case s of
        [] \<Rightarrow> Some []
      | c # t \<Rightarrow>
        if of_char c < (32::nat) then None
        else if c = CHR 0x5C then
          (case t of
             u # w # x # y # z # t' \<Rightarrow>
               if u = CHR ''u'' then
                 (case hex4 w x y z of
                    None \<Rightarrow> None
                  | Some hi \<Rightarrow>
                    (case t' of
                       b1 # u1 # p # q # r # v # t'' \<Rightarrow>
                         (case (if b1 = CHR 0x5C \<and> u1 = CHR ''u'' then hex4 p q r v else None) of
                            Some lo \<Rightarrow>
                              if 0xD800 \<le> hi \<and> hi < 0xDC00 \<and> 0xDC00 \<le> lo \<and> lo < 0xE000 then
                                map_option ((@) (encode_rune (0x10000 + (hi - 0xD800) * 0x400 + (lo - 0xDC00)))) (unquote t'')
                              else map_option ((@) (encode_rune hi)) (unquote t')
                          | None \<Rightarrow> map_option ((@) (encode_rune hi)) (unquote t'))
                     | _ \<Rightarrow> map_option ((@) (encode_rune hi)) (unquote t')))
               else (case simple_escape u of None \<Rightarrow> None | Some e \<Rightarrow> map_option (Cons e) (unquote (w # x # y # z # t')))
           | u # t' \<Rightarrow> (case simple_escape u of None \<Rightarrow> None | Some e \<Rightarrow> map_option (Cons e) (unquote t'))
           | [] \<Rightarrow> None)
        else if rune_len s = 0 then map_option ((@) (utf8_char 0xFFFD)) (unquote t)
        else map_option ((@) (take (rune_len s) s)) (unquote (drop (rune_len s) s)))"
  by pat_completeness auto
termination
  by (relation "measure length") auto

declare unquote.simps [simp del]

section \<open>Lexer\<close>

datatype token =
    TLBrace | TRBrace | TLBrack | TRBrack | TColon | TComma
  | TNull | TTrue | TFalse
  | TNum string
  | TStr string

definition is_ws :: "char \<Rightarrow> bool" where
  "is_ws c \<longleftrightarrow> c = CHR 0x20 \<or> c = CHR 0x09 \<or> c = CHR 0x0A \<or> c = CHR 0x0D"

definition is_digit :: "char \<Rightarrow> bool" where
  "is_digit c \<longleftrightarrow> char_digit c \<noteq> None"

definition num_char :: "char \<Rightarrow> bool" where
  "num_char c \<longleftrightarrow> is_digit c \<or> c \<in> {CHR ''-'', CHR ''+'', CHR ''.'', CHR ''e'', CHR ''E''}"

definition all_digits :: "string \<Rightarrow> bool" where
  "all_digits s \<longleftrightarrow> s \<noteq> [] \<and> list_all is_digit s"

definition valid_exp :: "string \<Rightarrow> bool" where
  "valid_exp s \<longleftrightarrow>
     (case s of [] \<Rightarrow> True
      | c # t \<Rightarrow> (c = CHR ''e'' \<or> c = CHR ''E'') \<and>
          all_digits (case t of [] \<Rightarrow> [] | d # u \<Rightarrow> if d = CHR ''+'' \<or> d = CHR ''-'' then u else t))"

definition valid_frac_exp :: "string \<Rightarrow> bool" where
  "valid_frac_exp s \<longleftrightarrow>
     (case s of [] \<Rightarrow> True
      | c # t \<Rightarrow> if c = CHR ''.'' then all_digits (takeWhile is_digit t) \<and> valid_exp (dropWhile is_digit t)
                 else valid_exp s)"

definition valid_number :: "string \<Rightarrow> bool" where
  "valid_number s =
     (let t = (case s of [] \<Rightarrow> [] | c # t \<Rightarrow> if c = CHR ''-'' then t else s);
          i = takeWhile is_digit t
      in (i = ''0'' \<or> (i \<noteq> [] \<and> hd i \<noteq> CHR ''0'')) \<and> valid_frac_exp (dropWhile is_digit t))"

text \<open>One function for each state of the lexer; the accumulators hold the token read so far, reversed.\<close>

fun lex :: "string \<Rightarrow> token list option"
and lex_str :: "string \<Rightarrow> string \<Rightarrow> token list option"
and lex_num :: "string \<Rightarrow> string \<Rightarrow> token list option" where
  "lex [] = Some []"
| "lex (c # s) =
     (if is_ws c then lex s
      else if c = CHR ''{'' then map_option (Cons TLBrace) (lex s)
      else if c = CHR ''}'' then map_option (Cons TRBrace) (lex s)
      else if c = CHR ''['' then map_option (Cons TLBrack) (lex s)
      else if c = CHR '']'' then map_option (Cons TRBrack) (lex s)
      else if c = CHR '':'' then map_option (Cons TColon) (lex s)
      else if c = CHR '','' then map_option (Cons TComma) (lex s)
      else if c = CHR 0x22 then lex_str [] s
      else if c = CHR ''-'' \<or> is_digit c then lex_num [c] s
      else if c = CHR ''n'' then
        (case s of c1 # c2 # c3 # s' \<Rightarrow> if [c1, c2, c3] = ''ull'' then map_option (Cons TNull) (lex s') else None | _ \<Rightarrow> None)
      else if c = CHR ''t'' then
        (case s of c1 # c2 # c3 # s' \<Rightarrow> if [c1, c2, c3] = ''rue'' then map_option (Cons TTrue) (lex s') else None | _ \<Rightarrow> None)
      else if c = CHR ''f'' then
        (case s of c1 # c2 # c3 # c4 # s' \<Rightarrow> if [c1, c2, c3, c4] = ''alse'' then map_option (Cons TFalse) (lex s') else None | _ \<Rightarrow> None)
      else None)"
| "lex_str acc [] = None"
| "lex_str acc (c # s) =
     (if c = CHR 0x22 then
        (case unquote (rev acc) of None \<Rightarrow> None | Some t \<Rightarrow> map_option (Cons (TStr t)) (lex s))
      else if c = CHR 0x5C then (case s of [] \<Rightarrow> None | d # s' \<Rightarrow> lex_str (d # c # acc) s')
      else lex_str (c # acc) s)"
| "lex_num acc [] = (if valid_number (rev acc) then Some [TNum (rev acc)] else None)"
| "lex_num acc (c # s) =
     (if num_char c then lex_num (c # acc) s
      else if valid_number (rev acc) then map_option (Cons (TNum (rev acc))) (lex (c # s)) else None)"

section \<open>Parser\<close>

datatype frame =
    FArr "json list"
  | FObj "(string \<times> json) list" string

datatype pstate =
    PValue
  | PValueOrEnd
  | PKeyOrEnd "(string \<times> json) list"
  | PKey "(string \<times> json) list"
  | PColon "(string \<times> json) list" string
  | PAfter
  | PAfterObj "(string \<times> json) list"
  | PDone json

definition max_depth :: nat where
  "max_depth = 10000"

text \<open>A finished value goes to the container that waits for it.\<close>

fun give :: "json \<Rightarrow> frame list \<Rightarrow> pstate \<times> frame list" where
  "give v [] = (PDone v, [])"
| "give v (FArr vs # fs) = (PAfter, FArr (v # vs) # fs)"
| "give v (FObj ms k # fs) = (PAfterObj ((k, v) # ms), fs)"

fun scalar :: "token \<Rightarrow> json option" where
  "scalar TNull = Some JNull"
| "scalar TTrue = Some (JBool True)"
| "scalar TFalse = Some (JBool False)"
| "scalar (TNum t) = Some (JNum t)"
| "scalar (TStr t) = Some (JStr t)"
| "scalar _ = None"

definition start_value :: "token \<Rightarrow> frame list \<Rightarrow> (pstate \<times> frame list) option" where
  "start_value t fs =
     (case scalar t of
        Some v \<Rightarrow> Some (give v fs)
      | None \<Rightarrow>
        if t = TLBrack then (if length fs < max_depth then Some (PValueOrEnd, FArr [] # fs) else None)
        else if t = TLBrace then (if length fs < max_depth then Some (PKeyOrEnd [], fs) else None)
        else None)"

fun pstep :: "token \<Rightarrow> pstate \<times> frame list \<Rightarrow> (pstate \<times> frame list) option" where
  "pstep t (PValue, fs) = start_value t fs"
| "pstep t (PValueOrEnd, fs) =
     (if t = TRBrack then (case fs of FArr vs # fs' \<Rightarrow> Some (give (JArr (rev vs)) fs') | _ \<Rightarrow> None)
      else start_value t fs)"
| "pstep t (PKeyOrEnd ms, fs) =
     (if t = TRBrace then Some (give (JObj (rev ms)) fs)
      else (case t of TStr k \<Rightarrow> Some (PColon ms k, fs) | _ \<Rightarrow> None))"
| "pstep t (PKey ms, fs) = (case t of TStr k \<Rightarrow> Some (PColon ms k, fs) | _ \<Rightarrow> None)"
| "pstep t (PColon ms k, fs) = (if t = TColon then Some (PValue, FObj ms k # fs) else None)"
| "pstep t (PAfter, fs) =
     (if t = TComma then Some (PValue, fs)
      else if t = TRBrack then (case fs of FArr vs # fs' \<Rightarrow> Some (give (JArr (rev vs)) fs') | _ \<Rightarrow> None)
      else None)"
| "pstep t (PAfterObj ms, fs) =
     (if t = TComma then Some (PKey ms, fs)
      else if t = TRBrace then Some (give (JObj (rev ms)) fs) else None)"
| "pstep t (PDone v, fs) = None"

fun prun :: "token list \<Rightarrow> pstate \<times> frame list \<Rightarrow> (pstate \<times> frame list) option" where
  "prun [] st = Some st"
| "prun (t # ts) st = (case pstep t st of None \<Rightarrow> None | Some st' \<Rightarrow> prun ts st')"

definition json_parse :: "string \<Rightarrow> json option" where
  "json_parse s =
     (case lex s of
        None \<Rightarrow> None
      | Some ts \<Rightarrow> (case prun ts (PValue, []) of Some (PDone v, []) \<Rightarrow> Some v | _ \<Rightarrow> None))"

section \<open>Filling struct fields\<close>

text \<open>
  \<open>json.Unmarshal\<close> into a struct: every member whose name matches a field, ignoring case, is
  stored in document order; null leaves a field as it is; a value of the wrong type makes the
  whole call fail. A destination starts from a state, and \<open>step\<close> stores one member or fails.
\<close>

fun decode_members :: "(string \<Rightarrow> json \<Rightarrow> 'r \<Rightarrow> 'r option) \<Rightarrow> (string \<times> json) list \<Rightarrow> 'r \<Rightarrow> 'r option" where
  "decode_members step [] r = Some r"
| "decode_members step ((k, v) # ms) r =
     (case step k v r of None \<Rightarrow> None | Some r' \<Rightarrow> decode_members step ms r')"

fun decode_struct :: "(string \<Rightarrow> json \<Rightarrow> 'r \<Rightarrow> 'r option) \<Rightarrow> json \<Rightarrow> 'r \<Rightarrow> 'r option" where
  "decode_struct step JNull r = Some r"
| "decode_struct step (JObj ms) r = decode_members step ms r"
| "decode_struct step _ r = None"

fun decode_list :: "(json \<Rightarrow> 'r option) \<Rightarrow> json list \<Rightarrow> 'r list option" where
  "decode_list f [] = Some []"
| "decode_list f (v # vs) =
     (case f v of None \<Rightarrow> None | Some r \<Rightarrow> map_option (Cons r) (decode_list f vs))"

text \<open>A \<open>string\<close> field, and an \<open>int64\<close> field with the option \<open>,string\<close>.\<close>

fun decode_string :: "json \<Rightarrow> string \<Rightarrow> string option" where
  "decode_string JNull old = Some old"
| "decode_string (JStr s) old = Some s"
| "decode_string _ old = None"

fun decode_quoted_int :: "json \<Rightarrow> int \<Rightarrow> int option" where
  "decode_quoted_int JNull old = Some old"
| "decode_quoted_int (JStr s) old =
     (if s = ''null'' then Some old
      else case s of
             [] \<Rightarrow> None
           | c # _ \<Rightarrow> if c = CHR ''-'' \<or> is_digit c then parse_int s else None)"
| "decode_quoted_int _ old = None"

text \<open>A \<open>float64\<close> field with the option \<open>,string\<close>; \<open>pf\<close> is \<open>strconv.ParseFloat\<close>.\<close>

fun decode_quoted_float :: "(string \<Rightarrow> 'f option) \<Rightarrow> json \<Rightarrow> 'f \<Rightarrow> 'f option" where
  "decode_quoted_float pf JNull old = Some old"
| "decode_quoted_float pf (JStr s) old =
     (if s = ''null'' then Some old
      else case s of
             [] \<Rightarrow> None
           | c # _ \<Rightarrow> if c = CHR ''-'' \<or> is_digit c then pf s else None)"
| "decode_quoted_float pf _ old = None"

end
