(* ===== verification/GoText.thy ===== *)
theory GoText
  imports Json
begin

text \<open>
  Text formats of the program: \<open>net/url\<close> (\<open>QueryEscape\<close>, \<open>QueryUnescape\<close>, \<open>ParseQuery\<close>,
  \<open>Values.Encode\<close>, \<open>URL.String\<close>), \<open>mime/multipart\<close> and the encoder of \<open>encoding/json\<close>. The
  multipart and query bodies of \<open>pkg/apikit/apimtbrowse/body.go\<close> are built on them.
\<close>

section \<open>net/url\<close>

definition hex_upper :: "nat \<Rightarrow> char" where
  "hex_upper d = (if d < 10 then digit_char d else char_of (55 + d))"

definition percent :: "char \<Rightarrow> string" where
  "percent c = (let k = of_char c in [CHR ''%'', hex_upper (k div 16), hex_upper (k mod 16)])"

definition alnum :: "char \<Rightarrow> bool" where
  "alnum c = (let k = of_char c in
     (48 \<le> k \<and> k \<le> 57) \<or> (65 \<le> k \<and> k \<le> 90) \<or> (97 \<le> k \<and> k \<le> (122::nat)))"

definition unreserved :: "char \<Rightarrow> bool" where
  "unreserved c \<longleftrightarrow> alnum c \<or> c \<in> set ''-_.~''"

definition query_char :: "char \<Rightarrow> string" where
  "query_char c = (if unreserved c then [c] else if c = CHR '' '' then ''+'' else percent c)"

definition QueryEscape :: "string \<Rightarrow> string" where
  "QueryEscape s = concat (map query_char s)"

definition host_char :: "char \<Rightarrow> string" where
  "host_char c = (if unreserved c \<or> c \<in> set ''!$&()*+,;=:[]<>'' \<or> c = CHR 0x22 \<or> c = CHR 0x27 then [c] else percent c)"

text \<open>
  \<open>URL.String\<close> for scheme \<open>https\<close> and a path that starts with a slash; the program's paths are
  made of letters and slashes, which are never escaped.
\<close>

definition https_url :: "string \<Rightarrow> string \<Rightarrow> string \<Rightarrow> string" where
  "https_url host path rawQuery =
     ''https://'' @ concat (map host_char host) @ path @ (if rawQuery = '''' then '''' else ''?'' @ rawQuery)"

fun str_le :: "string \<Rightarrow> string \<Rightarrow> bool" where
  "str_le [] t = True"
| "str_le (a # s) [] = False"
| "str_le (a # s) (b # t) = ((of_char a :: nat) < of_char b \<or> (a = b \<and> str_le s t))"

fun insert_key :: "string \<times> 'a \<Rightarrow> (string \<times> 'a) list \<Rightarrow> (string \<times> 'a) list" where
  "insert_key p [] = [p]"
| "insert_key p (q # qs) = (if str_le (fst p) (fst q) then p # q # qs else q # insert_key p qs)"

definition sort_keys :: "(string \<times> 'a) list \<Rightarrow> (string \<times> 'a) list" where
  "sort_keys m = foldr insert_key m []"

text \<open>\<open>url.Values\<close> with one value for each key.\<close>

definition values_encode :: "strmap \<Rightarrow> string" where
  "values_encode m = join_with ''&'' (map (\<lambda>(k, v). QueryEscape k @ ''='' @ QueryEscape v) (sort_keys m))"

text \<open>\<open>url.Values\<close> with any number of values for each key.\<close>

definition encode_values :: "(string \<times> string list) list \<Rightarrow> string" where
  "encode_values m = join_with ''&'' (concat (map (\<lambda>(k, vs). map (\<lambda>v. QueryEscape k @ ''='' @ QueryEscape v) vs) (sort_keys m)))"

fun QueryUnescape :: "string \<Rightarrow> string option" where
  "QueryUnescape [] = Some []"
| "QueryUnescape (c # s) =
     (if c = CHR ''%'' then
        (case s of
           a # b # t \<Rightarrow>
             (case (hex_digit a, hex_digit b) of
                (Some x, Some y) \<Rightarrow> map_option (Cons (char_of (16 * x + y))) (QueryUnescape t)
              | _ \<Rightarrow> None)
         | _ \<Rightarrow> None)
      else map_option (Cons (if c = CHR ''+'' then CHR '' '' else c)) (QueryUnescape s))"

fun split_char :: "char \<Rightarrow> string \<Rightarrow> string list" where
  "split_char c [] = [[]]"
| "split_char c (x # s) =
     (if x = c then [] # split_char c s
      else case split_char c s of [] \<Rightarrow> [[x]] | p # ps \<Rightarrow> (x # p) # ps)"

text \<open>
  \<open>ParseQuery\<close> says whether there was an error, and gives the pairs it could read in any case:
  an item with a semicolon or a bad escape is an error and is left out.
\<close>

definition query_item :: "string \<Rightarrow> bool \<times> strmap" where
  "query_item item =
     (if CHR '';'' \<in> set item then (False, [])
      else if item = '''' then (True, [])
      else case (QueryUnescape (takeWhile (\<lambda>c. c \<noteq> CHR ''='') item),
                 QueryUnescape (drop 1 (dropWhile (\<lambda>c. c \<noteq> CHR ''='') item))) of
             (Some k, Some v) \<Rightarrow> (True, [(k, v)])
           | _ \<Rightarrow> (False, []))"

definition ParseQuery :: "string \<Rightarrow> bool \<times> strmap" where
  "ParseQuery query =
     (let items = map query_item (split_char (CHR ''&'') query)
      in (list_all fst items, concat (map snd items)))"

text \<open>The pairs as a map from a key to its values, keys in the order they came, and back.\<close>

fun add_value :: "string \<Rightarrow> string \<Rightarrow> (string \<times> string list) list \<Rightarrow> (string \<times> string list) list" where
  "add_value k v [] = [(k, [v])]"
| "add_value k v ((k', vs) # m) = (if k = k' then (k', vs @ [v]) # m else (k', vs) # add_value k v m)"

definition values_of :: "strmap \<Rightarrow> (string \<times> string list) list" where
  "values_of pairs = foldl (\<lambda>m (k, v). add_value k v m) [] pairs"

definition flat_values :: "(string \<times> string list) list \<Rightarrow> strmap" where
  "flat_values m = concat (map (\<lambda>(k, vs). map (Pair k) vs) m)"

section \<open>Bodies\<close>

definition crlf :: string where
  "crlf = [CHR 0x0D, CHR 0x0A]"

text \<open>\<open>multipart.Writer\<close>'s quoting of a field name.\<close>

definition escape_quotes :: "string \<Rightarrow> string" where
  "escape_quotes s = concat (map (\<lambda>c.
     if c = CHR 0x5C then [CHR 0x5C, CHR 0x5C] else if c = CHR 0x22 then [CHR 0x5C, CHR 0x22] else [c]) s)"

fun multipart_parts :: "string \<Rightarrow> bool \<Rightarrow> strmap \<Rightarrow> string" where
  "multipart_parts boundary first [] = crlf @ ''--'' @ boundary @ ''--'' @ crlf"
| "multipart_parts boundary first ((k, v) # fields) =
     (if first then '''' else crlf) @ ''--'' @ boundary @ crlf
       @ ''Content-Disposition: form-data; name='' @ [CHR 0x22] @ escape_quotes k @ [CHR 0x22] @ crlf @ crlf @ v
       @ multipart_parts boundary False fields"

definition MultipartBody :: "string \<Rightarrow> strmap \<Rightarrow> string \<times> string" where
  "MultipartBody boundary fields =
     (multipart_parts boundary True fields, ''multipart/form-data; boundary='' @ boundary)"

definition QueryBody :: "strmap \<Rightarrow> string" where
  "QueryBody fields = values_encode fields"

section \<open>json.Marshal\<close>

datatype gojson =
    GNull
  | GStr string
  | GInt int
  | GNum string
  | GBool bool
  | GArr "gojson list"
  | GObj "(string \<times> gojson) list"

definition hex_lower :: "nat \<Rightarrow> char" where
  "hex_lower d = (if d < 10 then digit_char d else char_of (87 + d))"

text \<open>
  The string encoder escapes quotes, backslashes and control characters, the three HTML
  characters unless that is switched off, the two line separators of Unicode, and replaces a
  byte that is not part of well-formed UTF-8.
\<close>

definition json_char :: "bool \<Rightarrow> char \<Rightarrow> string" where
  "json_char html c =
     (let k = of_char c :: nat
      in if c = CHR 0x22 \<or> c = CHR 0x5C then [CHR 0x5C, c]
         else if k = 8 then [CHR 0x5C, CHR ''b''] else if k = 12 then [CHR 0x5C, CHR ''f'']
         else if k = 10 then [CHR 0x5C, CHR ''n''] else if k = 13 then [CHR 0x5C, CHR ''r'']
         else if k = 9 then [CHR 0x5C, CHR ''t'']
         else if k < 32 \<or> (html \<and> c \<in> set ''<>&'') then CHR 0x5C # ''u00'' @ [hex_lower (k div 16), hex_lower (k mod 16)]
         else [c])"

function json_runes :: "bool \<Rightarrow> string \<Rightarrow> string" where
  "json_runes html s =
     (case s of
        [] \<Rightarrow> []
      | c # t \<Rightarrow>
        if rune_len s = 0 then CHR 0x5C # ''ufffd'' @ json_runes html t
        else if rune_len s = 1 then json_char html c @ json_runes html t
        else if take 3 s = [CHR 0xE2, CHR 0x80, CHR 0xA8] then CHR 0x5C # ''u2028'' @ json_runes html (drop 3 s)
        else if take 3 s = [CHR 0xE2, CHR 0x80, CHR 0xA9] then CHR 0x5C # ''u2029'' @ json_runes html (drop 3 s)
        else take (rune_len s) s @ json_runes html (drop (rune_len s) s))"
  by pat_completeness auto
termination
  by (relation "measure (\<lambda>(_, s). length s)") auto

declare json_runes.simps [simp del]

definition json_string :: "bool \<Rightarrow> string \<Rightarrow> string" where
  "json_string html s = [CHR 0x22] @ json_runes html s @ [CHR 0x22]"

text \<open>
  The members of \<open>GObj\<close> are written in the given order; a Go map is sorted first. A floating
  point number is a \<open>GNum\<close> with its text. The encoder's \<open>SetEscapeHTML\<close> is the first argument.
\<close>

fun encode_json :: "bool \<Rightarrow> gojson \<Rightarrow> string" where
  "encode_json html GNull = ''null''"
| "encode_json html (GStr s) = json_string html s"
| "encode_json html (GInt i) = int_dec i"
| "encode_json html (GNum t) = t"
| "encode_json html (GBool b) = (if b then ''true'' else ''false'')"
| "encode_json html (GArr vs) = ''['' @ join_with '','' (map (encode_json html) vs) @ '']''"
| "encode_json html (GObj ms) =
     ''{'' @ join_with '','' (map (\<lambda>(k, v). json_string html k @ '':'' @ encode_json html v) ms) @ ''}''"

definition marshal :: "gojson \<Rightarrow> string" where
  "marshal v = encode_json True v"

definition go_map :: "(string \<times> gojson) list \<Rightarrow> gojson" where
  "go_map ms = GObj (sort_keys ms)"

section \<open>Lemmas\<close>

text \<open>An escaped query component holds no separator, so fields cannot run into each other.\<close>

lemma percent_chars: "c \<in> set (percent d) \<Longrightarrow> c = CHR ''%'' \<or> alnum c"
proof -
  have d: "of_char d div 16 < (16::nat)" "of_char d mod 16 < (16::nat)"
    using nat_of_char_less_256 [of d] by (auto simp del: nat_of_char_less_256)
  have "alnum (hex_upper k)" if "k < 16" for k
    using that by (auto simp: hex_upper_def digit_char_def alnum_def Let_def)
  then show "c \<in> set (percent d) \<Longrightarrow> c = CHR ''%'' \<or> alnum c"
    using d by (auto simp: percent_def Let_def)
qed

lemma QueryEscape_chars: "c \<in> set (QueryEscape s) \<Longrightarrow> unreserved c \<or> c = CHR ''%'' \<or> c = CHR ''+''"
  using percent_chars by (auto simp: QueryEscape_def query_char_def unreserved_def split: if_splits)

lemma QueryEscape_no_separator: "CHR ''&'' \<notin> set (QueryEscape s)" "CHR ''='' \<notin> set (QueryEscape s)"
proof -
  have "\<not> unreserved (CHR ''&'')" "\<not> unreserved (CHR ''='')" by code_simp+
  then show "CHR ''&'' \<notin> set (QueryEscape s)" "CHR ''='' \<notin> set (QueryEscape s)"
    using QueryEscape_chars by fastforce+
qed

lemma set_insert_key [simp]: "set (insert_key p qs) = insert p (set qs)"
  by (induction qs) auto

lemma set_sort_keys [simp]: "set (sort_keys m) = set m"
  by (induction m) (auto simp: sort_keys_def)

lemma length_sort_keys [simp]: "length (sort_keys m) = length m"
proof -
  have "length (insert_key p qs) = Suc (length qs)" for p :: "string \<times> 'a" and qs
    by (induction qs) auto
  then show ?thesis by (induction m) (auto simp: sort_keys_def)
qed

text \<open>Reading back what was written: an escaped component, an item, a whole query.\<close>

lemma hex_digit_hex_upper: "k < 16 \<Longrightarrow> hex_digit (hex_upper k) = Some k"
  by (auto simp: hex_digit_def hex_upper_def digit_char_def Let_def)

lemma QueryUnescape_query_char:
  "QueryUnescape (query_char c @ s) = map_option (Cons c) (QueryUnescape s)"
proof (cases "unreserved c \<or> c = CHR '' ''")
  case True
  moreover have "\<not> unreserved (CHR ''%'')" "\<not> unreserved (CHR ''+'')" by code_simp+
  ultimately show ?thesis by (auto simp: query_char_def)
next
  case False
  have "of_char c div 16 < (16::nat)" "of_char c mod 16 < (16::nat)"
    using nat_of_char_less_256 [of c] by (auto simp del: nat_of_char_less_256)
  with False show ?thesis
    by (simp add: query_char_def percent_def Let_def hex_digit_hex_upper)
qed

lemma QueryUnescape_QueryEscape: "QueryUnescape (QueryEscape s) = Some s"
  by (induction s) (simp_all add: QueryEscape_def QueryUnescape_query_char)

lemma split_char_append: "c \<notin> set p \<Longrightarrow> split_char c (p @ c # s) = p # split_char c s"
  by (induction p) auto

lemma split_char_absent: "c \<notin> set p \<Longrightarrow> split_char c p = [p]"
  by (induction p) auto

lemma split_join:
  "ps \<noteq> [] \<Longrightarrow> (\<And>p. p \<in> set ps \<Longrightarrow> c \<notin> set p) \<Longrightarrow> split_char c (join_with [c] ps) = ps"
  by (induction "[c]" ps rule: join_with.induct) (auto simp: split_char_append split_char_absent)

lemma query_item_encoded: "query_item (QueryEscape k @ ''='' @ QueryEscape v) = (True, [(k, v)])"
proof -
  have u: "\<not> unreserved (CHR '';'')" by code_simp
  then have "CHR '';'' \<notin> set (QueryEscape k @ ''='' @ QueryEscape v)"
    using QueryEscape_chars [of "CHR '';''"] by auto
  moreover have "takeWhile (\<lambda>c. c \<noteq> CHR ''='') (QueryEscape k @ ''='' @ QueryEscape v) = QueryEscape k"
    "dropWhile (\<lambda>c. c \<noteq> CHR ''='') (QueryEscape k @ ''='' @ QueryEscape v) = ''='' @ QueryEscape v"
    using QueryEscape_no_separator(2) [of k] by (auto simp: takeWhile_append dropWhile_append)
  ultimately show ?thesis by (simp add: query_item_def QueryUnescape_QueryEscape)
qed

lemma ParseQuery_encoded_pairs:
  "ParseQuery (join_with ''&'' (map (\<lambda>(k, v). QueryEscape k @ ''='' @ QueryEscape v) ps)) = (True, ps)"
proof (cases "ps = []")
  case True
  then show ?thesis by (simp add: ParseQuery_def query_item_def)
next
  case False
  let ?items = "map (\<lambda>(k, v). QueryEscape k @ ''='' @ QueryEscape v) ps"
  from False have "split_char (CHR ''&'') (join_with ''&'' ?items) = ?items"
    using QueryEscape_no_separator(1) by (intro split_join) auto
  then show ?thesis
    by (simp add: ParseQuery_def comp_def split_beta query_item_encoded [simplified] list_all_iff)
qed

lemma ParseQuery_values_encode: "ParseQuery (values_encode m) = (True, sort_keys m)"
  by (simp only: values_encode_def ParseQuery_encoded_pairs)

lemma map_flat_values: "map (\<lambda>(k, v). f k v) (flat_values m) = concat (map (\<lambda>(k, vs). map (f k) vs) m)"
  by (induction m) (auto simp: flat_values_def)

lemma ParseQuery_encode_values: "ParseQuery (encode_values m) = (True, flat_values (sort_keys m))"
  using ParseQuery_encoded_pairs [of "flat_values (sort_keys m)"]
  by (simp only: encode_values_def map_flat_values)

lemma set_flat_values: "set (flat_values m) = {(k, v). \<exists>vs. (k, vs) \<in> set m \<and> v \<in> set vs}"
  by (auto simp: flat_values_def)

lemma set_flat_add_value: "set (flat_values (add_value k v m)) = insert (k, v) (set (flat_values m))"
  by (induction k v m rule: add_value.induct) (auto simp: flat_values_def)

lemma set_flat_values_of: "set (flat_values (values_of pairs)) = set pairs"
proof -
  have "set (flat_values (foldl (\<lambda>m (k, v). add_value k v m) m pairs)) = set (flat_values m) \<union> set pairs" for m
    by (induction pairs arbitrary: m) (auto simp: set_flat_add_value)
  from this [of "[]"] show ?thesis by (simp add: values_of_def flat_values_def)
qed

section \<open>Properties\<close>


end
