(* ===== verification/Sanitize.thy ===== *)
theory Sanitize
  imports Json
begin

text \<open>
  The log messages of \<open>pkg/log/message.go\<close> and the redaction of \<open>pkg/log/sanitize.go\<close>: which
  keys are sensitive, headers, JSON values, and the two regular expressions that clean free
  text, written as matchers with the leftmost-first rule of Go's engine. Letters are compared
  without case on ASCII.
\<close>

section \<open>Log messages\<close>

record log_message =
  lm_kv :: strmap
  lm_msg :: string

definition new_log_message :: log_message where
  "new_log_message = \<lparr>lm_kv = [], lm_msg = ''''\<rparr>"

text \<open>\<open>AddField\<close> on a string: the field is replaced where it is, or appended.\<close>

definition AddField :: "string \<Rightarrow> string \<Rightarrow> log_message \<Rightarrow> log_message" where
  "AddField key val m = m\<lparr>lm_kv := mset_key (lm_kv m) key val\<rparr>"

definition AddMsg :: "string \<Rightarrow> log_message \<Rightarrow> log_message" where
  "AddMsg val m = m\<lparr>lm_msg := val\<rparr>"

definition message_String :: "log_message \<Rightarrow> string" where
  "message_String m = concat (map (\<lambda>(k, v). k @ ''['' @ v @ ''] '') (lm_kv m)) @ lm_msg m"

section \<open>Keys and headers\<close>

definition redacted :: string where
  "redacted = ''[REDACTED]''"

definition sensitiveKeys :: "string list" where
  "sensitiveKeys =
     [''access_token'', ''agent_secret'', ''agentsecret'', ''auth'', ''authorization'', ''bot_token'',
      ''corp_secret'', ''corpsecret'', ''did'', ''otp'', ''otpcode'', ''password'', ''proxy_authorization'',
      ''secret'', ''sign'', ''token'', ''visitorid'', ''visitor_id'', ''webhook_token'', ''x_api_key'',
      ''x_auth_token'']"

definition normalize_key :: "string \<Rightarrow> string" where
  "normalize_key key = map (\<lambda>c. if c = CHR ''-'' \<or> c = CHR ''.'' then CHR ''_'' else c) (to_lower key)"

definition isSensitiveKey :: "string \<Rightarrow> bool" where
  "isSensitiveKey key =
     (let normalized = normalize_key key
      in normalized \<in> set sensitiveKeys \<or> contains normalized ''password'' \<or> contains normalized ''secret''
         \<or> contains normalized ''token'' \<or> contains normalized ''auth'')"

definition SanitizeHeaders :: "(string \<times> string list) list \<Rightarrow> (string \<times> string list) list" where
  "SanitizeHeaders header =
     map (\<lambda>(key, values). (key, if isSensitiveKey key then map (\<lambda>_. redacted) values else values)) header"

definition MaskSecret :: "string \<Rightarrow> string" where
  "MaskSecret val = (if val = '''' then '''' else redacted)"

section \<open>JSON values\<close>

fun sanitizeJSONValue :: "json \<Rightarrow> json" where
  "sanitizeJSONValue (JObj ms) =
     JObj (map (\<lambda>(key, item). (key, if isSensitiveKey key then JStr redacted else sanitizeJSONValue item)) ms)"
| "sanitizeJSONValue (JArr vs) = JArr (map sanitizeJSONValue vs)"
| "sanitizeJSONValue v = v"

text \<open>The members of a value, at any depth, with the value each one has.\<close>

fun json_members :: "json \<Rightarrow> (string \<times> json) list" where
  "json_members (JObj ms) = concat (map (\<lambda>(key, item). (key, item) # json_members item) ms)"
| "json_members (JArr vs) = concat (map json_members vs)"
| "json_members v = []"

section \<open>Free text\<close>

text \<open>The pattern \<open>/bot[^/]+\<close>.\<close>

function redact_bot :: "string \<Rightarrow> string" where
  "redact_bot [] = []"
| "redact_bot (c # s) =
     (let rest = drop 4 (c # s)
      in if has_prefix (c # s) ''/bot'' \<and> rest \<noteq> [] \<and> hd rest \<noteq> CHR ''/''
         then ''/bot'' @ redacted @ redact_bot (dropWhile (\<lambda>d. d \<noteq> CHR ''/'') rest)
         else c # redact_bot s)"
  by pat_completeness auto

termination
proof (relation "measure length")
  fix c :: char and s rest :: string
  assume r: "rest = drop 4 (c # s)" and p: "has_prefix (c # s) ''/bot'' \<and> rest \<noteq> [] \<and> hd rest \<noteq> CHR ''/''"
  have "length (dropWhile (\<lambda>d. d \<noteq> CHR ''/'') rest) \<le> length rest" by (rule length_dropWhile_le)
  also have "length rest < length (c # s)" using r p by (cases rest) auto
  finally show "(dropWhile (\<lambda>d. d \<noteq> CHR ''/'') rest, c # s) \<in> measure length" by simp
qed simp_all

text \<open>
  The pattern of the keyed values: one of the names, blanks, a colon or an equals sign, blanks,
  and a value that runs to the next separator. The names are tried in order, and the first one
  after which the rest fits is taken. A match gives what is kept and what follows.
\<close>

definition regex_space :: "char \<Rightarrow> bool" where
  "regex_space c = (let k = of_char c in k = (9::nat) \<or> k = 10 \<or> k = 12 \<or> k = 13 \<or> k = 32)"

definition value_char :: "char \<Rightarrow> bool" where
  "value_char c \<longleftrightarrow> \<not> regex_space c \<and> c \<notin> set ''&,;}]''"

definition keyed_names :: "string list" where
  "keyed_names =
     [''access_token'', ''agent_secret'', ''auth'', ''authorization'', ''bot_token'', ''corp_secret'', ''did'',
      ''otp'', ''password'', ''proxy_authorization'', ''secret'', ''token'', ''visitor_id'', ''visitorid'']"

definition match_value :: "string \<Rightarrow> (string \<times> string) option" where
  "match_value s =
     (let blanks = takeWhile regex_space s; s1 = dropWhile regex_space s
      in case s1 of
           [] \<Rightarrow> None
         | c # s2 \<Rightarrow>
             if c = CHR '':'' \<or> c = CHR ''=''
             then (let blanks2 = takeWhile regex_space s2; s3 = dropWhile regex_space s2
                   in if takeWhile value_char s3 = [] then None
                      else Some (blanks @ c # blanks2, dropWhile value_char s3))
             else None)"

fun match_keyed :: "string list \<Rightarrow> string \<Rightarrow> (string \<times> string) option" where
  "match_keyed [] s = None"
| "match_keyed (name # names) s =
     (case (if to_lower (take (length name) s) = name then match_value (drop (length name) s) else None) of
        Some (sep, rest) \<Rightarrow> Some (take (length name) s @ sep, rest)
      | None \<Rightarrow> match_keyed names s)"

lemma match_value_shorter: "match_value s = Some (kept, rest) \<Longrightarrow> length rest < length s"
proof -
  assume m: "match_value s = Some (kept, rest)"
  then obtain c s2 where s1: "dropWhile regex_space s = c # s2"
    by (auto simp: match_value_def Let_def split: list.splits)
  with m have "rest = dropWhile value_char (dropWhile regex_space s2)"
    by (auto simp: match_value_def Let_def split: if_splits)
  then have "length rest \<le> length s2" by (meson length_dropWhile_le le_trans)
  also have "length s2 < length s" using length_dropWhile_le [of regex_space s] s1 by simp
  finally show ?thesis .
qed

lemma match_keyed_shorter: "match_keyed names s = Some (kept, rest) \<Longrightarrow> length rest < length s"
proof (induction names s rule: match_keyed.induct)
  case (2 name names s)
  show ?case
  proof (cases "to_lower (take (length name) s) = name \<and> match_value (drop (length name) s) \<noteq> None")
    case True
    then obtain sep r where m: "match_value (drop (length name) s) = Some (sep, r)" by auto
    with True "2.prems" have "r = rest" by auto
    with match_value_shorter [OF m] show ?thesis by simp
  next
    case False
    with 2 show ?thesis by (auto split: if_splits option.splits)
  qed
qed simp

function redact_keyed :: "string \<Rightarrow> string" where
  "redact_keyed [] = []"
| "redact_keyed (c # s) =
     (case match_keyed keyed_names (c # s) of
        Some (kept, rest) \<Rightarrow> kept @ redacted @ redact_keyed rest
      | None \<Rightarrow> c # redact_keyed s)"
  by pat_completeness auto

termination
  by (relation "measure length") (auto dest: match_keyed_shorter)

definition SanitizeText :: "string \<Rightarrow> string" where
  "SanitizeText text = redact_keyed (redact_bot text)"

section \<open>Lemmas\<close>

lemma SanitizeHeaders_keys: "map fst (SanitizeHeaders h) = map fst h"
  by (induction h) (auto simp: SanitizeHeaders_def)

lemma SanitizeHeaders_redacts:
  "(k, vs) \<in> set (SanitizeHeaders h) \<Longrightarrow> isSensitiveKey k \<Longrightarrow> v \<in> set vs \<Longrightarrow> v = redacted"
  by (auto simp: SanitizeHeaders_def)

lemma SanitizeHeaders_keeps:
  "\<not> isSensitiveKey k \<Longrightarrow> (k, vs) \<in> set (SanitizeHeaders h) \<longleftrightarrow> (k, vs) \<in> set h"
  by (auto simp: SanitizeHeaders_def image_iff split: prod.splits if_splits)

text \<open>After the redaction every sensitive member, at any depth, holds the marker.\<close>

lemma sanitizeJSONValue_members:
  "(k, v) \<in> set (json_members (sanitizeJSONValue doc)) \<Longrightarrow> isSensitiveKey k \<Longrightarrow> v = JStr redacted"
proof (induction doc rule: sanitizeJSONValue.induct)
  case (1 ms)
  then show ?case by (fastforce split: if_splits)
next
  case (2 vs)
  then show ?case by auto
qed simp_all

text \<open>A document without a sensitive member is left as it is.\<close>

lemma sanitizeJSONValue_unchanged:
  "(\<And>k v. (k, v) \<in> set (json_members doc) \<Longrightarrow> \<not> isSensitiveKey k) \<Longrightarrow> sanitizeJSONValue doc = doc"
proof (induction doc rule: sanitizeJSONValue.induct)
  case (1 ms)
  have "(k, if isSensitiveKey k then JStr redacted else sanitizeJSONValue v) = (k, v)" if kv: "(k, v) \<in> set ms" for k v
  proof -
    have "(k, v) \<in> set (json_members (JObj ms))" using kv by force
    with "1.prems" have k: "\<not> isSensitiveKey k" by blast
    have "\<not> isSensitiveKey k'" if "(k', v') \<in> set (json_members v)" for k' v'
    proof -
      have "(k', v') \<in> set (json_members (JObj ms))" using kv that by force
      with "1.prems" show ?thesis by blast
    qed
    with "1.IH" [OF kv refl k] k show ?thesis by simp
  qed
  then have "map (\<lambda>(k, v). (k, if isSensitiveKey k then JStr redacted else sanitizeJSONValue v)) ms = ms"
    by (intro map_idI) auto
  then show ?case by simp
next
  case (2 vs)
  then have "sanitizeJSONValue v = v" if "v \<in> set vs" for v
    using that by force
  then show ?case by (simp add: map_idI)
qed simp_all

end
