(* ===== verification/Channels.thy ===== *)
theory Channels
  imports ApiCore GoText Sanitize
begin

text \<open>
  The notification channels of \<open>pkg/apikit/apinotify\<close>: for each one its configuration with
  \<open>Validate\<close> (\<open>config.go\<close>), the channel that \<open>New\<close> makes of it, the message it posts, and its
  \<open>Send\<close>. The base channel writes the local notification log; the others talk to their service
  through the request client, which all channels share: its round tripper is the argument \<open>rt\<close>,
  where the code has the field \<open>sender\<close>. A channel gives back an error or nothing.
\<close>

section \<open>Decoding answers\<close>

text \<open>An integer field without the option \<open>,string\<close>, and an answer with a code and a text.\<close>

fun decode_int :: "json \<Rightarrow> int \<Rightarrow> int option" where
  "decode_int JNull old = Some old"
| "decode_int (JNum t) old = parse_int t"
| "decode_int v old = None"

definition code_field :: "string \<Rightarrow> string \<Rightarrow> string \<Rightarrow> json \<Rightarrow> int \<times> string \<Rightarrow> (int \<times> string) option" where
  "code_field code msg k v r =
     (if equal_fold k code then map_option (\<lambda>i. (i, snd r)) (decode_int v (fst r))
      else if equal_fold k msg then map_option (\<lambda>s. (fst r, s)) (decode_string v (snd r))
      else Some r)"

definition decode_code :: "string \<Rightarrow> string \<Rightarrow> string \<Rightarrow> (int \<times> string) option" where
  "decode_code code msg body =
     (case json_parse body of None \<Rightarrow> None | Some doc \<Rightarrow> decode_struct (code_field code msg) doc (0, ''''))"

text \<open>
  Every channel does the same with the result of a request: an error is handed to \<open>on_error\<close>,
  a status and a body to \<open>on_body\<close>.
\<close>

type_synonym 'w send_result = "goerror option \<times> 'w"

definition after_reply ::
  "(int \<times> string \<times> goerror option) \<times> 'w \<Rightarrow> (goerror \<Rightarrow> 'r) \<Rightarrow> (int \<Rightarrow> string \<Rightarrow> 'r) \<Rightarrow> 'r \<times> 'w" where
  "after_reply reply on_error on_body =
     (case reply of ((status, body, err), w) \<Rightarrow>
        case err of Some e \<Rightarrow> (on_error e, w) | None \<Rightarrow> (on_body status body, w))"

lemma after_reply_world [simp]: "snd (after_reply reply f g) = snd reply"
  by (simp add: after_reply_def split: prod.split option.split)

section \<open>base\<close>

definition base_Send :: "logctx \<Rightarrow> string \<Rightarrow> string \<Rightarrow> ('c, 'x) world \<Rightarrow> ('c, 'x) world send_result" where
  "base_Send ctx title body w =
     (let m = (if lc_logid ctx \<noteq> '''' then AddField ''logid'' (lc_logid ctx) new_log_message else new_log_message);
          m = AddMsg body (AddField ''title'' title (AddField ''notify'' ''base'' m))
      in (None, w\<lparr>w_notifylog := w_notifylog w @ [message_String m]\<rparr>))"

section \<open>qqpush\<close>

record qqpush_config =
  qq_Enabled :: bool
  qq_UseSystemProxy :: bool
  qq_Timeout :: float64
  qq_QQ :: string
  qq_Token :: string

definition qqpush_Validate :: "qqpush_config \<Rightarrow> goerror option" where
  "qqpush_Validate c =
     (if f_lt (qq_Timeout c) (Fin 0) then Some (ErrText ''qqpush timeout must be >= 0'')
      else if qq_Enabled c \<and> (qq_QQ c = '''' \<or> qq_Token c = '''')
      then Some (ErrText ''qqpush qq and token are required'')
      else None)"

record qqpush =
  qp_QQ :: string
  qp_Token :: string

definition qqpush_New :: "qqpush_config \<Rightarrow> qqpush" where
  "qqpush_New cfg = \<lparr>qp_QQ = qq_QQ cfg, qp_Token = qq_Token cfg\<rparr>"

definition qqpush_Send ::
  "qqpush \<Rightarrow> ('c, 'x) world round_trip option \<Rightarrow> logctx \<Rightarrow> string \<Rightarrow> string \<Rightarrow> ('c, 'x) world \<Rightarrow> ('c, 'x) world send_result" where
  "qqpush_Send q rt ctx title body w =
     (let postURL = ''https://wx.scjtqs.com/qq/push/pushMsg?token='' @ qp_Token q;
          postData = marshal (go_map [(''qq'', GStr (qp_QQ q)),
            (''content'', GArr [go_map [(''msgtype'', GStr ''text''), (''text'', GStr body)]]),
            (''token'', GStr (qp_Token q))]);
          header = [(''User-Agent'', [''Mozilla/5.0 (Windows NT 6.1; WOW64; rv:32.0) Gecko/20100101 Firefox/32.0''])]
      in after_reply (PostJSON rt ctx ''qqpush'' postURL postData header w) Some
           (\<lambda>status data. if status \<noteq> 200
              then Some (ErrText (''qqpush return status='' @ int_dec status @ '': '' @ data)) else None))"

section \<open>weixin\<close>

record weixin_config =
  wx_Enabled :: bool
  wx_UseSystemProxy :: bool
  wx_Timeout :: float64
  wx_CorpID :: string
  wx_AgentSecret :: string
  wx_AgentID :: int
  wx_UserID :: string

definition weixin_Validate :: "weixin_config \<Rightarrow> goerror option" where
  "weixin_Validate c =
     (if f_lt (wx_Timeout c) (Fin 0) then Some (ErrText ''weixin timeout must be >= 0'')
      else if wx_Enabled c \<and> (wx_CorpID c = '''' \<or> wx_AgentSecret c = '''')
      then Some (ErrText ''weixin corp_id and agent_secret are required'')
      else None)"

definition tokenURL :: string where
  "tokenURL = ''https://qyapi.weixin.qq.com/cgi-bin/gettoken''"

definition sendMsgURL :: string where
  "sendMsgURL = ''https://qyapi.weixin.qq.com/cgi-bin/message/send?access_token=''"

record weixin =
  wn_CorpID :: string
  wn_AgentSecret :: string
  wn_AgentID :: int
  wn_UserID :: string

definition weixin_New :: "weixin_config \<Rightarrow> weixin" where
  "weixin_New cfg = \<lparr>wn_CorpID = wx_CorpID cfg, wn_AgentSecret = wx_AgentSecret cfg,
     wn_AgentID = wx_AgentID cfg, wn_UserID = wx_UserID cfg\<rparr>"

definition token_field :: "string \<Rightarrow> json \<Rightarrow> string \<times> int \<Rightarrow> (string \<times> int) option" where
  "token_field k v r =
     (if equal_fold k ''access_token'' then map_option (\<lambda>s. (s, snd r)) (decode_string v (fst r))
      else if equal_fold k ''expires_in'' then map_option (\<lambda>i. (fst r, i)) (decode_int v (snd r))
      else Some r)"

definition json_failure :: "('c, 'x) env \<Rightarrow> string \<Rightarrow> goerror" where
  "json_failure E what = ErrText (ev_json_error E what)"

definition accessToken ::
  "('c, 'x) env \<Rightarrow> weixin \<Rightarrow> ('c, 'x) world round_trip option \<Rightarrow> logctx \<Rightarrow> ('c, 'x) world
     \<Rightarrow> (goerror + string) \<times> ('c, 'x) world" where
  "accessToken E x rt ctx w =
     (let url = tokenURL @ ''?corpid='' @ wn_CorpID x @ ''&corpsecret='' @ wn_AgentSecret x
      in after_reply (GetJSON rt ctx ''weixin'' url [] w) Inl
           (\<lambda>status data. if status \<noteq> 200
              then Inl (ErrText (''weixin token status='' @ int_dec status @ '': '' @ data))
              else (case (case json_parse data of None \<Rightarrow> None | Some doc \<Rightarrow> decode_struct token_field doc ('''', 0)) of
                      None \<Rightarrow> Inl (json_failure E ''weixin token'')
                    | Some (token, _) \<Rightarrow>
                        if token = ''''
                        then Inl (ErrText (utf8 [0x83B7, 0x53D6] @ '' Access Token '' @ utf8 [0x5931, 0x8D25]))
                        else Inr token)))"

definition weixin_Send ::
  "('c, 'x) env \<Rightarrow> weixin \<Rightarrow> ('c, 'x) world round_trip option \<Rightarrow> logctx \<Rightarrow> string \<Rightarrow> string \<Rightarrow> ('c, 'x) world
     \<Rightarrow> ('c, 'x) world send_result" where
  "weixin_Send E x rt ctx title body w =
     (case accessToken E x rt ctx w of
        (Inl err, w) \<Rightarrow> (Some err, w)
      | (Inr token, w) \<Rightarrow>
     (let data = marshal (go_map [(''touser'', GStr (wn_UserID x)), (''msgtype'', GStr ''text''),
            (''text'', go_map [(''content'', GStr body)]), (''agentid'', GInt (wn_AgentID x))])
      in after_reply (PostJSON rt ctx ''weixin'' (sendMsgURL @ token) data [] w) Some
           (\<lambda>status data. if status \<noteq> 200
              then Some (ErrText (''weixin send status='' @ int_dec status @ '': '' @ data))
              else (case decode_code ''errcode'' ''errmsg'' data of
                      None \<Rightarrow> Some (json_failure E ''weixin send'')
                    | Some (code, msg) \<Rightarrow>
                        if code \<noteq> 0
                        then Some (ErrText (utf8 [0x53D1, 0x9001, 0x6D88, 0x606F, 0x5931, 0x8D25] @ '': '' @ msg))
                        else None))))"

section \<open>dingtalk\<close>

text \<open>\<open>at_mobiles\<close> may be absent, which the JSON body shows as null.\<close>

record dingtalk_config =
  dd_Enabled :: bool
  dd_UseSystemProxy :: bool
  dd_Timeout :: float64
  dd_WebhookToken :: string
  dd_Secret :: string
  dd_AtMobiles :: "string list option"

definition dingtalk_Validate :: "dingtalk_config \<Rightarrow> goerror option" where
  "dingtalk_Validate c =
     (if f_lt (dd_Timeout c) (Fin 0) then Some (ErrText ''dingtalk timeout must be >= 0'')
      else if dd_Enabled c \<and> dd_WebhookToken c = '''' then Some (ErrText ''dingtalk webhook_token is required'')
      else None)"

record dingtalk =
  dt_WebhookURL :: string
  dt_Secret :: string
  dt_AtMobiles :: "string list option"

definition dingtalk_New :: "dingtalk_config \<Rightarrow> dingtalk" where
  "dingtalk_New cfg = \<lparr>dt_WebhookURL = ''https://oapi.dingtalk.com/robot/send?access_token='' @ dd_WebhookToken cfg,
     dt_Secret = dd_Secret cfg, dt_AtMobiles = dd_AtMobiles cfg\<rparr>"

text \<open>The message and its JSON text: the fields in the order of the struct, nil as null.\<close>

record dingtalk_message =
  dm_MsgType :: string
  dm_Content :: string
  dm_AtMobiles :: "string list option"
  dm_IsAtAll :: bool

definition dingtalk_json :: "dingtalk_message \<Rightarrow> gojson" where
  "dingtalk_json m =
     GObj [(''msgtype'', GStr (dm_MsgType m)), (''text'', GObj [(''content'', GStr (dm_Content m))]),
       (''at'', GObj [(''atMobiles'', case dm_AtMobiles m of None \<Rightarrow> GNull | Some ms \<Rightarrow> GArr (map GStr ms)),
          (''isAtAll'', GBool (dm_IsAtAll m))])]"

definition signedWebhookURL :: "string \<Rightarrow> string \<Rightarrow> string \<Rightarrow> string" where
  "signedWebhookURL webhookURL timestamp sign =
     webhookURL @ (if contains webhookURL ''?'' then ''&'' else ''?'')
       @ values_encode [(''timestamp'', timestamp), (''sign'', sign)]"

definition dingtalk_sign :: "string \<Rightarrow> string \<Rightarrow> string" where
  "dingtalk_sign secret timestamp = base64_encode (hmac_sha256 secret (timestamp @ [CHR 0x0A] @ secret))"

definition dingtalk_generateSign ::
  "('c, 'x) env \<Rightarrow> dingtalk \<Rightarrow> ('c, 'x) world \<Rightarrow> (string \<times> string) \<times> ('c, 'x) world" where
  "dingtalk_generateSign E d w =
     (case now E w of (t, w) \<Rightarrow>
        let timestamp = int_dec (go_div t 1000000)
        in ((timestamp, dingtalk_sign (dt_Secret d) timestamp), w))"

definition dingtalk_Send ::
  "('c, 'x) env \<Rightarrow> dingtalk \<Rightarrow> ('c, 'x) world round_trip option \<Rightarrow> logctx \<Rightarrow> string \<Rightarrow> string \<Rightarrow> ('c, 'x) world
     \<Rightarrow> ('c, 'x) world send_result" where
  "dingtalk_Send E d rt ctx title body w =
     (case dingtalk_generateSign E d w of ((timestamp, sign), w) \<Rightarrow>
      let data = marshal (dingtalk_json \<lparr>dm_MsgType = ''text'', dm_Content = body, dm_AtMobiles = dt_AtMobiles d,
            dm_IsAtAll = (dt_AtMobiles d = None \<or> dt_AtMobiles d = Some [])\<rparr>);
          reqURL = signedWebhookURL (dt_WebhookURL d) timestamp sign
      in after_reply (PostJSON rt ctx ''dingtalk'' reqURL data [] w) Some
           (\<lambda>status responseBody. if status \<noteq> 200
              then Some (ErrText (''dingtalk robot return status='' @ int_dec status @ '': '' @ SanitizeText responseBody))
              else if responseBody = '''' then None
              else (case decode_code ''errcode'' ''errmsg'' responseBody of
                      None \<Rightarrow> Some (wrap_prefix ''dingtalk robot response decode failed'' (json_failure E ''dingtalk''))
                    | Some (code, msg) \<Rightarrow>
                        if code \<noteq> 0
                        then Some (ErrText (''dingtalk robot business error errcode='' @ int_dec code @ '': '' @ SanitizeText msg))
                        else None)))"

section \<open>telegram\<close>

record telegram_config =
  tg_Enabled :: bool
  tg_UseSystemProxy :: bool
  tg_Timeout :: float64
  tg_BotToken :: string
  tg_ChatID :: int
  tg_Proxy :: string

definition telegram_Validate :: "telegram_config \<Rightarrow> goerror option" where
  "telegram_Validate c =
     (if f_lt (tg_Timeout c) (Fin 0) then Some (ErrText ''telegram timeout must be >= 0'')
      else if tg_Enabled c \<and> (tg_BotToken c = '''' \<or> tg_ChatID c = 0)
      then Some (ErrText ''telegram bot_token and chat_id are required'')
      else None)"

record telegram_bot =
  tb_BotToken :: string
  tb_ChatID :: int

definition telegram_New :: "telegram_config \<Rightarrow> telegram_bot" where
  "telegram_New cfg = \<lparr>tb_BotToken = tg_BotToken cfg, tb_ChatID = tg_ChatID cfg\<rparr>"

definition telegram_Send ::
  "('c, 'x) env \<Rightarrow> telegram_bot \<Rightarrow> ('c, 'x) world round_trip option \<Rightarrow> logctx \<Rightarrow> string \<Rightarrow> string \<Rightarrow> ('c, 'x) world
     \<Rightarrow> ('c, 'x) world send_result" where
  "telegram_Send E t rt ctx title body w =
     (case ctx_Err E ctx w of
        (Some err, w) \<Rightarrow> (Some err, w)
      | (None, w) \<Rightarrow>
     (let payload = marshal (go_map [(''chat_id'', GInt (tb_ChatID t)), (''text'', GStr body)])
      in after_reply (PostJSON rt ctx ''telegram''
             (''https://api.telegram.org/bot'' @ tb_BotToken t @ ''/sendMessage'') payload [] w) Some
           (\<lambda>status response. if status \<noteq> 200
              then Some (ErrText (''telegram return status='' @ int_dec status @ '': '' @ SanitizeText response))
              else None)))"

section \<open>feishu\<close>

record feishu_config =
  fs_Enabled :: bool
  fs_UseSystemProxy :: bool
  fs_Timeout :: float64
  fs_WebhookURL :: string
  fs_Secret :: string

definition feishu_Validate :: "feishu_config \<Rightarrow> goerror option" where
  "feishu_Validate c =
     (if f_lt (fs_Timeout c) (Fin 0) then Some (ErrText ''feishu timeout must be >= 0'')
      else if fs_Enabled c \<and> fs_WebhookURL c = '''' then Some (ErrText ''feishu webhook_url is required'')
      else None)"

record feishu_bot =
  fb_WebhookURL :: string
  fb_Secret :: string

definition feishu_New :: "feishu_config \<Rightarrow> feishu_bot" where
  "feishu_New cfg = \<lparr>fb_WebhookURL = fs_WebhookURL cfg, fb_Secret = fs_Secret cfg\<rparr>"

text \<open>The message; its JSON text leaves out a timestamp or a signature that is empty.\<close>

record feishu_message =
  fm_Timestamp :: string
  fm_Sign :: string
  fm_MsgType :: string
  fm_Text :: string

definition omitempty :: "string \<Rightarrow> string \<Rightarrow> (string \<times> gojson) list" where
  "omitempty k v = (if v = '''' then [] else [(k, GStr v)])"

definition feishu_json :: "feishu_message \<Rightarrow> gojson" where
  "feishu_json m =
     GObj (omitempty ''timestamp'' (fm_Timestamp m) @ omitempty ''sign'' (fm_Sign m)
       @ [(''msg_type'', GStr (fm_MsgType m)), (''content'', GObj [(''text'', GStr (fm_Text m))])])"

text \<open>The signing key is the string to sign, and the message is empty.\<close>

definition feishu_sign :: "string \<Rightarrow> int \<Rightarrow> string" where
  "feishu_sign secret timestamp = base64_encode (hmac_sha256 (int_dec timestamp @ [CHR 0x0A] @ secret) '''')"

definition feishu_generateSign ::
  "('c, 'x) env \<Rightarrow> feishu_bot \<Rightarrow> ('c, 'x) world \<Rightarrow> (string \<times> int) \<times> ('c, 'x) world" where
  "feishu_generateSign E b w =
     (if fb_Secret b = '''' then (('''', 0), w)
      else case now E w of (t, w) \<Rightarrow>
             let timestamp = t div 1000000000 in ((feishu_sign (fb_Secret b) timestamp, timestamp), w))"

text \<open>\<open>sendRequest\<close>, and \<open>Send\<close>, which signs when there is a secret.\<close>

definition feishu_sendRequest ::
  "('c, 'x) env \<Rightarrow> feishu_bot \<Rightarrow> ('c, 'x) world round_trip option \<Rightarrow> logctx \<Rightarrow> string \<Rightarrow> ('c, 'x) world
     \<Rightarrow> ('c, 'x) world send_result" where
  "feishu_sendRequest E b rt ctx data w =
     after_reply (PostJSON rt ctx ''feishu'' (fb_WebhookURL b) data [] w)
           (\<lambda>err. Some (wrap_prefix (''HTTP'' @ utf8 [0x8BF7, 0x6C42, 0x5931, 0x8D25]) err))
           (\<lambda>status resp. if status \<noteq> 200
              then Some (ErrText (''API'' @ utf8 [0x8FD4, 0x56DE, 0x9519, 0x8BEF] @ '': '' @ SanitizeText resp))
              else if resp = '''' then None
              else (case decode_code ''code'' ''msg'' resp of
                      None \<Rightarrow> Some (wrap_prefix (utf8 [0x98DE, 0x4E66, 0x54CD, 0x5E94, 0x89E3, 0x6790, 0x5931, 0x8D25])
                               (json_failure E ''feishu''))
                    | Some (code, msg) \<Rightarrow>
                        if code \<noteq> 0
                        then Some (ErrText (utf8 [0x98DE, 0x4E66, 0x4E1A, 0x52A1, 0x8FD4, 0x56DE, 0x9519, 0x8BEF]
                               @ '' code='' @ int_dec code @ '': '' @ SanitizeText msg))
                        else None))"

definition feishu_Send ::
  "('c, 'x) env \<Rightarrow> feishu_bot \<Rightarrow> ('c, 'x) world round_trip option \<Rightarrow> logctx \<Rightarrow> string \<Rightarrow> string \<Rightarrow> ('c, 'x) world
     \<Rightarrow> ('c, 'x) world send_result" where
  "feishu_Send E b rt ctx title body w =
     (let m = \<lparr>fm_Timestamp = '''', fm_Sign = '''', fm_MsgType = ''text'', fm_Text = body\<rparr>
      in case (if fb_Secret b \<noteq> ''''
               then (case feishu_generateSign E b w of ((sign, timestamp), w) \<Rightarrow>
                       (m\<lparr>fm_Sign := sign, fm_Timestamp := int_dec timestamp\<rparr>, w))
               else (m, w)) of
           (m, w) \<Rightarrow> feishu_sendRequest E b rt ctx (marshal (feishu_json m)) w)"

section \<open>ntfy\<close>

record ntfy_config =
  nt_Enabled :: bool
  nt_UseSystemProxy :: bool
  nt_Timeout :: float64
  nt_URL :: string
  nt_Topic :: string
  nt_Username :: string
  nt_Password :: string
  nt_Token :: string

definition ntfy_Validate :: "ntfy_config \<Rightarrow> goerror option" where
  "ntfy_Validate c =
     (if f_lt (nt_Timeout c) (Fin 0) then Some (ErrText ''ntfy timeout must be >= 0'')
      else if nt_Enabled c \<and> (nt_URL c = '''' \<or> nt_Topic c = '''') then Some (ErrText ''ntfy url and topic are required'')
      else None)"

definition ntfy_auth :: "string \<Rightarrow> string \<Rightarrow> string \<Rightarrow> string" where
  "ntfy_auth user password token =
     (if token \<noteq> '''' then ''Bearer '' @ token
      else if user \<noteq> '''' \<and> password \<noteq> '''' then ''Basic '' @ base64_encode (user @ '':'' @ password)
      else '''')"

record ntfy =
  ny_URL :: string
  ny_Topic :: string
  ny_Auth :: string

definition ntfy_New :: "ntfy_config \<Rightarrow> ntfy" where
  "ntfy_New cfg = \<lparr>ny_URL = nt_URL cfg, ny_Topic = nt_Topic cfg,
     ny_Auth = ntfy_auth (nt_Username cfg) (nt_Password cfg) (nt_Token cfg)\<rparr>"

record ntfy_action =
  na_Action :: string
  na_Label :: string
  na_URL :: string

record ntfy_message =
  nm_Topic :: string
  nm_Title :: string
  nm_Message :: string
  nm_Priority :: int
  nm_Tags :: "string list"
  nm_Actions :: "ntfy_action list"
  nm_Attach :: string
  nm_Filename :: string
  nm_Click :: string

definition ntfy_action_json :: "ntfy_action \<Rightarrow> gojson" where
  "ntfy_action_json a = GObj [(''action'', GStr (na_Action a)), (''label'', GStr (na_Label a)), (''url'', GStr (na_URL a))]"

definition ntfy_json :: "ntfy_message \<Rightarrow> gojson" where
  "ntfy_json m =
     GObj ([(''topic'', GStr (nm_Topic m)), (''title'', GStr (nm_Title m)), (''message'', GStr (nm_Message m)),
         (''priority'', GInt (nm_Priority m))]
       @ (if nm_Tags m = [] then [] else [(''tags'', GArr (map GStr (nm_Tags m)))])
       @ (if nm_Actions m = [] then [] else [(''actions'', GArr (map ntfy_action_json (nm_Actions m)))])
       @ omitempty ''attach'' (nm_Attach m) @ omitempty ''filename'' (nm_Filename m) @ omitempty ''click'' (nm_Click m))"

definition ntfy_sendRequest ::
  "ntfy \<Rightarrow> ('c, 'x) world round_trip option \<Rightarrow> logctx \<Rightarrow> string \<Rightarrow> ('c, 'x) world \<Rightarrow> ('c, 'x) world send_result" where
  "ntfy_sendRequest n rt ctx data w =
     (let header = (if ny_Auth n \<noteq> '''' then [(''Authorization'', [ny_Auth n])] else [])
      in after_reply (PostJSON rt ctx ''ntfy'' (ny_URL n) data header w)
           (\<lambda>err. Some (wrap_prefix (''HTTP'' @ utf8 [0x8BF7, 0x6C42, 0x5931, 0x8D25]) err))
           (\<lambda>status resp. if status \<noteq> 200
              then Some (ErrText (''API'' @ utf8 [0x8FD4, 0x56DE, 0x9519, 0x8BEF] @ '': '' @ resp)) else None))"

definition ntfy_Send ::
  "ntfy \<Rightarrow> ('c, 'x) world round_trip option \<Rightarrow> logctx \<Rightarrow> string \<Rightarrow> string \<Rightarrow> ('c, 'x) world \<Rightarrow> ('c, 'x) world send_result" where
  "ntfy_Send n rt ctx title body w =
     ntfy_sendRequest n rt ctx (marshal (ntfy_json
       \<lparr>nm_Topic = ny_Topic n, nm_Title = ''M-Team '' @ utf8 [0x767B, 0x5F55, 0x4FDD, 0x6D3B, 0x901A, 0x77E5],
        nm_Message = body, nm_Priority = 1, nm_Tags = [''bread''],
        nm_Actions = [\<lparr>na_Action = ''view'', na_Label = utf8 [0x624B, 0x52A8, 0x767B, 0x5F55], na_URL = ''https://kp.m-team.cc/''\<rparr>],
        nm_Attach = '''', nm_Filename = '''', nm_Click = ''https://kp.m-team.cc/''\<rparr>)) w"

end
