(* ===== verification/TlsClient.thy ===== *)
theory TlsClient
  imports ApiCore
begin

text \<open>
  The TLS client of \<open>pkg/apicore/tlsclient.go\<close>: the choice of the browser profile, the cache
  of clients and cookie jars, the round trip with its response limit, and closing. The client
  is one made by \<open>NewTLSClient\<close>, so the nil receivers of the source do not occur. The second
  part is the client under concurrent callers, as a step relation over its mutex sections.
\<close>

section \<open>Choosing a client\<close>

definition defaultUserAgent :: string where
  "defaultUserAgent = ''Mozilla/5.0 (Windows NT 10.0; Win64; x64) AppleWebKit/537.36 (KHTML, like Gecko) Chrome/146.0.0.0 Safari/537.36''"

definition maxResponseBytes :: nat where
  "maxResponseBytes = 16777216"

fun find_user_agent :: "strmap \<Rightarrow> string option" where
  "find_user_agent [] = None"
| "find_user_agent ((key, val) # headers) =
     (if equal_fold key ''User-Agent'' \<and> val \<noteq> '''' then Some val else find_user_agent headers)"

definition effectiveUserAgent :: "request \<Rightarrow> string" where
  "effectiveUserAgent req =
     (if rq_UserAgent req \<noteq> '''' then rq_UserAgent req
      else case find_user_agent (rq_Headers req) of Some v \<Rightarrow> v | None \<Rightarrow> defaultUserAgent)"

definition profileForUserAgent :: "string \<Rightarrow> string \<times> client_profile" where
  "profileForUserAgent userAgent =
     (let normalized = to_lower userAgent
      in if contains normalized ''firefox/'' then (''firefox_148'', Firefox_148)
         else if contains normalized ''safari/'' \<and> \<not> contains normalized ''chrome/''
                 \<and> \<not> contains normalized ''chromium/'' then (''safari_16_0'', Safari_16_0)
         else if contains normalized ''chrome/'' \<or> contains normalized ''chromium/'' \<or> contains normalized ''edg/''
         then (''chrome_146'', Chrome_146)
         else (''default'', DefaultClientProfile))"

definition clientProfileForUserAgent :: "string \<Rightarrow> client_profile" where
  "clientProfileForUserAgent userAgent = snd (profileForUserAgent userAgent)"

text \<open>The quotient of an \<open>int64\<close> by a million is far inside \<open>int\<close>, so the conversion is exact.\<close>

definition timeoutMilliseconds :: "duration \<Rightarrow> int" where
  "timeoutMilliseconds timeout =
     (if timeout \<le> 0 then 0 else \<lceil>f_val (f_div_const (f_of_int timeout) 1000000)\<rceil>)"

definition client_key_of :: "request \<Rightarrow> string \<Rightarrow> client_key" where
  "client_key_of req userAgent =
     \<lparr>ck_profile = fst (profileForUserAgent userAgent), ck_proxy = rq_Proxy req,
      ck_timeoutMillis = timeoutMilliseconds (rq_Timeout req),
      ck_disableRedirect = rq_DisableRedirect req, ck_cookieScope = rq_CookieScope req\<rparr>"

definition newTLSClient :: "'c tls_client" where
  "newTLSClient = \<lparr>tc_clients = [], tc_jars = [], tc_next_jar = 0, tc_closed = False, tc_inflight = 0\<rparr>"

definition NewTLSClient :: "goerror + 'c tls_client" where
  "NewTLSClient = Inr newTLSClient"

text \<open>The jar of a scope: the one it has, or a new one that is stored.\<close>

definition jar_for :: "string \<Rightarrow> 'c tls_client \<Rightarrow> nat option \<times> 'c tls_client" where
  "jar_for scope c =
     (if scope = '''' then (None, c)
      else case map_of (tc_jars c) scope of
             Some jar \<Rightarrow> (Some jar, c)
           | None \<Rightarrow> (Some (tc_next_jar c),
                      c\<lparr>tc_jars := tc_jars c @ [(scope, tc_next_jar c)], tc_next_jar := Suc (tc_next_jar c)\<rparr>))"

definition config_for :: "request \<Rightarrow> string \<Rightarrow> nat option \<Rightarrow> client_config" where
  "config_for req userAgent jar =
     (case profileForUserAgent userAgent of (name, profile) \<Rightarrow>
        \<lparr>cc_profileName = name, cc_profile = profile, cc_proxy = rq_Proxy req, cc_timeout = rq_Timeout req,
         cc_disableRedirect = rq_DisableRedirect req, cc_jar = jar\<rparr>)"

definition acquire ::
  "(client_config \<Rightarrow> 'x \<Rightarrow> (goerror + 'c) \<times> 'x) \<Rightarrow> request \<Rightarrow> string \<Rightarrow> 'c tls_client \<times> 'x
     \<Rightarrow> (goerror + 'c) \<times> 'c tls_client \<times> 'x" where
  "acquire factory req userAgent cx =
     (case cx of (c, x) \<Rightarrow>
        let key = client_key_of req userAgent
        in if tc_closed c then (Inl (Sentinel TlsErrClosed), c, x)
           else case map_of (tc_clients c) key of
                  Some client \<Rightarrow> (Inr client, c\<lparr>tc_inflight := tc_inflight c + 1\<rparr>, x)
                | None \<Rightarrow>
                    (case jar_for (rq_CookieScope req) c of (jar, c) \<Rightarrow>
                     case factory (config_for req userAgent jar) x of
                       (Inl err, x) \<Rightarrow> (Inl err, c, x)
                     | (Inr client, x) \<Rightarrow>
                         (Inr client,
                          c\<lparr>tc_clients := (key, client) # tc_clients c, tc_inflight := tc_inflight c + 1\<rparr>, x)))"

text \<open>
  The factory of the program: the options for the third-party client, which the argument
  \<open>NewHttpClient\<close> makes from them.
\<close>

datatype client_option =
    WithClientProfile client_profile
  | WithRandomTLSExtensionOrder
  | WithNotFollowRedirects
  | WithTimeoutMilliseconds int
  | WithProxyUrl string
  | WithCookieJar nat

definition client_options :: "client_config \<Rightarrow> client_option list" where
  "client_options cfg =
     [WithClientProfile (cc_profile cfg), WithRandomTLSExtensionOrder]
     @ (if cc_disableRedirect cfg then [WithNotFollowRedirects] else [])
     @ (if 0 < cc_timeout cfg then [WithTimeoutMilliseconds (timeoutMilliseconds (cc_timeout cfg))] else [])
     @ (if cc_proxy cfg \<noteq> '''' then [WithProxyUrl (cc_proxy cfg)] else [])
     @ (case cc_jar cfg of Some jar \<Rightarrow> [WithCookieJar jar] | None \<Rightarrow> [])"

definition defaultNewClient ::
  "(client_option list \<Rightarrow> 'x \<Rightarrow> (goerror + 'c) \<times> 'x) \<Rightarrow> client_config \<Rightarrow> 'x \<Rightarrow> (goerror + 'c) \<times> 'x" where
  "defaultNewClient NewHttpClient cfg x = NewHttpClient (client_options cfg) x"

section \<open>The round trip\<close>

text \<open>\<open>Header.Set\<close> writes the canonical form of the key: upper case at the start and after \<open>-\<close>.\<close>

definition token_char :: "char \<Rightarrow> bool" where
  "token_char c = (let k = of_char c in
     (48 \<le> k \<and> k \<le> 57) \<or> (65 \<le> k \<and> k \<le> 90) \<or> (97 \<le> k \<and> k \<le> (122::nat))
      \<or> c \<in> set ''!#$%&*+-.^_|~'' \<or> k = 39 \<or> k = 96)"

fun canonical_from :: "bool \<Rightarrow> string \<Rightarrow> string" where
  "canonical_from up [] = []"
| "canonical_from up (c # cs) = (if up then upper_char c else lower_char c) # canonical_from (c = CHR ''-'') cs"

definition canonical_key :: "string \<Rightarrow> string" where
  "canonical_key k = (if list_all token_char k then canonical_from True k else k)"

definition header_set :: "string \<Rightarrow> string \<Rightarrow> strmap \<Rightarrow> strmap" where
  "header_set key val h = mset_key h (canonical_key key) val"

definition requestBody :: "request \<Rightarrow> string" where
  "requestBody req = (if rq_BodyBytes req \<noteq> '''' then rq_BodyBytes req else rq_Body req)"

definition buildRequest :: "(string \<Rightarrow> string \<Rightarrow> goerror option) \<Rightarrow> logctx \<Rightarrow> request \<Rightarrow> string \<Rightarrow> goerror + http_request" where
  "buildRequest newRequest ctx req userAgent =
     (case newRequest (rq_Method req) (rq_URL req) of
        Some err \<Rightarrow> Inl err
      | None \<Rightarrow> Inr \<lparr>hq_ctx = ctx, hq_Method = rq_Method req, hq_URL = rq_URL req,
                     hq_Header = header_set ''User-Agent'' userAgent
                       (foldl (\<lambda>h (key, val). header_set key val h) [] (rq_Headers req)),
                     hq_Body = requestBody req\<rparr>)"

fun headersToMap :: "(string \<times> string list) list \<Rightarrow> strmap" where
  "headersToMap [] = []"
| "headersToMap ((key, values) # headers) =
     (case values of [] \<Rightarrow> headersToMap headers | v # _ \<Rightarrow> (key, v) # headersToMap headers)"

text \<open>\<open>io.ReadAll(io.LimitReader(body, n))\<close>: the error of the stream is met only before the limit.\<close>

definition read_limited :: "nat \<Rightarrow> string \<times> goerror option \<Rightarrow> goerror + string" where
  "read_limited n body =
     (case body of (bytes, end) \<Rightarrow>
        if n \<le> length bytes then Inr (take n bytes)
        else case end of None \<Rightarrow> Inr bytes | Some err \<Rightarrow> Inl err)"

definition read_response :: "http_response \<Rightarrow> response option \<times> goerror option" where
  "read_response resp =
     (case read_limited (maxResponseBytes + 1) (hp_Body resp) of
        Inl err \<Rightarrow> (None, Some err)
      | Inr body \<Rightarrow>
          if maxResponseBytes < length body
          then (None, Some (ErrText (''response body exceeds '' @ nat_dec maxResponseBytes @ '' bytes limit'')))
          else (Some \<lparr>rp_Status = hp_StatusCode resp, rp_Body = body, rp_Headers = headersToMap (hp_Header resp)\<rparr>, None))"

definition exchange ::
  "('c, 'x) env \<Rightarrow> 'c \<Rightarrow> logctx \<Rightarrow> request \<Rightarrow> string \<Rightarrow> 'x \<Rightarrow> (response option \<times> goerror option) \<times> 'x" where
  "exchange E client ctx req userAgent x =
     (case buildRequest (ev_NewRequest E) ctx req userAgent of
        Inl err \<Rightarrow> ((None, Some err), x)
      | Inr httpReq \<Rightarrow>
          (case ev_Do E client httpReq x of
             (Inl err, x) \<Rightarrow> ((None, Some err), x)
           | (Inr resp, x) \<Rightarrow> (read_response resp, x)))"

definition release :: "'c tls_client \<Rightarrow> 'c tls_client" where
  "release c = c\<lparr>tc_inflight := tc_inflight c - 1\<rparr>"

definition tls_RoundTrip :: "('c, 'x) env \<Rightarrow> ('c, 'x) world round_trip" where
  "tls_RoundTrip E ctx req w =
     (case req of
        None \<Rightarrow> ((None, Some (ErrText ''tls request is nil'')), req, w)
      | Some r \<Rightarrow>
          (case ctx_Err E ctx w of
             (Some err, w) \<Rightarrow> ((None, Some err), req, w)
           | (None, w) \<Rightarrow>
               (let userAgent = effectiveUserAgent r
                in case acquire (ev_newClient E) r userAgent (w_tls w, w_ext w) of
                     (Inl err, c, x) \<Rightarrow> ((None, Some err), req, w\<lparr>w_tls := c, w_ext := x\<rparr>)
                   | (Inr client, c, x) \<Rightarrow>
                       (case exchange E client ctx r userAgent x of (res, x) \<Rightarrow>
                          (res, req, w\<lparr>w_tls := release c, w_ext := x\<rparr>)))))"

text \<open>
  \<open>Close\<close> in two sections of the mutex, with the wait for the requests in flight between
  them. In a sequential run it comes back when none is in flight, and blocks otherwise
  (\<open>None\<close>).
\<close>

definition close_begin :: "'c tls_client \<Rightarrow> 'c tls_client" where
  "close_begin c = c\<lparr>tc_closed := True\<rparr>"

definition close_finish :: "'c tls_client \<Rightarrow> 'c tls_client" where
  "close_finish c = c\<lparr>tc_clients := [], tc_jars := []\<rparr>"

definition tls_Close :: "('c, 'x) env \<Rightarrow> ('c, 'x) world \<Rightarrow> ('c, 'x) world option" where
  "tls_Close E w =
     (let c = w_tls w
      in if tc_closed c then Some w
         else if tc_inflight c = 0
         then Some (w\<lparr>w_tls := close_finish (close_begin c),
                      w_ext := foldl (\<lambda>x (_, client). ev_CloseIdle E client x) (w_ext w) (tc_clients c)\<rparr>)
         else None)"

section \<open>Lemmas\<close>

text \<open>Every way through a round trip gives back its place in flight.\<close>

lemma jar_for_frame [simp]:
  "tc_inflight (snd (jar_for s c)) = tc_inflight c" "tc_closed (snd (jar_for s c)) = tc_closed c"
  "tc_clients (snd (jar_for s c)) = tc_clients c"
  by (auto simp: jar_for_def split: option.splits)

lemma acquire_inflight:
  assumes "acquire f r ua (c, x) = (res, c', x')"
  shows "tc_inflight c' = tc_inflight c + (case res of Inr _ \<Rightarrow> 1 | Inl _ \<Rightarrow> 0) \<and> tc_closed c' = tc_closed c"
proof -
  obtain j c1 where j: "jar_for (rq_CookieScope r) c = (j, c1)" by fastforce
  then have "tc_inflight c1 = tc_inflight c" "tc_closed c1 = tc_closed c"
    using jar_for_frame [of "rq_CookieScope r" c] by simp_all
  with assms j show ?thesis
    by (auto simp: acquire_def Let_def split: if_splits option.splits prod.splits sum.splits)
qed

lemma ctx_Err_frame [simp]:
  "ctx_Err E c w = (e, w') \<Longrightarrow> w_tls w' = w_tls w \<and> w_httplog w' = w_httplog w"
  by (auto simp: ctx_Err_def split: prod.splits)

lemma tls_RoundTrip_frame:
  assumes "tls_RoundTrip E ctx req w = (res, req', w')"
  shows "tc_inflight (w_tls w') = tc_inflight (w_tls w) \<and> tc_closed (w_tls w') = tc_closed (w_tls w)
         \<and> w_httplog w' = w_httplog w \<and> req' = req"
proof (cases req)
  case (Some r)
  obtain e w1 where e: "ctx_Err E ctx w = (e, w1)" by fastforce
  then have w1: "w_tls w1 = w_tls w \<and> w_httplog w1 = w_httplog w" by simp
  obtain ac c x where ac: "acquire (ev_newClient E) r (effectiveUserAgent r) (w_tls w1, w_ext w1) = (ac, c, x)"
    by (metis prod_cases3)
  from acquire_inflight [OF this] assms Some e w1 ac show ?thesis
    by (auto simp: tls_RoundTrip_def release_def Let_def split: option.splits sum.splits prod.splits)
qed (use assms in \<open>auto simp: tls_RoundTrip_def\<close>)

lemma tls_RoundTrip_closed:
  assumes "tc_closed (w_tls w)" "tls_RoundTrip E ctx req w = ((resp, err), req', w')"
  shows "resp = None \<and> err \<noteq> None"
proof (cases req)
  case (Some r)
  obtain e w1 where e: "ctx_Err E ctx w = (e, w1)" by fastforce
  then have "w_tls w1 = w_tls w" by simp
  with assms Some e show ?thesis
    by (auto simp: tls_RoundTrip_def acquire_def Let_def split: option.splits)
qed (use assms in \<open>auto simp: tls_RoundTrip_def\<close>)

text \<open>A response never carries more than the limit.\<close>

lemma read_response_bounded:
  "read_response resp = (Some r, e) \<Longrightarrow> length (rp_Body r) \<le> maxResponseBytes"
  by (auto simp: read_response_def split: sum.splits if_splits)

lemma exchange_bounded:
  "exchange E client ctx r ua x = ((Some resp, e), x') \<Longrightarrow> length (rp_Body resp) \<le> maxResponseBytes"
  using read_response_bounded
  by (fastforce simp: exchange_def split: sum.splits prod.splits)

lemma tls_RoundTrip_bounded:
  "tls_RoundTrip E ctx req w = ((Some resp, e), req', w') \<Longrightarrow> length (rp_Body resp) \<le> maxResponseBytes"
  using exchange_bounded
  by (fastforce simp: tls_RoundTrip_def Let_def split: option.splits sum.splits prod.splits)

text \<open>A round trip gives either a response or an error, never both and never neither.\<close>

lemma read_response_outcome: "read_response r = (resp, err) \<Longrightarrow> (resp = None) \<noteq> (err = None)"
  by (auto simp: read_response_def split: sum.splits if_splits)

lemma exchange_outcome: "exchange E client ctx r ua x = ((resp, err), x') \<Longrightarrow> (resp = None) \<noteq> (err = None)"
  using read_response_outcome
  by (fastforce simp: exchange_def split: sum.splits prod.splits)

lemma tls_RoundTrip_outcome:
  "tls_RoundTrip E ctx req w = ((resp, err), req', w') \<Longrightarrow> (resp = None) \<noteq> (err = None)"
  using exchange_outcome
  by (fastforce simp: tls_RoundTrip_def Let_def split: option.splits sum.splits prod.splits)

text \<open>A cookie scope keeps its jar: acquiring never replaces the jar of a scope.\<close>

lemma jar_for_stable:
  "map_of (tc_jars c) s = Some j \<Longrightarrow> map_of (tc_jars (snd (jar_for s' c))) s = Some j"
  by (auto simp: jar_for_def split: option.splits)

lemma acquire_keeps_jar:
  assumes "acquire f r ua (c, x) = (res, c', x')" "map_of (tc_jars c) s = Some j"
  shows "map_of (tc_jars c') s = Some j"
proof -
  obtain k c1 where k: "jar_for (rq_CookieScope r) c = (k, c1)" by fastforce
  then have "map_of (tc_jars c1) s = Some j"
    using jar_for_stable [OF assms(2), of "rq_CookieScope r"] by simp
  with assms k show ?thesis
    by (auto simp: acquire_def Let_def split: if_splits option.splits prod.splits sum.splits)
qed

text \<open>A client made for a key is the one handed out for that key from then on.\<close>

lemma acquire_again:
  assumes "acquire f r ua (c, x) = (Inr client, c', x')"
  shows "\<not> tc_closed c \<and> map_of (tc_clients c') (client_key_of r ua) = Some client"
proof -
  obtain k c1 where k: "jar_for (rq_CookieScope r) c = (k, c1)" by fastforce
  with assms show ?thesis
    by (auto simp: acquire_def Let_def split: if_splits option.splits prod.splits sum.splits)
qed

text \<open>A positive timeout never becomes the \<open>0\<close> that means no timeout.\<close>

lemma round_pos_bounds:
  assumes "pow2 (- 1074) \<le> x"
  shows "pow2 (ulp_exp x) \<le> round_pos x \<and> round_pos x \<le> 2 * x"
proof -
  have pos: "0 < x" using assms pow2_pos [of "- 1074"] by linarith
  have e: "pow2 (ulp_exp x) \<le> x"
  proof (cases "ulp_exp x = - 1074")
    case False
    then have "ulp_exp x \<le> ilog2 x" by (auto simp: ulp_exp_def)
    then have "pow2 (ulp_exp x) \<le> pow2 (ilog2 x)" by (rule pow2_mono)
    also have "\<dots> \<le> x" using pos by (rule ilog2_lower)
    finally show ?thesis .
  qed (use assms in simp)
  define y where "y = x / pow2 (ulp_exp x)"
  have ne: "pow2 (ulp_exp x) \<noteq> 0" using pow2_pos [of "ulp_exp x"] by linarith
  then have x: "x = y * pow2 (ulp_exp x)" by (simp add: y_def)
  from e have y: "1 \<le> y" by (simp add: y_def pow2_pos)
  then have "1 \<le> \<lfloor>y\<rfloor>" by simp
  then have "1 \<le> rne y" using rne_bounds(1) [of y] by linarith
  then have low: "(1::rat) \<le> of_int (rne y)" by simp
  have "of_int (rne y) \<le> 2 * y"
    using rne_error [of y] y by (simp add: abs_if split: if_splits)
  then have "of_int (rne y) * pow2 (ulp_exp x) \<le> 2 * y * pow2 (ulp_exp x)"
    by (rule mult_right_mono [OF _ less_imp_le [OF pow2_pos]])
  moreover have "1 * pow2 (ulp_exp x) \<le> of_int (rne y) * pow2 (ulp_exp x)"
    using low by (rule mult_right_mono [OF _ less_imp_le [OF pow2_pos]])
  ultimately show ?thesis
    using ne by (simp add: round_pos_def Let_def y_def)
qed

lemma ilog2_of_int: "0 < n \<Longrightarrow> - 1 \<le> ilog2 (of_int n)"
proof -
  assume n: "0 < n"
  then have "1 \<le> floorlog 2 (nat n)" by (intro floorlog_two(3)) simp
  moreover have "floorlog 2 (nat 1) = 1" by (simp add: floorlog_eq_zero_iff compute_floorlog)
  ultimately show ?thesis
    by (simp add: ilog2_def Let_def Rat.of_int_def quotient_of_Fract)
qed

lemma timeoutMilliseconds_pos:
  assumes "0 < t" "int64_range t"
  shows "0 < timeoutMilliseconds t"
proof -
  have t1: "pow2 (- 1074) \<le> (of_int t :: rat)"
  proof -
    have "pow2 (- 1074) \<le> pow2 0" by (rule pow2_mono) simp
    also have "\<dots> \<le> of_int t" using assms(1) by (simp add: pow2_def)
    finally show ?thesis .
  qed
  define r where "r = round_pos (of_int t)"
  from round_pos_bounds [OF t1] have r: "pow2 (ulp_exp (of_int t)) \<le> r" "r \<le> 2 * of_int t"
    by (simp_all add: r_def)
  have "- 53 \<le> ulp_exp (of_int t)"
    using ilog2_of_int [OF assms(1)] by (simp add: ulp_exp_def)
  then have "pow2 (- 53) \<le> r" using r(1) pow2_mono by (metis order_trans)
  then have rpos: "0 < r" and rlow: "1 / 2 ^ 53 \<le> r" using pow2_pos [of "- 53"] by (simp_all add: pow2_def)
  have "(of_int t :: rat) \<le> of_int (2 ^ 63)" using assms(2) unfolding int64_range_def of_int_le_iff by simp
  then have rup: "r \<le> 2 ^ 64" using r(2) by simp
  then have "r < pow2 1024"
  proof -
    have "(2::rat) ^ 64 < 2 ^ 1024" by (rule power_strict_increasing) simp_all
    then show ?thesis using rup by (simp add: pow2_def)
  qed
  then have f: "f_of_int t = Fin r"
    using assms(1) rpos by (simp add: f_of_int_def round_f64_def Let_def r_def)
  define q where "q = r / 1000000"
  have qpos: "0 < q" using rpos by (simp add: q_def)
  have "1 / 2 ^ 1074 \<le> (1 / 2 ^ 53) / (1000000 :: rat)" by simp
  also have "\<dots> \<le> q" unfolding q_def using rlow by (intro divide_right_mono) simp_all
  finally have q1: "pow2 (- 1074) \<le> q" by (simp add: pow2_def)
  from round_pos_bounds [OF q1] have rq: "0 < round_pos q" "round_pos q \<le> 2 * q"
    using pow2_pos [of "ulp_exp q"] by linarith+
  have "q \<le> r" using rpos by (simp add: q_def)
  then have "round_pos q \<le> 2 ^ 65" using rq(2) rup by simp
  moreover have "(2::rat) ^ 65 < 2 ^ 1024" by (rule power_strict_increasing) simp_all
  ultimately have "round_pos q < pow2 1024" by (simp add: pow2_def)
  then have "f_val (round_f64 q) = round_pos q"
    using qpos rq(1) by (simp add: round_f64_def Let_def)
  then show ?thesis
    using assms(1) rq(1) by (simp add: timeoutMilliseconds_def f q_def)
qed

section \<open>Concurrent callers\<close>

text \<open>
  The critical sections under any interleaving of callers: a caller gets a client
  (\<open>acquire\<close>), uses it, and gives its place back (the deferred \<open>inflight.Done\<close>); one
  closer marks the client closed, waits until nothing is in flight, and closes the idle
  connections. \<open>cs_active\<close> are the clients handed out and not given back, \<open>cs_done\<close> tells
  that \<open>closeDone\<close> has been closed. The timeout of a request is a \<open>time.Duration\<close>, an \<open>int64\<close>.
\<close>

record ('c, 'x) conc_state =
  cs_tls :: "'c tls_client"
  cs_ext :: 'x
  cs_active :: "'c list"
  cs_done :: bool

inductive conc_step ::
  "(client_config \<Rightarrow> 'x \<Rightarrow> (goerror + 'c) \<times> 'x) \<Rightarrow> ('c, 'x) conc_state \<Rightarrow> ('c, 'x) conc_state \<Rightarrow> bool"
  for f where
  got: "acquire f r ua (cs_tls s, cs_ext s) = (Inr client, c, x) \<Longrightarrow> int64_range (rq_Timeout r) \<Longrightarrow>
     conc_step f s (s\<lparr>cs_tls := c, cs_ext := x, cs_active := client # cs_active s\<rparr>)"
| refused: "acquire f r ua (cs_tls s, cs_ext s) = (Inl err, c, x) \<Longrightarrow> int64_range (rq_Timeout r) \<Longrightarrow>
     conc_step f s (s\<lparr>cs_tls := c, cs_ext := x\<rparr>)"
| given_back: "client \<in> set (cs_active s) \<Longrightarrow>
     conc_step f s (s\<lparr>cs_tls := release (cs_tls s), cs_active := remove1 client (cs_active s)\<rparr>)"
| close_mark: "\<not> tc_closed (cs_tls s) \<Longrightarrow> conc_step f s (s\<lparr>cs_tls := close_begin (cs_tls s)\<rparr>)"
| close_end: "tc_closed (cs_tls s) \<Longrightarrow> \<not> cs_done s \<Longrightarrow> tc_inflight (cs_tls s) = 0 \<Longrightarrow>
     conc_step f s (s\<lparr>cs_tls := close_finish (cs_tls s), cs_done := True\<rparr>)"
| outside: "conc_step f s (s\<lparr>cs_ext := x\<rparr>)"

inductive conc_reach ::
  "(client_config \<Rightarrow> 'x \<Rightarrow> (goerror + 'c) \<times> 'x) \<Rightarrow> ('c, 'x) conc_state \<Rightarrow> bool" for f where
  start: "conc_reach f \<lparr>cs_tls = newTLSClient, cs_ext = x, cs_active = [], cs_done = False\<rparr>"
| step: "conc_reach f s \<Longrightarrow> conc_step f s s' \<Longrightarrow> conc_reach f s'"

inductive_cases conc_stepE: "conc_step f s s'"

definition conc_inv :: "('c, 'x) conc_state \<Rightarrow> bool" where
  "conc_inv s \<longleftrightarrow>
     tc_inflight (cs_tls s) = length (cs_active s) \<and>
     (cs_done s \<longrightarrow> tc_closed (cs_tls s) \<and> cs_active s = [] \<and> tc_clients (cs_tls s) = [] \<and> tc_jars (cs_tls s) = [])"

lemma acquire_closed: "tc_closed c \<Longrightarrow> acquire f r ua (c, x) = (Inl (Sentinel TlsErrClosed), c, x)"
  by (simp add: acquire_def Let_def)

lemma conc_step_inv: "conc_step f s s' \<Longrightarrow> conc_inv s \<Longrightarrow> conc_inv s'"
proof (induction rule: conc_step.induct)
  case (got r ua s client c x)
  then have "\<not> tc_closed (cs_tls s)" using acquire_again by metis
  with got acquire_inflight [OF got(1)] show ?case by (auto simp: conc_inv_def)
next
  case (refused r ua s err c x)
  show ?case
  proof (cases "tc_closed (cs_tls s)")
    case True
    with refused show ?thesis by (auto simp: conc_inv_def acquire_closed)
  next
    case False
    with refused acquire_inflight [OF refused(1)] show ?thesis by (auto simp: conc_inv_def)
  qed
qed (auto simp: conc_inv_def release_def close_begin_def close_finish_def length_remove1)

lemma conc_reach_inv: "conc_reach f s \<Longrightarrow> conc_inv s"
  by (induction rule: conc_reach.induct)
     (auto simp: conc_inv_def newTLSClient_def dest: conc_step_inv [unfolded conc_inv_def])

section \<open>Properties\<close>

text \<open>
  C25. A round trip of the TLS client gives a response or an error, never both and never
  neither; a response it gives has at most 16 MiB of body, whatever the server sends; and on
  every way out, errors included, the place in flight is given back.
\<close>

theorem round_trip_is_bounded:
  "case tls_RoundTrip E ctx req w of ((resp, err), req', w') \<Rightarrow>
     (case resp of
        None \<Rightarrow> (\<exists>e. err = Some e)
      | Some r \<Rightarrow> err = None \<and> length (rp_Body r) \<le> maxResponseBytes) \<and>
     tc_inflight (w_tls w') = tc_inflight (w_tls w)"
proof -
  obtain resp err req' w' where t: "tls_RoundTrip E ctx req w = ((resp, err), req', w')" by (metis prod.exhaust)
  note facts = t tls_RoundTrip_frame [OF t] tls_RoundTrip_outcome [OF t]
  show ?thesis
  proof (cases resp)
    case (Some y)
    with facts tls_RoundTrip_bounded [of E ctx req w y err req' w'] show ?thesis by simp
  qed (use facts in auto)
qed

text \<open>A client that was closed before anything was acquired.\<close>

lemma closed_example:
  "conc_reach (\<lambda>_ x. (Inr (), x)) \<lparr>cs_tls = close_finish (close_begin newTLSClient), cs_ext = (), cs_active = [], cs_done = True\<rparr>"
proof -
  let ?f = "\<lambda>(_ :: client_config) x. (Inr () :: goerror + unit, x :: unit)"
  let ?s = "\<lparr>cs_tls = newTLSClient, cs_ext = (), cs_active = [], cs_done = False\<rparr>"
  have "conc_reach ?f ?s" by (rule conc_reach.start)
  moreover have "conc_step ?f ?s (?s\<lparr>cs_tls := close_begin (cs_tls ?s)\<rparr>)"
    by (rule close_mark) (simp add: newTLSClient_def)
  ultimately have r: "conc_reach ?f (?s\<lparr>cs_tls := close_begin (cs_tls ?s)\<rparr>)" by (rule conc_reach.step)
  have "conc_step ?f (?s\<lparr>cs_tls := close_begin (cs_tls ?s)\<rparr>)
     ((?s\<lparr>cs_tls := close_begin (cs_tls ?s)\<rparr>)\<lparr>cs_tls := close_finish (cs_tls (?s\<lparr>cs_tls := close_begin (cs_tls ?s)\<rparr>)), cs_done := True\<rparr>)"
    by (rule close_end) (simp_all add: close_begin_def newTLSClient_def)
  from conc_reach.step [OF r this] show ?thesis by simp
qed

text \<open>
  C24. Closing waits for the requests in flight: in every interleaving of requests and a close,
  the counter of places in flight is the number of clients handed out and not given back; and
  once the close is done, none is out, no client and no cookie jar is left, and a new request
  is refused.
\<close>

theorem close_waits_for_requests:
  assumes "conc_reach f s"
  shows "tc_inflight (cs_tls s) = length (cs_active s) \<and>
    (if cs_done s then cs_active s = [] \<and> tc_clients (cs_tls s) = [] \<and> tc_jars (cs_tls s) = [] \<and>
       fst (acquire f r ua (cs_tls s, x)) = Inl (Sentinel TlsErrClosed) else True)"
  using conc_reach_inv [OF assms] by (auto simp: conc_inv_def acquire_closed)

lemma close_waits_for_requests_witness:
  "case \<lparr>cs_tls = close_finish (close_begin newTLSClient), cs_ext = (), cs_active = [], cs_done = True\<rparr> of s \<Rightarrow>
     tc_inflight (cs_tls s) = length (cs_active s) \<and>
     fst (acquire (\<lambda>_ x. (Inr (), x)) zero_request '''' (cs_tls s, ())) = Inl (Sentinel TlsErrClosed)"
  using close_waits_for_requests [OF closed_example, of zero_request "''''" "()"] by simp

text \<open>
  A timeout that is set is never lost: the client of a configuration with a positive timeout,
  however short, is made with a timeout option of a positive number of milliseconds (zero would
  mean no timeout), and with none otherwise.
\<close>

lemma timeout_is_never_dropped:
  assumes "int64_range (cc_timeout cfg)"
  shows "if 0 < cc_timeout cfg
    then \<exists>ms > 0. {n. WithTimeoutMilliseconds n \<in> set (client_options cfg)} = {ms}
    else {n. WithTimeoutMilliseconds n \<in> set (client_options cfg)} = {}"
proof -
  have "{n. WithTimeoutMilliseconds n \<in> set (client_options cfg)} =
      (if 0 < cc_timeout cfg then {timeoutMilliseconds (cc_timeout cfg)} else {})"
    by (auto simp: client_options_def split: option.splits)
  then show ?thesis using timeoutMilliseconds_pos [OF _ assms] by auto
qed

lemma timeout_is_never_dropped_witness:
  "\<exists>ms > 0. {n. WithTimeoutMilliseconds n \<in> set (client_options
     \<lparr>cc_profileName = '''', cc_profile = Chrome_146, cc_proxy = '''', cc_timeout = 1, cc_disableRedirect = True,
      cc_jar = None\<rparr>)} = {ms}"
  using timeout_is_never_dropped [where cfg = "\<lparr>cc_profileName = '''', cc_profile = Chrome_146, cc_proxy = '''',
     cc_timeout = 1, cc_disableRedirect = True, cc_jar = None\<rparr>"]
  by (simp add: int64_range_def)

end
