(* ===== verification/MtTransport.thy ===== *)
theory MtTransport
  imports TlsClient
begin

text \<open>
  The middleware of \<open>pkg/apikit/internal/mttransport\<close>: the session identity (\<open>state.go\<close>),
  the cookie scope (\<open>cookies.go\<close>), the default headers (\<open>headers.go\<close>), the identity headers
  (\<open>identity.go\<close>) and the endpoint that must not be authenticated (\<open>unix.go\<close>), with the
  chain that the M-Team clients build from them. The \<open>Identity\<close> of the package and the
  \<open>AuthState\<close> types of the clients have the fields of \<open>domain.AuthState\<close> and are the same
  record here. The identity is shared by the middleware and the session, so the identity
  middleware works on pairs of an identity and a world.
\<close>

section \<open>The identity\<close>

type_synonym identity = auth_state

definition UpdateDID :: "string \<Rightarrow> identity \<Rightarrow> identity" where
  "UpdateDID did s = (if did = '''' then s else s\<lparr>DID := did\<rparr>)"

lemma rotated_UpdateDID_fields [simp]:
  "Token (UpdateDID d s) = Token s" "VisitorID (UpdateDID d s) = VisitorID s"
  "DID (UpdateDID d s) = (if d = '''' then DID s else d)"
  by (simp_all add: UpdateDID_def)

text \<open>The object that holds the identity of a session; its methods allow a nil pointer, \<open>None\<close>.\<close>

definition NewState :: "identity \<Rightarrow> identity option" where
  "NewState s = Some s"

definition state_Snapshot :: "identity option \<Rightarrow> identity" where
  "state_Snapshot s = (case s of None \<Rightarrow> no_auth_state | Some i \<Rightarrow> i)"

definition state_Set :: "identity \<Rightarrow> identity option \<Rightarrow> identity option" where
  "state_Set nxt s = map_option (\<lambda>_. nxt) s"

definition state_UpdateDID :: "string \<Rightarrow> identity option \<Rightarrow> identity option" where
  "state_UpdateDID did s = (if s = None \<or> did = '''' then s else map_option (UpdateDID did) s)"

lemma state_Snapshot_simps [simp]:
  "state_Snapshot (NewState i) = i" "state_Snapshot (state_Set j (Some i)) = j"
  "state_Snapshot (state_UpdateDID did (Some i)) = UpdateDID did i"
  by (simp_all add: state_Snapshot_def NewState_def state_Set_def state_UpdateDID_def UpdateDID_def)

section \<open>Middleware\<close>

record headers_config =
  hc_Referer :: string
  hc_UserAgent :: string
  hc_Version :: string
  hc_WebVersion :: string

definition cookieScope :: string where
  "cookieScope = ''mteam''"

definition CookieScope :: "'w round_trip \<Rightarrow> 'w round_trip" where
  "CookieScope nxt ctx req w = nxt ctx (map_option (\<lambda>r. r\<lparr>rq_CookieScope := cookieScope\<rparr>) req) w"

definition set_default :: "string \<Rightarrow> string \<Rightarrow> strmap \<Rightarrow> strmap" where
  "set_default key val h = (if mget h key = '''' then mset_key h key val else h)"

definition default_headers ::
  "('c, 'x) env \<Rightarrow> headers_config \<Rightarrow> request \<Rightarrow> ('c, 'x) world \<Rightarrow> request \<times> ('c, 'x) world" where
  "default_headers E cfg r w =
     (let ua = (if rq_UserAgent r = '''' then hc_UserAgent cfg else rq_UserAgent r);
          h = set_default ''Accept'' ''application/json;charset=UTF-8''
                (set_default ''referer'' (hc_Referer cfg) (rq_Headers r))
      in case (if mget h ''Ts'' = ''''
               then (case now E w of (t, w) \<Rightarrow> (mset_key h ''Ts'' (int_dec (t div 1000000000)), w))
               else (h, w)) of
           (h, w) \<Rightarrow>
             (r\<lparr>rq_UserAgent := ua,
                rq_Headers := set_default ''webversion'' (hc_WebVersion cfg)
                                (set_default ''version'' (hc_Version cfg) h)\<rparr>, w))"

definition MtHeaders ::
  "('c, 'x) env \<Rightarrow> headers_config \<Rightarrow> ('c, 'x) world round_trip \<Rightarrow> ('c, 'x) world round_trip" where
  "MtHeaders E cfg nxt ctx req w =
     (case req of
        None \<Rightarrow> nxt ctx None w
      | Some r \<Rightarrow> (case default_headers E cfg r w of (r, w) \<Rightarrow> nxt ctx (Some r) w))"

definition deleteHeader :: "string \<Rightarrow> strmap \<Rightarrow> strmap" where
  "deleteHeader key headers = filter (\<lambda>(candidate, _). \<not> equal_fold candidate key) headers"

definition strip_auth :: "request \<Rightarrow> request" where
  "strip_auth r =
     (if contains (rq_URL r) ''/api/system/unix''
      then r\<lparr>rq_Headers := deleteHeader ''Did'' (deleteHeader ''Authorization'' (rq_Headers r))\<rparr> else r)"

definition UnixNoAuth :: "'w round_trip \<Rightarrow> 'w round_trip" where
  "UnixNoAuth nxt ctx req w = nxt ctx (map_option strip_auth req) w"

definition set_nonempty :: "string \<Rightarrow> string \<Rightarrow> strmap \<Rightarrow> strmap" where
  "set_nonempty key val h = (if val \<noteq> '''' then mset_key h key val else h)"

definition identity_headers :: "identity \<Rightarrow> request \<Rightarrow> request" where
  "identity_headers s r =
     r\<lparr>rq_Headers := set_nonempty ''visitorid'' (VisitorID s)
         (set_nonempty ''Did'' (DID s) (set_nonempty ''Authorization'' (Token s) (rq_Headers r)))\<rparr>"

fun first_did :: "strmap \<Rightarrow> string option" where
  "first_did [] = None"
| "first_did ((key, val) # headers) = (if equal_fold key ''Did'' then Some val else first_did headers)"

definition take_did :: "response option \<Rightarrow> identity \<Rightarrow> identity" where
  "take_did resp s =
     (case resp of None \<Rightarrow> s
      | Some r \<Rightarrow> (case first_did (rp_Headers r) of None \<Rightarrow> s | Some v \<Rightarrow> UpdateDID v s))"

definition IdentityHeaders :: "(identity \<times> 'w) round_trip \<Rightarrow> (identity \<times> 'w) round_trip" where
  "IdentityHeaders nxt ctx req sw =
     (case req of
        None \<Rightarrow> nxt ctx None sw
      | Some r \<Rightarrow>
          (case nxt ctx (Some (identity_headers (fst sw) r)) sw of
             ((resp, err), req, (s, w)) \<Rightarrow> ((resp, err), req, (take_did resp s, w))))"

text \<open>A round tripper that knows nothing of the identity, next to one.\<close>

definition beside :: "'w round_trip \<Rightarrow> (identity \<times> 'w) round_trip" where
  "beside rt ctx req sw = (case rt ctx req (snd sw) of (res, req, w) \<Rightarrow> (res, req, (fst sw, w)))"

text \<open>The chain both M-Team clients make in \<open>NewClient\<close>.\<close>

definition mt_chain ::
  "('c, 'x) env \<Rightarrow> headers_config \<Rightarrow> ('c, 'x) world round_trip option \<Rightarrow> ('c, 'x) world round_trip" where
  "mt_chain E cfg base = Chain base [Logging E, Proxy, CookieScope, MtHeaders E cfg, UnixNoAuth]"

section \<open>What goes on the wire\<close>

text \<open>The request as the base of the chain gets it.\<close>

definition wire_request ::
  "('c, 'x) env \<Rightarrow> headers_config \<Rightarrow> logctx \<Rightarrow> request \<Rightarrow> ('c, 'x) world \<Rightarrow> request \<times> ('c, 'x) world" where
  "wire_request E cfg ctx r w =
     (let r = (if rq_Proxy r = '''' then r\<lparr>rq_Proxy := ProxyFromContext ctx\<rparr> else r)
      in case default_headers E cfg (r\<lparr>rq_CookieScope := cookieScope\<rparr>) w of (r, w) \<Rightarrow> (strip_auth r, w))"

lemma mt_chain_wire:
  "mt_chain E cfg (Some base) ctx (Some r) w =
     Logging E (\<lambda>ctx req w. case req of None \<Rightarrow> base ctx None w
       | Some r \<Rightarrow> (case wire_request E cfg ctx r w of (r, w) \<Rightarrow> base ctx (Some r) w)) ctx (Some r) w"
  by (simp add: mt_chain_def Logging_def Proxy_def CookieScope_def MtHeaders_def UnixNoAuth_def
      wire_request_def Let_def split: prod.splits)

lemma map_of_deleteHeader:
  "map_of (deleteHeader key h) k = (if equal_fold k key then None else map_of h k)"
  by (induction h) (auto simp: deleteHeader_def)

lemma mget_deleteHeader [simp]:
  "mget (deleteHeader key h) k = (if equal_fold k key then '''' else mget h k)"
  by (simp add: mget_def map_of_deleteHeader)

lemma mget_set_default [simp]:
  "mget (set_default k v h) j = (if j = k \<and> mget h k = '''' then v else mget h j)"
  by (simp add: set_default_def)

lemma mget_set_nonempty [simp]:
  "mget (set_nonempty k v h) j = (if j = k \<and> v \<noteq> '''' then v else mget h j)"
  by (simp add: set_nonempty_def)

lemma default_headers_frame:
  assumes "default_headers E cfg r w = (r', w')"
  shows "rq_URL r' = rq_URL r \<and> rq_Method r' = rq_Method r \<and> rq_Body r' = rq_Body r \<and> rq_BodyBytes r' = rq_BodyBytes r
    \<and> rq_Timeout r' = rq_Timeout r \<and> rq_Proxy r' = rq_Proxy r \<and> rq_DisableRedirect r' = rq_DisableRedirect r
    \<and> rq_CookieScope r' = rq_CookieScope r \<and> w_tls w' = w_tls w \<and> w_httplog w' = w_httplog w
    \<and> (\<forall>k. k \<notin> {''Accept'', ''referer'', ''Ts'', ''version'', ''webversion''} \<longrightarrow> mget (rq_Headers r') k = mget (rq_Headers r) k)"
  using assms
  by (auto simp: default_headers_def Let_def now_def split: if_splits prod.splits)

text \<open>On the wire a request to the unix endpoint has no header that names the token or the DID.\<close>

lemma wire_unix:
  assumes "wire_request E cfg ctx r w = (r', w')" "contains (rq_URL r) ''/api/system/unix''"
    and "equal_fold k ''Authorization'' \<or> equal_fold k ''Did''"
  shows "map_of (rq_Headers r') k = None"
proof -
  obtain r1 w1 where d: "default_headers E cfg ((if rq_Proxy r = '''' then r\<lparr>rq_Proxy := ProxyFromContext ctx\<rparr> else r)
      \<lparr>rq_CookieScope := cookieScope\<rparr>) w = (r1, w1)" by fastforce
  from default_headers_frame [OF this] have "rq_URL r1 = rq_URL r" by (auto split: if_splits)
  with assms d show ?thesis
    by (auto simp: wire_request_def Let_def strip_auth_def map_of_deleteHeader)
qed

text \<open>Any other request keeps the headers that are not defaults, and has the cookie scope.\<close>

lemma wire_other:
  assumes "wire_request E cfg ctx r w = (r', w')" "\<not> contains (rq_URL r) ''/api/system/unix''"
    and "k \<notin> {''Accept'', ''referer'', ''Ts'', ''version'', ''webversion''}"
  shows "mget (rq_Headers r') k = mget (rq_Headers r) k \<and> rq_CookieScope r' = cookieScope \<and> rq_URL r' = rq_URL r"
proof -
  obtain r1 w1 where d: "default_headers E cfg ((if rq_Proxy r = '''' then r\<lparr>rq_Proxy := ProxyFromContext ctx\<rparr> else r)
      \<lparr>rq_CookieScope := cookieScope\<rparr>) w = (r1, w1)" by fastforce
  have "rq_URL r1 = rq_URL r" "rq_CookieScope r1 = cookieScope" "mget (rq_Headers r1) k = mget (rq_Headers r) k"
    using default_headers_frame [OF d] assms(3) by (auto split: if_splits)
  with assms d show ?thesis
    by (auto simp: wire_request_def Let_def strip_auth_def)
qed

text \<open>The identity middleware sends the three parts it has.\<close>

lemma identity_headers_sent [simp]:
  "Token s \<noteq> '''' \<Longrightarrow> mget (rq_Headers (identity_headers s r)) ''Authorization'' = Token s"
  "DID s \<noteq> '''' \<Longrightarrow> mget (rq_Headers (identity_headers s r)) ''Did'' = DID s"
  "VisitorID s \<noteq> '''' \<Longrightarrow> mget (rq_Headers (identity_headers s r)) ''visitorid'' = VisitorID s"
  by (simp_all add: identity_headers_def)

lemma identity_headers_URL [simp]: "rq_URL (identity_headers s r) = rq_URL r"
  by (simp add: identity_headers_def)

text \<open>A round trip through it only ever replaces the DID, and by a value that is not empty.\<close>

lemma take_did_rotates:
  "Token (take_did resp s) = Token s \<and> VisitorID (take_did resp s) = VisitorID s
     \<and> (DID (take_did resp s) = DID s \<or> DID (take_did resp s) \<noteq> '''')"
  by (auto simp: take_did_def split: option.splits)

lemma beside_frame: "beside rt ctx req (s, w) = (res, req', (s', w')) \<Longrightarrow> s' = s"
  by (auto simp: beside_def split: prod.splits)

section \<open>The log and the places in flight\<close>

text \<open>
  What every round trip of a chain over the TLS client keeps: the number of requests in
  flight, whether the client is closed, and the log so far.
\<close>

definition grows :: "('c, 'x) world \<Rightarrow> ('c, 'x) world \<Rightarrow> bool" where
  "grows w w' \<longleftrightarrow> tc_inflight (w_tls w') = tc_inflight (w_tls w) \<and> tc_closed (w_tls w') = tc_closed (w_tls w)
     \<and> (\<exists>l. w_httplog w' = w_httplog w @ l)"

lemma grows_refl [simp, intro]: "grows w w"
  by (simp add: grows_def)

lemma grows_trans: "grows a b \<Longrightarrow> grows b c \<Longrightarrow> grows a c"
  by (auto simp: grows_def)

lemma grows_same: "w_tls w' = w_tls w \<Longrightarrow> w_httplog w' = w_httplog w \<Longrightarrow> grows w w'"
  by (simp add: grows_def)

lemma grows_now: "now E w = (t, w') \<Longrightarrow> grows w w'"
  by (auto simp: now_def grows_def split: prod.splits)

lemma grows_ctx_Err: "ctx_Err E c w = (e, w') \<Longrightarrow> grows w w'"
  by (auto simp: ctx_Err_def grows_def split: prod.splits)

lemma grows_draw: "draw E n w = (r, w') \<Longrightarrow> grows w w'"
  by (auto simp: draw_def grows_def split: prod.splits)

lemma grows_Intn: "Intn E n w = (r, w') \<Longrightarrow> grows w w'"
  by (auto simp: Intn_def grows_def split: prod.splits)

lemma grows_tls: "tls_RoundTrip E ctx req w = (res, req', w') \<Longrightarrow> grows w w'"
  by (drule tls_RoundTrip_frame) (simp add: grows_def)

lemma wire_request_grows: "wire_request E cfg ctx r w = (r', w') \<Longrightarrow> grows w w'"
proof -
  assume a: "wire_request E cfg ctx r w = (r', w')"
  obtain r1 w1 where d: "default_headers E cfg ((if rq_Proxy r = '''' then r\<lparr>rq_Proxy := ProxyFromContext ctx\<rparr> else r)
      \<lparr>rq_CookieScope := cookieScope\<rparr>) w = (r1, w1)" by fastforce
  from default_headers_frame [OF this] a d show "grows w w'"
    by (auto simp: wire_request_def Let_def grows_def)
qed

section \<open>Properties\<close>



end
