(* ===== verification/MtProto.thy ===== *)
theory MtProto
  imports MtTransport Json GoText
begin

text \<open>
  The M-Team protocol of \<open>pkg/apikit/internal/mtproto/response.go\<close>: decoding the envelope of
  an API response and mapping HTTP statuses and business codes to the protocol's four errors.
  A \<open>json.RawMessage\<close> is the parsed value, or \<open>None\<close> where the field was absent.
\<close>

definition status_ok :: int where
  "status_ok = 200"

definition status_unauthorized :: int where
  "status_unauthorized = 401"

record api_response =
  ar_Code :: string
  ar_Message :: string
  ar_Data :: "json option"

definition zero_api_response :: api_response where
  "zero_api_response = \<lparr>ar_Code = '''', ar_Message = '''', ar_Data = None\<rparr>"

record raw_response =
  raw_Code :: "json option"
  raw_Message :: string
  raw_Data :: "json option"

definition raw_field :: "string \<Rightarrow> json \<Rightarrow> raw_response \<Rightarrow> raw_response option" where
  "raw_field k v r =
     (if equal_fold k ''code'' then Some (r\<lparr>raw_Code := Some v\<rparr>)
      else if equal_fold k ''message''
      then map_option (\<lambda>m. r\<lparr>raw_Message := m\<rparr>) (decode_string v (raw_Message r))
      else if equal_fold k ''data'' then Some (r\<lparr>raw_Data := Some v\<rparr>)
      else Some r)"

text \<open>
  \<open>UnmarshalJSON\<close>: the code may be a string or a number, which keeps its text; null and an
  absent code leave the empty string, anything else is an error.
\<close>

definition code_text :: "json option \<Rightarrow> string option" where
  "code_text c =
     (case c of
        None \<Rightarrow> Some ''''
      | Some JNull \<Rightarrow> Some ''''
      | Some (JStr s) \<Rightarrow> Some s
      | Some (JNum t) \<Rightarrow> Some t
      | Some _ \<Rightarrow> None)"

definition UnmarshalJSON :: "json \<Rightarrow> api_response option" where
  "UnmarshalJSON doc =
     (case decode_struct raw_field doc \<lparr>raw_Code = None, raw_Message = '''', raw_Data = None\<rparr> of
        None \<Rightarrow> None
      | Some raw \<Rightarrow>
          (case code_text (raw_Code raw) of
             None \<Rightarrow> None
           | Some code \<Rightarrow> Some \<lparr>ar_Code = code, ar_Message = raw_Message raw, ar_Data = raw_Data raw\<rparr>))"

definition decode_response :: "string \<Rightarrow> api_response option" where
  "decode_response body = (case json_parse body of None \<Rightarrow> None | Some doc \<Rightarrow> UnmarshalJSON doc)"

definition ValidateHTTPResponse :: "response option \<Rightarrow> goerror option \<Rightarrow> goerror option" where
  "ValidateHTTPResponse res err =
     (case err of
        Some e \<Rightarrow> Some e
      | None \<Rightarrow>
          (case res of
             None \<Rightarrow> Some (wrapf (Sentinel ProtoErrBusiness) ''empty response'')
           | Some r \<Rightarrow>
               if rp_Status r = status_unauthorized
               then Some (wrapf (Sentinel ProtoErrAuthFailed) (''status='' @ int_dec (rp_Status r)))
               else if rp_Status r \<noteq> status_ok
               then Some (wrapf (Sentinel ProtoErrHTTPStatus) (''status='' @ int_dec (rp_Status r)))
               else None))"

definition totp_codes :: "string list" where
  "totp_codes = [''1001'', ''10001'']"

definition auth_codes :: "string list" where
  "auth_codes = [''401'', ''NOT_LOGIN'', ''NEED_LOGIN'', ''LOGIN_REQUIRED'', ''AUTH_EXPIRED'']"

text \<open>\<open>je\<close> is the text of the JSON error.\<close>

definition ParseResponse :: "string \<Rightarrow> response option \<Rightarrow> goerror option \<Rightarrow> goerror + api_response" where
  "ParseResponse je res err =
     (case ValidateHTTPResponse res err of
        Some e \<Rightarrow> Inl e
      | None \<Rightarrow>
          (case decode_response (case res of None \<Rightarrow> '''' | Some r \<Rightarrow> rp_Body r) of
             None \<Rightarrow> Inl (wrapf (Sentinel ProtoErrBusiness) (''decode response: '' @ je))
           | Some body \<Rightarrow>
               if ar_Code body = ''0'' then Inr body
               else
                 (let detail = ''code='' @ ar_Code body
                  in if ar_Code body \<in> set totp_codes then Inl (wrapf (Sentinel ProtoErrTOTPRequired) detail)
                     else if ar_Code body \<in> set auth_codes then Inl (wrapf (Sentinel ProtoErrAuthFailed) detail)
                     else Inl (wrapf (Sentinel ProtoErrBusiness) detail))))"

section \<open>Lemmas\<close>

text \<open>A response is accepted exactly when the exchange succeeded with status 200 and code 0.\<close>

lemma ParseResponse_ok_iff:
  "ParseResponse je res err = Inr body \<longleftrightarrow>
     err = None \<and> (\<exists>r. res = Some r \<and> rp_Status r = status_ok \<and> decode_response (rp_Body r) = Some body
       \<and> ar_Code body = ''0'')"
  by (auto simp: ParseResponse_def ValidateHTTPResponse_def Let_def status_ok_def status_unauthorized_def
      split: option.splits if_splits)

text \<open>
  When the exchange itself succeeded, the outcome is authentication failure exactly on status
  401, or on status 200 with one of the authentication codes.
\<close>

lemma ParseResponse_auth_iff:
  "(\<exists>e. ParseResponse je (Some r) None = Inl e \<and> errors_is e (Sentinel ProtoErrAuthFailed)) \<longleftrightarrow>
     rp_Status r = status_unauthorized \<or>
     (rp_Status r = status_ok \<and> (\<exists>b. decode_response (rp_Body r) = Some b \<and> ar_Code b \<in> set auth_codes))"
proof -
  have "''0'' \<notin> set auth_codes" "\<forall>c\<in>set auth_codes. c \<notin> set totp_codes"
    by (auto simp: auth_codes_def totp_codes_def)
  then show ?thesis
    by (auto simp: ParseResponse_def ValidateHTTPResponse_def Let_def status_ok_def status_unauthorized_def
        split: option.splits if_splits)
qed

text \<open>An error of the exchange is passed on unchanged.\<close>

lemma ParseResponse_transport_error [simp]: "ParseResponse je res (Some e) = Inl e"
  by (simp add: ParseResponse_def ValidateHTTPResponse_def)

text \<open>Without an error of the exchange, a failure is one of the four of the protocol.\<close>

lemma ParseResponse_error_class:
  "ParseResponse je res None = Inl e \<Longrightarrow>
     \<exists>s d. e = wrapf (Sentinel s) d \<and> s \<in> {ProtoErrAuthFailed, ProtoErrHTTPStatus, ProtoErrTOTPRequired, ProtoErrBusiness}"
  by (fastforce simp: ParseResponse_def ValidateHTTPResponse_def Let_def split: option.splits if_splits)

section \<open>Properties\<close>

text \<open>
  C22. The client takes a response as a success in exactly one case: the exchange returned no
  error, the status is 200, and the body decodes to an object whose code is zero.
\<close>

theorem response_is_accepted_iff:
  "ParseResponse je res err = Inr body \<longleftrightarrow>
     err = None \<and> (\<exists>r. res = Some r \<and> rp_Status r = status_ok \<and> decode_response (rp_Body r) = Some body
       \<and> ar_Code body = ''0'')"
  by (rule ParseResponse_ok_iff)

end
