(* ===== verification/Messages.thy ===== *)
theory Messages
  imports Domain
begin

text \<open>
  The notification messages of \<open>internal/refresh/message.go\<close>: their levels and kinds,
  \<open>formatProfile\<close> and \<open>buildMessage\<close>. A \<open>*domain.Profile\<close> that may be nil is an
  \<open>option\<close>. The lemmas say what a message may show of an error: its public code and text,
  never its cause.
\<close>

abbreviation newline :: char where
  "newline \<equiv> CHR 0x0A"

type_synonym message_level = string

definition LevelSuccess :: message_level where
  "LevelSuccess = ''success''"

definition LevelWarning :: message_level where
  "LevelWarning = ''warning''"

definition LevelError :: message_level where
  "LevelError = ''error''"

record message =
  Title :: string
  Body :: string
  Level :: message_level

datatype message_kind =
    MessageRefreshFailed
  | MessageRefreshSucceeded
  | MessageIdentityChanged
  | MessageTokenAuthExpired
  | MessagePasswordAuthExpiredRetry
  | MessagePasswordAuthExpiredNextRun
  | MessageReloginFailed
  | MessageIdentityResetFailed

text \<open>\<open>float64(bytes)/1073741824\<close>, printed with \<open>%.2f\<close>.\<close>

definition gib_text :: "int \<Rightarrow> string" where
  "gib_text b = fmt_2f (f_div_const (f_of_int b) 1073741824)"

definition formatProfile :: "profile option \<Rightarrow> bool \<Rightarrow> string" where
  "formatProfile prof success = (case prof of
      None \<Rightarrow> ''''
    | Some p \<Rightarrow>
      if success then
        ''m-team '' @ utf8 [0x8D26, 0x53F7] @ '' '' @
        Username p @
        '' '' @ utf8 [0x5237, 0x65B0, 0x6210, 0x529F] @ [newline] @
              utf8 [0x4E0A, 0x4F20, 0x91CF] @ '': '' @
        gib_text (UploadedBytes p) @
        '' Gb'' @ [newline] @ utf8 [0x4E0B, 0x8F7D, 0x91CF] @ '': '' @
        gib_text (DownloadedBytes p) @
        '' Gb'' @ [newline] @ utf8 [0x9B54, 0x529B, 0x503C] @ '': '' @
        fmt_2f (Bonus p) @
        [newline] @ utf8 [0x4E0A, 0x6B21, 0x767B, 0x5F55, 0x65F6, 0x95F4] @ '': '' @
        LastLogin p @
        [newline] @
              utf8 [0x5237, 0x65B0, 0x524D, 0x4E0A, 0x6B21, 0x8BBF, 0x95EE, 0x65F6, 0x95F4] @
              '': '' @
        LastBrowse p
      else
        utf8 [0x8D26, 0x53F7] @ '': '' @
        Username p @
        [newline] @ utf8 [0x4E0A, 0x4F20, 0x91CF] @ '': '' @
        gib_text (UploadedBytes p) @
        '' Gb'' @ [newline] @ utf8 [0x4E0B, 0x8F7D, 0x91CF] @ '': '' @
        gib_text (DownloadedBytes p) @
        '' Gb'' @ [newline] @ utf8 [0x9B54, 0x529B, 0x503C] @ '': '' @
        fmt_2f (Bonus p))"

definition withPrefix :: "string \<Rightarrow> string \<Rightarrow> string" where
  "withPrefix pre suf =
     (if pre = '''' then suf
      else if suf = '''' then pre
      else pre @ [newline] @ suf)"

definition buildMessage :: "message_kind \<Rightarrow> goerror option \<Rightarrow> profile option \<Rightarrow> message" where
  "buildMessage kind err prof =
    (let errText = (case err of None \<Rightarrow> '''' | Some e \<Rightarrow> PublicMessage (Some e))
     in case kind of
         MessageRefreshSucceeded \<Rightarrow>
         \<lparr>Title = ''m-team '' @ utf8 [0x8D26, 0x53F7, 0x5237, 0x65B0, 0x6210, 0x529F],
           Body = formatProfile prof True,
           Level = LevelSuccess\<rparr>
       | MessageIdentityChanged \<Rightarrow>
         \<lparr>Title = ''m-team '' @ utf8 [0x5237, 0x65B0, 0x5DF2, 0x7EC8, 0x6B62],
           Body = errText,
           Level = LevelWarning\<rparr>
       | MessageTokenAuthExpired \<Rightarrow>
         \<lparr>Title = ''m-team '' @ utf8 [0x767B, 0x5F55, 0x4FDD, 0x6D3B, 0x5931, 0x8D25],
           Body = withPrefix errText
             (''Token '' @
              utf8 [0x8BA4, 0x8BC1, 0x4FE1, 0x606F, 0x53EF, 0x80FD, 0x5DF2, 0x8FC7, 0x671F, 0xFF0C] @
              utf8 [0x8BF7, 0x66F4, 0x65B0] @ '' conf/app.toml '' @
              utf8 [0x4E2D, 0x7684] @ '' mt.token_auth.auth'' @ utf8 [0x3001] @
              ''mt.token_auth.did'' @ utf8 [0x3001] @ ''mt.token_auth.visitor_id '' @
              utf8 [0x540E, 0x91CD, 0x542F, 0x3002]),
           Level = LevelError\<rparr>
       | MessagePasswordAuthExpiredRetry \<Rightarrow>
         \<lparr>Title = ''m-team '' @ utf8 [0x767B, 0x5F55, 0x5DF2, 0x8FC7, 0x671F],
           Body = withPrefix errText
             (utf8 [0x8D26, 0x53F7, 0x5BC6, 0x7801, 0x6A21, 0x5F0F, 0x767B, 0x5F55, 0x5DF2, 0x8FC7] @
              utf8 [0x671F, 0xFF0C, 0x672C, 0x5730] @ '' token'' @ utf8 [0x3001] @
              ''DID'' @ utf8 [0x3001] @ ''visitorid '' @
              utf8 [0x5DF2, 0x6E05, 0x9664, 0x3002] @ [newline] @
              utf8 [0x672C, 0x6B21, 0x5C06, 0x7ACB, 0x5373, 0x91CD, 0x65B0, 0x767B, 0x5F55, 0x3002]),
           Level = LevelWarning\<rparr>
       | MessagePasswordAuthExpiredNextRun \<Rightarrow>
         \<lparr>Title = ''m-team '' @ utf8 [0x767B, 0x5F55, 0x5DF2, 0x8FC7, 0x671F],
           Body = withPrefix errText
             (utf8 [0x8D26, 0x53F7, 0x5BC6, 0x7801, 0x6A21, 0x5F0F, 0x767B, 0x5F55, 0x5DF2, 0x8FC7] @
              utf8 [0x671F, 0xFF0C, 0x672C, 0x5730] @ '' token'' @ utf8 [0x3001] @
              ''DID'' @ utf8 [0x3001] @ ''visitorid '' @
              utf8 [0x5DF2, 0x6E05, 0x9664, 0x3002] @ [newline] @
              utf8 [0x4E0B, 0x6B21, 0x5237, 0x65B0, 0x5C06, 0x91CD, 0x65B0, 0x767B, 0x5F55, 0x3002]),
           Level = LevelWarning\<rparr>
       | MessageReloginFailed \<Rightarrow>
         \<lparr>Title = ''m-team '' @ utf8 [0x91CD, 0x65B0, 0x767B, 0x5F55, 0x5931, 0x8D25],
           Body = withPrefix errText
             (utf8 [0x8D26, 0x53F7, 0x5BC6, 0x7801, 0x6A21, 0x5F0F, 0x767B, 0x5F55, 0x5DF2, 0x8FC7] @
              utf8 [0x671F, 0x4E14, 0x91CD, 0x65B0, 0x767B, 0x5F55, 0x5931, 0x8D25, 0xFF0C, 0x8BF7] @
              utf8 [0x68C0, 0x67E5, 0x8D26, 0x53F7, 0x3001, 0x5BC6, 0x7801, 0x6216] @
              '' TOTP '' @ utf8 [0x914D, 0x7F6E, 0x3002] @ [newline] @
              utf8 [0x672C, 0x5730] @ '' token'' @ utf8 [0x3001] @ ''DID'' @
              utf8 [0x3001] @ ''visitorid '' @
              utf8 [0x5DF2, 0x6E05, 0x9664, 0xFF0C, 0x4E0B, 0x6B21, 0x5237, 0x65B0, 0x5C06, 0x518D] @
              utf8 [0x6B21, 0x5C1D, 0x8BD5, 0x767B, 0x5F55, 0x3002]),
           Level = LevelError\<rparr>
       | MessageIdentityResetFailed \<Rightarrow>
         \<lparr>Title = ''m-team '' @ utf8 [0x767B, 0x5F55, 0x72B6, 0x6001, 0x6E05, 0x7406, 0x5931, 0x8D25],
           Body = withPrefix errText
             (utf8 [0x8D26, 0x53F7, 0x5BC6, 0x7801, 0x6A21, 0x5F0F, 0x767B, 0x5F55, 0x5DF2, 0x8FC7] @
              utf8 [0x671F, 0xFF0C, 0x4F46, 0x672C, 0x5730] @ '' token'' @
              utf8 [0x3001] @ ''DID'' @ utf8 [0x3001] @ ''visitorid '' @
              utf8 [0x6E05, 0x7406, 0x5931, 0x8D25, 0xFF0C, 0x65E0, 0x6CD5, 0x786E, 0x8BA4, 0x5F53] @
              utf8 [0x524D, 0x8EAB, 0x4EFD, 0x72B6, 0x6001, 0x3002, 0x8BF7, 0x68C0, 0x67E5, 0x672C] @
              utf8 [0x5730, 0x5B58, 0x50A8, 0x6743, 0x9650, 0x540E, 0x91CD, 0x8BD5, 0x3002]),
           Level = LevelError\<rparr>
       | MessageRefreshFailed \<Rightarrow>
         (let body = formatProfile prof False;
             body = (if body \<noteq> '''' then withPrefix body errText else errText)
         in \<lparr>Title = ''m-team '' @ utf8 [0x767B, 0x5F55, 0x4FDD, 0x6D3B, 0x5931, 0x8D25],
           Body = body,
           Level = LevelError\<rparr>))"

text \<open>A message shows of an error what \<open>domain.PublicMessage\<close> shows, and nothing of its cause.\<close>

lemma buildMessage_public_part:
  "buildMessage kind (Some e) prof = buildMessage kind (Some (public_part e)) prof"
  by (simp add: buildMessage_def PublicMessage_public_part)

lemma Level_buildMessage [simp]:
  "Level (buildMessage kind err prof) =
     (case kind of
        MessageRefreshSucceeded \<Rightarrow> LevelSuccess
      | MessageIdentityChanged \<Rightarrow> LevelWarning
      | MessagePasswordAuthExpiredRetry \<Rightarrow> LevelWarning
      | MessagePasswordAuthExpiredNextRun \<Rightarrow> LevelWarning
      | _ \<Rightarrow> LevelError)"
  by (simp add: buildMessage_def Let_def split: message_kind.splits)

lemma level_distinct [simp]:
  "LevelSuccess \<noteq> LevelWarning" "LevelSuccess \<noteq> LevelError" "LevelWarning \<noteq> LevelError"
  "LevelWarning \<noteq> LevelSuccess" "LevelError \<noteq> LevelSuccess" "LevelError \<noteq> LevelWarning"
  by (simp_all add: LevelSuccess_def LevelWarning_def LevelError_def)

section \<open>Properties\<close>

text \<open>
  C31. A message never tells the cause of an error: the text and the level of every kind of
  message about an error are those of the same error with its causes taken away, so only the
  code and the public text of a business error reach the user.
\<close>

theorem message_hides_causes:
  "buildMessage kind (Some e) prof = buildMessage kind (Some (public_part e)) prof"
  by (rule buildMessage_public_part)

end
