(* ===== verification/Contracts.thy ===== *)
theory Contracts
  imports Messages
begin

text \<open>
  The interfaces of \<open>internal/refresh/contracts.go\<close> and the \<open>LoginClient\<close> of
  \<open>internal/refresh/auth_manager.go\<close>, as records of functions over the state of the
  provider: \<open>'s\<close> is the state behind a store, \<open>'n\<close> the state of everything outside the
  process that a client talks to, \<open>'ss\<close> a session object. A Go tuple stays a tuple, with
  the error last. What the refresh package relies on is stated by one locale for each
  interface; the providers interpret them on the model of the code.
\<close>

section \<open>Interfaces\<close>

record 's store_if =
  si_LoadAuthState :: "'s \<Rightarrow> (auth_state \<times> epoch \<times> bool \<times> goerror option) \<times> 's"
  si_LoadAuthAccount :: "'s \<Rightarrow> (string \<times> goerror option) \<times> 's"
  si_SaveAuthState :: "auth_state \<Rightarrow> epoch \<Rightarrow> 's \<Rightarrow> (bool \<times> goerror option) \<times> 's"
  si_SaveAuthAccount :: "string \<Rightarrow> epoch \<Rightarrow> 's \<Rightarrow> (bool \<times> goerror option) \<times> 's"
  si_ResetAuthState :: "'s \<Rightarrow> (epoch \<times> goerror option) \<times> 's"
  si_Close :: "'s \<Rightarrow> goerror option \<times> 's"

record 'n login_if =
  li_GenerateVisitorID :: "'n \<Rightarrow> string \<times> 'n"
  li_Login :: "logctx \<Rightarrow> login_request \<Rightarrow> 'n \<Rightarrow> (auth_state \<times> goerror option) \<times> 'n"

record ('ss, 'n) client_if =
  ci_NewSession :: "auth_state \<Rightarrow> 'ss"
  ci_Warmup :: "logctx \<Rightarrow> 'ss \<times> 'n \<Rightarrow> goerror option \<times> 'ss \<times> 'n"
  ci_Profile :: "logctx \<Rightarrow> 'ss \<times> 'n \<Rightarrow> (profile option \<times> goerror option) \<times> 'ss \<times> 'n"
  ci_BrowseForum :: "logctx \<Rightarrow> 'ss \<times> 'n \<Rightarrow> (bool \<times> goerror option) \<times> 'ss \<times> 'n"
  ci_UpdateLastBrowse :: "logctx \<Rightarrow> 'ss \<times> 'n \<Rightarrow> goerror option \<times> 'ss \<times> 'n"
  ci_Snapshot :: "'ss \<Rightarrow> auth_state"

type_synonym 'n notifier_if = "logctx \<Rightarrow> message \<Rightarrow> 'n \<Rightarrow> goerror option \<times> 'n"

record 'x auth_manager_if =
  ai_Resolve :: "logctx \<Rightarrow> 'x \<Rightarrow> (auth_state \<times> epoch \<times> bool \<times> goerror option) \<times> 'x"
  ai_HandleAuthExpired :: "logctx \<Rightarrow> epoch \<Rightarrow> 'x \<Rightarrow> (auth_state \<times> epoch \<times> bool \<times> goerror option) \<times> 'x"

section \<open>What a store promises\<close>

text \<open>
  The abstract store: one identity, the account it is bound to, and the epoch. Every
  successful operation is described; a failed one leaves the epoch alone.
\<close>

record astore =
  a_state :: auth_state
  a_account :: string
  a_epoch :: epoch

definition a_reset :: "astore \<Rightarrow> astore" where
  "a_reset a = \<lparr>a_state = no_auth_state, a_account = '''', a_epoch = a_epoch a + 1\<rparr>"

locale store_contract =
  fixes S :: "'s store_if"
    and \<alpha> :: "'s \<Rightarrow> astore"
  assumes load_ok:
      "si_LoadAuthState S s = ((st, ep, ok, None), s') \<Longrightarrow>
         st = a_state (\<alpha> s) \<and> ep = a_epoch (\<alpha> s) \<and> \<alpha> s' = \<alpha> s"
    and load_error: "si_LoadAuthState S s = ((st, ep, ok, Some e), s') \<Longrightarrow> \<alpha> s' = \<alpha> s"
    and account_ok:
      "si_LoadAuthAccount S s = ((acc, None), s') \<Longrightarrow> acc = a_account (\<alpha> s) \<and> \<alpha> s' = \<alpha> s"
    and account_error: "si_LoadAuthAccount S s = ((acc, Some e), s') \<Longrightarrow> \<alpha> s' = \<alpha> s"
    and save_ok:
      "si_SaveAuthState S st ep s = ((True, None), s') \<Longrightarrow>
         ep = a_epoch (\<alpha> s) \<and> \<alpha> s' = (\<alpha> s)\<lparr>a_state := st\<rparr>"
    and save_stale:
      "si_SaveAuthState S st ep s = ((False, None), s') \<Longrightarrow> ep \<noteq> a_epoch (\<alpha> s) \<and> \<alpha> s' = \<alpha> s"
    and save_error:
      "si_SaveAuthState S st ep s = ((b, Some e), s') \<Longrightarrow>
         ep = a_epoch (\<alpha> s) \<and> a_epoch (\<alpha> s') = a_epoch (\<alpha> s)"
    and bind_ok:
      "si_SaveAuthAccount S acc ep s = ((True, None), s') \<Longrightarrow>
         ep = a_epoch (\<alpha> s) \<and> \<alpha> s' = (\<alpha> s)\<lparr>a_account := acc\<rparr>"
    and bind_stale:
      "si_SaveAuthAccount S acc ep s = ((False, None), s') \<Longrightarrow> ep \<noteq> a_epoch (\<alpha> s) \<and> \<alpha> s' = \<alpha> s"
    and bind_error:
      "si_SaveAuthAccount S acc ep s = ((b, Some e), s') \<Longrightarrow>
         ep = a_epoch (\<alpha> s) \<and> a_epoch (\<alpha> s') = a_epoch (\<alpha> s)"
    and reset_ok:
      "si_ResetAuthState S s = ((ep, None), s') \<Longrightarrow> \<alpha> s' = a_reset (\<alpha> s) \<and> ep = a_epoch (\<alpha> s')"
    and reset_error:
      "si_ResetAuthState S s = ((ep, Some e), s') \<Longrightarrow> a_epoch (\<alpha> s') = a_epoch (\<alpha> s)"
begin

lemmas store_laws =
  load_ok load_error account_ok account_error save_ok save_stale save_error
  bind_ok bind_stale bind_error reset_ok reset_error

text \<open>A save with the current epoch is never turned away.\<close>

lemma save_current: "si_SaveAuthState S st (a_epoch (\<alpha> s)) s = ((b, None), s') \<Longrightarrow> b"
  by (metis (full_types) save_stale)

lemma bind_current: "si_SaveAuthAccount S acc (a_epoch (\<alpha> s)) s = ((b, None), s') \<Longrightarrow> b"
  by (metis (full_types) bind_stale)

text \<open>A save with any other epoch is turned away, without an error, and changes nothing.\<close>

lemma save_other:
  assumes "ep \<noteq> a_epoch (\<alpha> s)" "si_SaveAuthState S st ep s = ((b, e), s')"
  shows "\<not> b \<and> e = None \<and> \<alpha> s' = \<alpha> s"
proof (cases e)
  case None
  with assms show ?thesis by (metis (full_types) save_ok save_stale)
next
  case (Some err)
  with assms show ?thesis using save_error by blast
qed

end

section \<open>What a login client promises\<close>

locale login_contract =
  fixes L :: "'n login_if"
  assumes visitor_nonempty: "li_GenerateVisitorID L n = (v, n') \<Longrightarrow> v \<noteq> ''''"
    and login_identity:
      "li_Login L ctx req n = ((st, None), n') \<Longrightarrow>
         Token st \<noteq> '''' \<and> DID st \<noteq> '''' \<and> VisitorID st = lr_VisitorID req"
begin

lemma login_complete:
  "li_Login L ctx req n = ((st, None), n') \<Longrightarrow> lr_VisitorID req \<noteq> '''' \<Longrightarrow> Complete st"
  using login_identity by (auto simp: Complete_def)

end

section \<open>What a session promises\<close>

text \<open>
  A new session holds the identity it was made with; the session's calls never change the
  token or the visitor id, and only ever replace the DID by a value that is not empty.
\<close>

definition rotated :: "auth_state \<Rightarrow> auth_state \<Rightarrow> bool" where
  "rotated a b \<longleftrightarrow> Token b = Token a \<and> VisitorID b = VisitorID a \<and> (DID b = DID a \<or> DID b \<noteq> '''')"

lemma rotated_refl [simp]: "rotated a a"
  by (simp add: rotated_def)

lemma rotated_trans: "rotated a b \<Longrightarrow> rotated b c \<Longrightarrow> rotated a c"
  by (auto simp: rotated_def)

lemma rotated_Complete: "rotated a b \<Longrightarrow> Complete a \<Longrightarrow> Complete b"
  by (auto simp: rotated_def Complete_def)

locale session_contract =
  fixes C :: "('ss, 'n) client_if"
  assumes new_session: "ci_Snapshot C (ci_NewSession C st) = st"
    and warmup_rotates: "ci_Warmup C ctx (ss, n) = (r1, ss', n') \<Longrightarrow> rotated (ci_Snapshot C ss) (ci_Snapshot C ss')"
    and profile_rotates: "ci_Profile C ctx (ss, n) = (r2, ss', n') \<Longrightarrow> rotated (ci_Snapshot C ss) (ci_Snapshot C ss')"
    and forum_rotates: "ci_BrowseForum C ctx (ss, n) = (r3, ss', n') \<Longrightarrow> rotated (ci_Snapshot C ss) (ci_Snapshot C ss')"
    and update_rotates: "ci_UpdateLastBrowse C ctx (ss, n) = (r1, ss', n') \<Longrightarrow> rotated (ci_Snapshot C ss) (ci_Snapshot C ss')"
begin

lemmas session_laws = warmup_rotates profile_rotates forum_rotates update_rotates

end

end
