(* ===== verification/MtAuth.thy ===== *)
theory MtAuth
  imports MtProto Contracts
begin

text \<open>
  The login client of \<open>pkg/apikit/apimtauth\<close>: its configuration (\<open>config.go\<close>), its errors
  (\<open>errors.go\<close>), the client (\<open>client.go\<close>) and the login with its one-time password retry
  (\<open>login.go\<close>). \<open>LoginRequest\<close> and \<open>AuthState\<close> of the package have the fields of the domain
  types and are those records.
\<close>

section \<open>Configuration and errors\<close>

record password_auth =
  pw_Username :: string
  pw_Password :: string
  pw_TotpSecret :: string

record token_auth =
  ta_Auth :: string
  ta_DID :: string
  ta_VisitorID :: string

record mt_auth_config =
  mac_APIHost :: string
  mac_Referer :: string
  mac_UserAgent :: string
  mac_Version :: string
  mac_WebVersion :: string
  mac_Proxy :: string
  mac_Timeout :: duration
  mac_PasswordAuth :: password_auth
  mac_TokenAuth :: token_auth

definition mt_auth_Validate :: "mt_auth_config \<Rightarrow> goerror option" where
  "mt_auth_Validate c =
     (let p = mac_PasswordAuth c; t = mac_TokenAuth c;
          hasPassword = pw_Username p \<noteq> '''' \<and> pw_Password p \<noteq> '''';
          hasPasswordPartial = pw_Username p \<noteq> '''' \<or> pw_Password p \<noteq> '''' \<or> pw_TotpSecret p \<noteq> '''';
          hasToken = ta_Auth t \<noteq> '''' \<and> ta_DID t \<noteq> '''' \<and> ta_VisitorID t \<noteq> '''';
          hasTokenPartial = ta_Auth t \<noteq> '''' \<or> ta_DID t \<noteq> '''' \<or> ta_VisitorID t \<noteq> ''''
      in if mac_APIHost c = '''' then Some (ErrText ''mt.api_host is required'')
         else if mac_Timeout c \<le> 0 then Some (ErrText ''mt.timeout must be > 0'')
         else if hasPasswordPartial \<and> \<not> hasPassword
         then Some (ErrText ''mt.password_auth.username and password are required when password_auth is configured'')
         else if hasTokenPartial \<and> \<not> hasToken
         then Some (ErrText ''mt.token_auth.auth, did and visitor_id are required when token_auth is configured'')
         else if \<not> hasPassword \<and> \<not> hasToken
         then Some (ErrText ''either mt.password_auth.username/password or mt.token_auth.auth/did/visitor_id is required'')
         else None)"

definition auth_translateProtocolError :: "goerror \<Rightarrow> goerror" where
  "auth_translateProtocolError err =
     (if errors_is err (Sentinel ProtoErrAuthFailed) then wrapf (Sentinel AuthErrAuthFailed) (Error_text err)
      else if errors_is err (Sentinel ProtoErrHTTPStatus) then wrapf (Sentinel AuthErrHTTPStatus) (Error_text err)
      else if errors_is err (Sentinel ProtoErrTOTPRequired) then wrapf (Sentinel AuthErrTOTPRequired) (Error_text err)
      else if errors_is err (Sentinel ProtoErrBusiness) then wrapf (Sentinel AuthErrBusiness) (Error_text err)
      else err)"

section \<open>The client\<close>

record ('c, 'x) mt_auth_client =
  mc_cfg :: mt_auth_config
  mc_proxyURL :: "string option"
  mc_rt :: "('c, 'x) world round_trip"

definition mt_headers_config :: "mt_auth_config \<Rightarrow> headers_config" where
  "mt_headers_config cfg = \<lparr>hc_Referer = mac_Referer cfg, hc_UserAgent = mac_UserAgent cfg,
     hc_Version = mac_Version cfg, hc_WebVersion = mac_WebVersion cfg\<rparr>"

definition parse_proxy :: "('c, 'x) env \<Rightarrow> string \<Rightarrow> goerror + string option" where
  "parse_proxy E proxy =
     (if proxy = '''' then Inr None else case ev_parse_url E proxy of Inl err \<Rightarrow> Inl err | Inr u \<Rightarrow> Inr (Some u))"

definition auth_NewClient ::
  "('c, 'x) env \<Rightarrow> mt_auth_config \<Rightarrow> ('c, 'x) world round_trip option \<Rightarrow> goerror + ('c, 'x) mt_auth_client" where
  "auth_NewClient E cfg base =
     (case parse_proxy E (mac_Proxy cfg) of
        Inl err \<Rightarrow> Inl err
      | Inr proxyURL \<Rightarrow>
          if base = None then Inl (ErrText ''mteam round tripper is nil'')
          else Inr \<lparr>mc_cfg = cfg, mc_proxyURL = proxyURL, mc_rt = mt_chain E (mt_headers_config cfg) base\<rparr>)"

definition GenerateVisitorID :: "('c, 'x) env \<Rightarrow> ('c, 'x) world \<Rightarrow> string \<times> ('c, 'x) world" where
  "GenerateVisitorID E w =
     (case String (draw E) 32 w of
        (Inr i, w) \<Rightarrow> (i, w)
      | (Inl err, w) \<Rightarrow> (case now E w of (t, w) \<Rightarrow> (int_dec t, w)))"

definition mt_base_request :: "duration \<Rightarrow> string option \<Rightarrow> request" where
  "mt_base_request timeout proxyURL =
     zero_request\<lparr>rq_Server := ''mteam'', rq_Timeout := timeout, rq_DisableRedirect := True,
       rq_Proxy := (case proxyURL of None \<Rightarrow> '''' | Some u \<Rightarrow> u)\<rparr>"

definition Generate :: "('c, 'x) env \<Rightarrow> string \<Rightarrow> ('c, 'x) world \<Rightarrow> (goerror + string) \<times> ('c, 'x) world" where
  "Generate E secret w = (case now E w of (t, w) \<Rightarrow> (generateAt secret (t div 1000000000), w))"

definition login_path :: string where
  "login_path = ''/api/login''"

text \<open>The form, with the one-time password when there is one, and the request that carries it.\<close>

definition login_body :: "login_request \<Rightarrow> string option \<Rightarrow> int \<Rightarrow> string" where
  "login_body req otpCode t =
     values_encode ((case otpCode of None \<Rightarrow> [] | Some tk \<Rightarrow> [(''otpCode'', tk)]) @
       [(''username'', lr_Username req), (''password'', lr_Password req), (''turnstile'', ''''),
        (''_timestamp'', int_dec t), (''_sgin'', Signature ''POST'' login_path t)])"

definition login_api_request :: "('c, 'x) mt_auth_client \<Rightarrow> login_request \<Rightarrow> string option \<Rightarrow> int \<Rightarrow> string \<Rightarrow> request" where
  "login_api_request c req otpCode t did =
     (mt_base_request (mac_Timeout (mc_cfg c)) (mc_proxyURL c))
       \<lparr>rq_URL := ''https://'' @ mac_APIHost (mc_cfg c) @ login_path, rq_Method := ''POST'',
        rq_Body := login_body req otpCode t,
        rq_Headers := [(''Content-Type'', ''application/x-www-form-urlencoded; charset=UTF-8''),
                       (''Did'', did), (''visitorid'', lr_VisitorID req)]\<rparr>"

text \<open>What a successful login response gives.\<close>

definition or_else :: "string \<Rightarrow> string \<Rightarrow> string" where
  "or_else a b = (if a = '''' then b else a)"

definition login_state :: "login_request \<Rightarrow> string \<Rightarrow> strmap \<Rightarrow> goerror + auth_state" where
  "login_state req did headers =
     (let responseDID = or_else (mget headers ''Did'') (mget headers ''did'');
          token = or_else (mget headers ''Authorization'') (mget headers ''authorization'')
      in if trim_space token = ''''
         then Inl (wrapf (Sentinel AuthErrAuthFailed) ''successful login response missing Authorization header'')
         else Inr \<lparr>Token = token, DID = or_else responseDID did, VisitorID = lr_VisitorID req\<rparr>)"

definition otp_code ::
  "('c, 'x) env \<Rightarrow> login_request \<Rightarrow> bool \<Rightarrow> ('c, 'x) world \<Rightarrow> (goerror + string option) \<times> ('c, 'x) world" where
  "otp_code E req otp w =
     (if otp then (case Generate E (lr_TotpSecret req) w of
                     (Inl err, w) \<Rightarrow> (Inl err, w) | (Inr tk, w) \<Rightarrow> (Inr (Some tk), w))
      else (Inr None, w))"

text \<open>\<open>login\<close> calls itself once, with \<open>otp\<close> set, when the server asks for a one-time password.\<close>

function login ::
  "('c, 'x) env \<Rightarrow> ('c, 'x) mt_auth_client \<Rightarrow> logctx \<Rightarrow> login_request \<Rightarrow> bool \<Rightarrow> ('c, 'x) world
     \<Rightarrow> (goerror + auth_state) \<times> ('c, 'x) world" where
  "login E c ctx req otp w =
     (case ctx_Err E ctx w of
        (Some err, w) \<Rightarrow> (Inl err, w)
      | (None, w) \<Rightarrow>
     (case now E w of (tn, w) \<Rightarrow>
      case otp_code E req otp w of
        (Inl err, w) \<Rightarrow> (Inl err, w)
      | (Inr otpCode, w) \<Rightarrow>
     (case String (draw E) 32 w of
        (Inl err, w) \<Rightarrow> (Inl err, w)
      | (Inr did, w) \<Rightarrow>
     (case mc_rt c ctx (Some (login_api_request c req otpCode (tn div 1000000) did)) w of ((res, err), _, w) \<Rightarrow>
      case ParseResponse (ev_json_error E ''login'') res err of
        Inl err \<Rightarrow>
          if errors_is err (Sentinel ProtoErrTOTPRequired) \<and> \<not> otp then login E c ctx req True w
          else (Inl (auth_translateProtocolError err), w)
      | Inr _ \<Rightarrow> (login_state req did (case res of None \<Rightarrow> [] | Some r \<Rightarrow> rp_Headers r), w)))))"
  by pat_completeness auto

termination
  by (relation "measure (\<lambda>(E, c, ctx, req, otp, w). if otp then 0 else 1)") auto

declare login.simps [simp del]

definition Login ::
  "('c, 'x) env \<Rightarrow> ('c, 'x) mt_auth_client \<Rightarrow> logctx \<Rightarrow> login_request \<Rightarrow> ('c, 'x) world
     \<Rightarrow> (goerror + auth_state) \<times> ('c, 'x) world" where
  "Login E c ctx req w =
     (if lr_VisitorID req = '''' then (Inl (ErrText ''visitorid is required''), w)
      else login E c ctx req False w)"

section \<open>Lemmas\<close>

text \<open>A valid configuration has a complete way to authenticate.\<close>

lemma mt_auth_Validate_ok:
  "mt_auth_Validate c = None \<Longrightarrow>
     mac_APIHost c \<noteq> '''' \<and> 0 < mac_Timeout c \<and>
     ((pw_Username (mac_PasswordAuth c) \<noteq> '''' \<and> pw_Password (mac_PasswordAuth c) \<noteq> '''') \<or>
      (ta_Auth (mac_TokenAuth c) \<noteq> '''' \<and> ta_DID (mac_TokenAuth c) \<noteq> '''' \<and> ta_VisitorID (mac_TokenAuth c) \<noteq> ''''))"
  by (auto simp: mt_auth_Validate_def Let_def split: if_splits)

lemma mt_auth_Validate_token_all_or_none:
  "mt_auth_Validate c = None \<Longrightarrow>
     (ta_Auth (mac_TokenAuth c) = '''' \<and> ta_DID (mac_TokenAuth c) = '''' \<and> ta_VisitorID (mac_TokenAuth c) = '''') \<or>
     (ta_Auth (mac_TokenAuth c) \<noteq> '''' \<and> ta_DID (mac_TokenAuth c) \<noteq> '''' \<and> ta_VisitorID (mac_TokenAuth c) \<noteq> '''')"
  by (auto simp: mt_auth_Validate_def Let_def split: if_splits)

lemma or_else_nonempty: "b \<noteq> '''' \<Longrightarrow> or_else a b \<noteq> ''''"
  by (simp add: or_else_def)

lemma trim_space_nonempty: "trim_space s \<noteq> '''' \<Longrightarrow> s \<noteq> ''''"
  by (auto simp: trim_space_def)

lemma login_state_ok:
  "login_state req did headers = Inr st \<Longrightarrow> did \<noteq> '''' \<Longrightarrow>
     Token st \<noteq> '''' \<and> DID st \<noteq> '''' \<and> VisitorID st = lr_VisitorID req"
  by (auto simp: login_state_def Let_def or_else_nonempty dest: trim_space_nonempty split: if_splits)

lemma random_chars_length: "random_chars d n w = (Inr s, w') \<Longrightarrow> length s = n"
  by (induction n arbitrary: w s) (auto split: prod.splits sum.splits)

lemma String_nonempty: "String d 32 w = (Inr s, w') \<Longrightarrow> length s = 32"
  using random_chars_length [of d 32 w s w'] by (simp add: String_def)

lemma int_dec_nonempty: "int_dec i \<noteq> ''''"
  by (simp add: int_dec_def)

lemma GenerateVisitorID_nonempty: "fst (GenerateVisitorID E w) \<noteq> ''''"
proof -
  obtain r w1 where r: "String (draw E) 32 w = (r, w1)" by fastforce
  show ?thesis
  proof (cases r)
    case (Inl err)
    with r show ?thesis by (simp add: GenerateVisitorID_def int_dec_nonempty split: prod.splits)
  next
    case (Inr i)
    with r have "length i = 32" using String_nonempty [of "draw E" w i w1] by simp
    with Inr r show ?thesis by (auto simp: GenerateVisitorID_def)
  qed
qed

lemma login_state_drawn:
  "login_state req did headers = Inr st \<Longrightarrow> String d 32 w = (Inr did, w') \<Longrightarrow>
     Token st \<noteq> '''' \<and> DID st \<noteq> '''' \<and> VisitorID st = lr_VisitorID req"
  using login_state_ok [of req did headers st] String_nonempty [of d w did w'] by (cases did) simp_all

text \<open>Whatever the server answers, a login that succeeds gives a whole identity.\<close>

lemma login_ok_otp:
  "login E c ctx req True w = (Inr st, w') \<Longrightarrow>
     Token st \<noteq> '''' \<and> DID st \<noteq> '''' \<and> VisitorID st = lr_VisitorID req"
  by (subst (asm) login.simps)
     (clarsimp split: prod.splits option.splits sum.splits; rule login_state_drawn; assumption)

lemma login_ok:
  "login E c ctx req otp w = (Inr st, w') \<Longrightarrow>
     Token st \<noteq> '''' \<and> DID st \<noteq> '''' \<and> VisitorID st = lr_VisitorID req"
  by (cases otp, simp add: login_ok_otp, subst (asm) login.simps)
     (clarsimp split: prod.splits option.splits sum.splits if_splits;
      (rule login_ok_otp, assumption | rule login_state_drawn; assumption))

section \<open>Properties\<close>

text \<open>
  C17. A login that succeeds gives a whole identity: a token, a DID, and the visitor id the
  caller asked with, whatever the server answers; a response without a token is a failure.
\<close>

theorem login_gives_a_whole_identity:
  "case Login E c ctx req w of
     (Inl err, w') \<Rightarrow> True
   | (Inr st, w') \<Rightarrow> Token st \<noteq> '''' \<and> DID st \<noteq> '''' \<and> VisitorID st = lr_VisitorID req"
  using login_ok [of E c ctx req False w] by (auto simp: Login_def split: prod.split sum.split)

end
