(* ===== verification/MtBrowse.thy ===== *)
theory MtBrowse
  imports MtAuth
begin

text \<open>
  The browsing session of \<open>pkg/apikit/apimtbrowse\<close>: the configuration and the client
  (\<open>config.go\<close>, \<open>client.go\<close>), the two request paths (\<open>session.go\<close>), the warm-up requests
  (\<open>system.go\<close>), the profile (\<open>profile.go\<close>, \<open>dto_profile.go\<close>), the last-browse update
  (\<open>member.go\<close>) and the forum phases (\<open>forum.go\<close>, \<open>dto_forum.go\<close>). A session is its
  identity; its calls work on the identity and the world.
\<close>

section \<open>Configuration, client, errors\<close>

record mt_browse_config =
  mbc_APIHost :: string
  mbc_Referer :: string
  mbc_UserAgent :: string
  mbc_Version :: string
  mbc_WebVersion :: string
  mbc_Proxy :: string
  mbc_Timeout :: duration

definition mt_browse_Validate :: "mt_browse_config \<Rightarrow> goerror option" where
  "mt_browse_Validate c =
     (if mbc_APIHost c = '''' then Some (ErrText ''mt.api_host is required'')
      else if mbc_Timeout c \<le> 0 then Some (ErrText ''mt.timeout must be > 0'')
      else None)"

record ('c, 'x) mt_browse_client =
  bc_cfg :: mt_browse_config
  bc_proxyURL :: "string option"
  bc_rt :: "('c, 'x) world round_trip"

definition browse_headers_config :: "mt_browse_config \<Rightarrow> headers_config" where
  "browse_headers_config cfg = \<lparr>hc_Referer = mbc_Referer cfg, hc_UserAgent = mbc_UserAgent cfg,
     hc_Version = mbc_Version cfg, hc_WebVersion = mbc_WebVersion cfg\<rparr>"

definition browse_NewClient ::
  "('c, 'x) env \<Rightarrow> mt_browse_config \<Rightarrow> ('c, 'x) world round_trip option \<Rightarrow> goerror + ('c, 'x) mt_browse_client" where
  "browse_NewClient E cfg base =
     (case parse_proxy E (mbc_Proxy cfg) of
        Inl err \<Rightarrow> Inl err
      | Inr proxyURL \<Rightarrow>
          if base = None then Inl (ErrText ''mteam round tripper is nil'')
          else Inr \<lparr>bc_cfg = cfg, bc_proxyURL = proxyURL, bc_rt = mt_chain E (browse_headers_config cfg) base\<rparr>)"

text \<open>A session has the client of the call and a state, whose identity is all that is kept here.\<close>

definition NewSession :: "auth_state \<Rightarrow> identity" where
  "NewSession s = state_Snapshot (NewState \<lparr>Token = Token s, DID = DID s, VisitorID = VisitorID s\<rparr>)"

definition Snapshot :: "identity \<Rightarrow> auth_state" where
  "Snapshot s = (let st = state_Snapshot (Some s) in \<lparr>Token = Token st, DID = DID st, VisitorID = VisitorID st\<rparr>)"

lemma session_identity [simp]: "NewSession s = s" "Snapshot s = s"
  by (simp_all add: NewSession_def Snapshot_def state_Snapshot_def NewState_def)

text \<open>The protocol's sentinel is replaced by the package's, keeping the detail of the text.\<close>

definition retarget :: "goerror \<Rightarrow> sentinel \<Rightarrow> sentinel \<Rightarrow> goerror" where
  "retarget err source target =
     (let detail = trim_prefix (trim_prefix (Error_text err) (sentinel_text source)) '': ''
      in if detail = '''' then Sentinel target else wrapf (Sentinel target) detail)"

definition translateProtocolError :: "goerror \<Rightarrow> goerror" where
  "translateProtocolError err =
     (if errors_is err (Sentinel ProtoErrAuthFailed) then retarget err ProtoErrAuthFailed BrowseErrAuthFailed
      else if errors_is err (Sentinel ProtoErrHTTPStatus) then retarget err ProtoErrHTTPStatus BrowseErrHTTPStatus
      else if errors_is err (Sentinel ProtoErrTOTPRequired) then retarget err ProtoErrTOTPRequired BrowseErrTOTPRequired
      else if errors_is err (Sentinel ProtoErrBusiness) then retarget err ProtoErrBusiness BrowseErrBusiness
      else err)"

definition parseResponse :: "string \<Rightarrow> response option \<Rightarrow> goerror option \<Rightarrow> goerror + api_response" where
  "parseResponse je res err =
     (case ParseResponse je res err of Inl e \<Rightarrow> Inl (translateProtocolError e) | Inr r \<Rightarrow> Inr r)"

section \<open>Requests of a session\<close>

type_synonym ('c, 'x) session = "identity \<times> ('c, 'x) world"

definition on_world :: "('w \<Rightarrow> 'r \<times> 'w) \<Rightarrow> identity \<times> 'w \<Rightarrow> 'r \<times> identity \<times> 'w" where
  "on_world f sw = (case f (snd sw) of (r, w) \<Rightarrow> (r, fst sw, w))"

definition browse_baseRequest :: "('c, 'x) mt_browse_client \<Rightarrow> request" where
  "browse_baseRequest c = mt_base_request (mbc_Timeout (bc_cfg c)) (bc_proxyURL c)"

definition session_buildRequest :: "('c, 'x) mt_browse_client \<Rightarrow> request" where
  "session_buildRequest c =
     (browse_baseRequest c)\<lparr>rq_Headers := [(''origin'', mbc_Referer (bc_cfg c))]\<rparr>"

definition buildCommonParams ::
  "('c, 'x) env \<Rightarrow> string \<Rightarrow> string \<Rightarrow> strmap \<Rightarrow> ('c, 'x) world \<Rightarrow> strmap \<times> ('c, 'x) world" where
  "buildCommonParams E meth path extra w =
     (case now E w of (tn, w) \<Rightarrow>
        let t = tn div 1000000
        in (foldl (\<lambda>m (k, v). mset_key m k v)
              [(''_timestamp'', int_dec t), (''_sgin'', Signature meth path t)] extra, w))"

definition new_boundary :: "('c, 'x) env \<Rightarrow> ('c, 'x) world \<Rightarrow> string \<times> ('c, 'x) world" where
  "new_boundary E w = (case ev_boundary E (w_ext w) of (b, x) \<Rightarrow> (b, w\<lparr>w_ext := x\<rparr>))"

text \<open>The request of \<open>do\<close>: a form for POST, a query for any other method.\<close>

definition do_request ::
  "('c, 'x) env \<Rightarrow> ('c, 'x) mt_browse_client \<Rightarrow> string \<Rightarrow> string \<Rightarrow> strmap \<Rightarrow> ('c, 'x) world
     \<Rightarrow> request \<times> ('c, 'x) world" where
  "do_request E c meth path extraBody w =
     (let req = session_buildRequest c; host = mbc_APIHost (bc_cfg c)
      in case buildCommonParams E meth path extraBody w of (params, w) \<Rightarrow>
         if meth = ''POST''
         then (case new_boundary E w of (b, w) \<Rightarrow>
               case MultipartBody b params of (body, contentType) \<Rightarrow>
                 (req\<lparr>rq_Body := body, rq_Headers := mset_key (rq_Headers req) ''Content-Type'' contentType,
                      rq_URL := https_url host path '''', rq_Method := meth\<rparr>, w))
         else (req\<lparr>rq_Body := '''', rq_Headers := mdel (rq_Headers req) ''Content-Type'',
                   rq_URL := https_url host path (QueryBody params), rq_Method := meth\<rparr>, w))"

definition send ::
  "('c, 'x) mt_browse_client \<Rightarrow> logctx \<Rightarrow> request \<Rightarrow> ('c, 'x) session
     \<Rightarrow> (response option \<times> goerror option) \<times> ('c, 'x) session" where
  "send c ctx req sw =
     (case Chain (Some (beside (bc_rt c))) [IdentityHeaders] ctx (Some req) sw of (res, _, sw) \<Rightarrow> (res, sw))"

definition s_do ::
  "('c, 'x) env \<Rightarrow> ('c, 'x) mt_browse_client \<Rightarrow> logctx \<Rightarrow> string \<Rightarrow> string \<Rightarrow> strmap \<Rightarrow> ('c, 'x) session
     \<Rightarrow> (goerror + api_response) \<times> ('c, 'x) session" where
  "s_do E c ctx meth path extraBody sw =
     (case on_world (ctx_Err E ctx) sw of
        (Some err, sw) \<Rightarrow> (Inl err, sw)
      | (None, sw) \<Rightarrow>
          (case on_world (do_request E c meth path extraBody) sw of (req, sw) \<Rightarrow>
           case send c ctx req sw of ((res, err), sw) \<Rightarrow>
             if path = ''/ping''
             then (case ValidateHTTPResponse res err of
                     None \<Rightarrow> (Inr zero_api_response, sw)
                   | Some e \<Rightarrow> (Inl (translateProtocolError e), sw))
             else (parseResponse (ev_json_error E path) res err, sw)))"

text \<open>
  The request of \<open>doJSON\<close>. The bodies hold strings, numbers and lists of strings, which
  \<open>json.Marshal\<close> never refuses, so the branch of its error does not occur.
\<close>

definition json_request ::
  "('c, 'x) env \<Rightarrow> ('c, 'x) mt_browse_client \<Rightarrow> string \<Rightarrow> string \<Rightarrow> (string \<times> gojson) list \<Rightarrow> ('c, 'x) world
     \<Rightarrow> request \<times> ('c, 'x) world" where
  "json_request E c meth path body w =
     (let req = session_buildRequest c
      in case buildCommonParams E meth path [] w of (params, w) \<Rightarrow>
         let data = marshal (go_map (filter (\<lambda>(k, _). \<not> mhas params k) body @ map (\<lambda>(k, v). (k, GStr v)) params))
         in (req\<lparr>rq_BodyBytes := data, rq_Body := data,
                 rq_Headers := mset_key (rq_Headers req) ''Content-Type'' ''application/json; charset=UTF-8'',
                 rq_URL := https_url (mbc_APIHost (bc_cfg c)) path '''', rq_Method := meth\<rparr>, w))"

definition s_doJSON ::
  "('c, 'x) env \<Rightarrow> ('c, 'x) mt_browse_client \<Rightarrow> logctx \<Rightarrow> string \<Rightarrow> string \<Rightarrow> (string \<times> gojson) list
     \<Rightarrow> ('c, 'x) session \<Rightarrow> (goerror + api_response) \<times> ('c, 'x) session" where
  "s_doJSON E c ctx meth path body sw =
     (case on_world (ctx_Err E ctx) sw of
        (Some err, sw) \<Rightarrow> (Inl err, sw)
      | (None, sw) \<Rightarrow>
          (case on_world (json_request E c meth path body) sw of (req, sw) \<Rightarrow>
           case send c ctx req sw of ((res, err), sw) \<Rightarrow> (parseResponse (ev_json_error E path) res err, sw)))"

section \<open>Warm-up, profile, last browse\<close>

record warmup_endpoint =
  we_Method :: string
  we_Path :: string
  we_ExtMap :: strmap

definition post_endpoint :: "string \<Rightarrow> warmup_endpoint" where
  "post_endpoint path = \<lparr>we_Method = ''POST'', we_Path = path, we_ExtMap = []\<rparr>"

definition WarmupEndpoints :: "warmup_endpoint list" where
  "WarmupEndpoints =
     [\<lparr>we_Method = ''GET'', we_Path = ''/api/system/unix'', we_ExtMap = []\<rparr>,
      \<lparr>we_Method = ''GET'', we_Path = ''/ping'', we_ExtMap = []\<rparr>,
      post_endpoint ''/api/laboratory/funcState'',
      post_endpoint ''/api/fun/first'',
      post_endpoint ''/api/system/state'',
      post_endpoint ''/api/links/view'',
      post_endpoint ''/api/msg/statistic'',
      post_endpoint ''/api/member/profile'',
      post_endpoint ''/api/tracker/myPeerStatus'',
      post_endpoint ''/api/system/sysConf'',
      post_endpoint ''/api/news/list'',
      post_endpoint ''/api/torrent/teamList'',
      post_endpoint ''/api/system/promotion/rules'',
      \<lparr>we_Method = ''POST'', we_Path = ''/api/system/getConf'', we_ExtMap = [(''items'', ''LeechWarn'')]\<rparr>,
      post_endpoint ''/api/examine/getMyActiveList'']"

fun warmup_from ::
  "('c, 'x) env \<Rightarrow> ('c, 'x) mt_browse_client \<Rightarrow> logctx \<Rightarrow> warmup_endpoint list \<Rightarrow> ('c, 'x) session
     \<Rightarrow> goerror option \<times> ('c, 'x) session" where
  "warmup_from E c ctx [] sw = (None, sw)"
| "warmup_from E c ctx (endpoint # endpoints) sw =
     (case on_world (ctx_Err E ctx) sw of
        (Some err, sw) \<Rightarrow> (Some err, sw)
      | (None, sw) \<Rightarrow>
          (case s_do E c ctx (we_Method endpoint) (we_Path endpoint) (we_ExtMap endpoint) sw of
             (Inl err, sw) \<Rightarrow> (Some err, sw)
           | (Inr _, sw) \<Rightarrow> warmup_from E c ctx endpoints sw))"

definition Warmup ::
  "('c, 'x) env \<Rightarrow> ('c, 'x) mt_browse_client \<Rightarrow> logctx \<Rightarrow> ('c, 'x) session \<Rightarrow> goerror option \<times> ('c, 'x) session" where
  "Warmup E c ctx sw = warmup_from E c ctx WarmupEndpoints sw"

definition zero_profile :: profile where
  "zero_profile = \<lparr>Username = '''', UploadedBytes = 0, DownloadedBytes = 0, Bonus = Fin 0,
     LastLogin = '''', LastBrowse = ''''\<rparr>"

text \<open>
  \<open>ProfileData\<close>, decoded straight into the fields of the profile; its \<open>memberStatus\<close> and
  \<open>memberCount\<close> are nested structs.
\<close>

definition status_field :: "string \<Rightarrow> json \<Rightarrow> profile \<Rightarrow> profile option" where
  "status_field k v p =
     (if equal_fold k ''lastLogin'' then map_option (\<lambda>s. p\<lparr>LastLogin := s\<rparr>) (decode_string v (LastLogin p))
      else if equal_fold k ''lastBrowse'' then map_option (\<lambda>s. p\<lparr>LastBrowse := s\<rparr>) (decode_string v (LastBrowse p))
      else Some p)"

definition count_field :: "(string \<Rightarrow> float64 option) \<Rightarrow> string \<Rightarrow> json \<Rightarrow> profile \<Rightarrow> profile option" where
  "count_field pf k v p =
     (if equal_fold k ''bonus'' then map_option (\<lambda>b. p\<lparr>Bonus := b\<rparr>) (decode_quoted_float pf v (Bonus p))
      else if equal_fold k ''uploaded''
      then map_option (\<lambda>i. p\<lparr>UploadedBytes := i\<rparr>) (decode_quoted_int v (UploadedBytes p))
      else if equal_fold k ''downloaded''
      then map_option (\<lambda>i. p\<lparr>DownloadedBytes := i\<rparr>) (decode_quoted_int v (DownloadedBytes p))
      else Some p)"

definition profile_field :: "(string \<Rightarrow> float64 option) \<Rightarrow> string \<Rightarrow> json \<Rightarrow> profile \<Rightarrow> profile option" where
  "profile_field pf k v p =
     (if equal_fold k ''username'' then map_option (\<lambda>s. p\<lparr>Username := s\<rparr>) (decode_string v (Username p))
      else if equal_fold k ''memberStatus'' then decode_struct status_field v p
      else if equal_fold k ''memberCount'' then decode_struct (count_field pf) v p
      else Some p)"

definition decode_profile :: "(string \<Rightarrow> float64 option) \<Rightarrow> json option \<Rightarrow> profile option" where
  "decode_profile pf data =
     (case data of None \<Rightarrow> Some zero_profile | Some v \<Rightarrow> decode_struct (profile_field pf) v zero_profile)"

definition Profile ::
  "('c, 'x) env \<Rightarrow> ('c, 'x) mt_browse_client \<Rightarrow> logctx \<Rightarrow> ('c, 'x) session
     \<Rightarrow> (profile option \<times> goerror option) \<times> ('c, 'x) session" where
  "Profile E c ctx sw =
     (case s_do E c ctx ''POST'' ''/api/member/profile'' [] sw of
        (Inl err, sw) \<Rightarrow> ((None, Some err), sw)
      | (Inr resp, sw) \<Rightarrow>
          (case decode_profile (ev_parse_float E) (ar_Data resp) of
             None \<Rightarrow> ((None, Some (wrapf (Sentinel BrowseErrBusiness)
                       (''profile data decode: '' @ ev_json_error E ''profile data''))), sw)
           | Some p \<Rightarrow> ((Some p, None), sw)))"

definition last_browse_path :: string where
  "last_browse_path = ''/api/member/updateLastBrowse''"

definition UpdateLastBrowse ::
  "('c, 'x) env \<Rightarrow> ('c, 'x) mt_browse_client \<Rightarrow> logctx \<Rightarrow> ('c, 'x) session \<Rightarrow> goerror option \<times> ('c, 'x) session" where
  "UpdateLastBrowse E c ctx sw =
     (case s_do E c ctx ''POST'' last_browse_path [] sw of
        (Inl err, sw) \<Rightarrow> (Some err, sw)
      | (Inr _, sw) \<Rightarrow> (None, sw))"

end
