(* ===== verification/Forum.thy ===== *)
theory Forum
  imports MtBrowse
begin

text \<open>
  The forum browsing of \<open>pkg/apikit/apimtbrowse/forum.go\<close> with the response data of
  \<open>dto_forum.go\<close>: the phases and the run over them, in which only a cancelled context or a
  failed authentication stops the run with an error.
\<close>

section \<open>Response data\<close>

record topic_entry =
  te_ID :: int
  te_Author :: int
  te_LastPostAuthorID :: int

record forums_data =
  fd_ForumsList :: "int list"
  fd_LastPost :: "(string \<times> int) list"

text \<open>A slice field: null gives the empty slice. A map field: later members replace earlier ones.\<close>

definition decode_slice :: "(json \<Rightarrow> 'r option) \<Rightarrow> json \<Rightarrow> 'r list option" where
  "decode_slice f v = (case v of JNull \<Rightarrow> Some [] | JArr vs \<Rightarrow> decode_list f vs | _ \<Rightarrow> None)"

definition decode_map :: "(json \<Rightarrow> 'v option) \<Rightarrow> json \<Rightarrow> (string \<times> 'v) list \<Rightarrow> (string \<times> 'v) list option" where
  "decode_map f v m =
     (case v of JNull \<Rightarrow> Some [] | JObj ms \<Rightarrow> decode_members (\<lambda>k x m. map_option (\<lambda>e. upsert k e m) (f x)) ms m
      | _ \<Rightarrow> None)"

text \<open>A struct with the one interesting field \<open>key\<close> of type \<open>int64\<close>, written as a string.\<close>

definition int_field :: "string \<Rightarrow> string \<Rightarrow> json \<Rightarrow> int \<Rightarrow> int option" where
  "int_field key k v old = (if equal_fold k key then decode_quoted_int v old else Some old)"

definition decode_forums_entry :: "json \<Rightarrow> int option" where
  "decode_forums_entry v = decode_struct (int_field ''id'') v 0"

definition decode_last_post_entry :: "json \<Rightarrow> int option" where
  "decode_last_post_entry v =
     decode_struct (\<lambda>k x a. if equal_fold k ''post'' then decode_struct (int_field ''authorId'') x a else Some a) v 0"

definition forums_field :: "string \<Rightarrow> json \<Rightarrow> forums_data \<Rightarrow> forums_data option" where
  "forums_field k v d =
     (if equal_fold k ''forumsList'' then map_option (\<lambda>l. d\<lparr>fd_ForumsList := l\<rparr>) (decode_slice decode_forums_entry v)
      else if equal_fold k ''lastPost''
      then map_option (\<lambda>m. d\<lparr>fd_LastPost := m\<rparr>) (decode_map decode_last_post_entry v (fd_LastPost d))
      else Some d)"

definition topic_field :: "string \<Rightarrow> json \<Rightarrow> topic_entry \<Rightarrow> topic_entry option" where
  "topic_field k v t =
     (if equal_fold k ''id'' then map_option (\<lambda>i. t\<lparr>te_ID := i\<rparr>) (decode_quoted_int v (te_ID t))
      else if equal_fold k ''author'' then map_option (\<lambda>i. t\<lparr>te_Author := i\<rparr>) (decode_quoted_int v (te_Author t))
      else if equal_fold k ''lastPost''
      then map_option (\<lambda>i. t\<lparr>te_LastPostAuthorID := i\<rparr>) (decode_struct (int_field ''authorId'') v (te_LastPostAuthorID t))
      else Some t)"

definition topics_field :: "string \<Rightarrow> json \<Rightarrow> topic_entry list \<Rightarrow> topic_entry list option" where
  "topics_field k v ts =
     (if equal_fold k ''data''
      then decode_slice (\<lambda>x. decode_struct topic_field x \<lparr>te_ID = 0, te_Author = 0, te_LastPostAuthorID = 0\<rparr>) v
      else Some ts)"

text \<open>\<open>json.Unmarshal(resp.Data, ...)\<close>: no data at all is a syntax error.\<close>

definition unmarshal_data :: "(json \<Rightarrow> 'r option) \<Rightarrow> json option \<Rightarrow> 'r option" where
  "unmarshal_data f data = (case data of None \<Rightarrow> None | Some v \<Rightarrow> f v)"

section \<open>Phases\<close>

fun first_seen :: "int list \<Rightarrow> int list \<Rightarrow> int list" where
  "first_seen seen [] = []"
| "first_seen seen (x # xs) =
     (if 0 < x \<and> x \<notin> set seen then x # first_seen (x # seen) xs else first_seen seen xs)"

definition PhaseVisitForums ::
  "('c, 'x) env \<Rightarrow> ('c, 'x) mt_browse_client \<Rightarrow> logctx \<Rightarrow> ('c, 'x) session
     \<Rightarrow> (goerror + int list \<times> int list) \<times> ('c, 'x) session" where
  "PhaseVisitForums E c ctx sw =
     (case s_do E c ctx ''POST'' ''/api/forum/forums'' [] sw of
        (Inl err, sw) \<Rightarrow> (Inl (wrap_prefix ''forums request'' err), sw)
      | (Inr resp, sw) \<Rightarrow>
          (case unmarshal_data (\<lambda>v. decode_struct forums_field v \<lparr>fd_ForumsList = [], fd_LastPost = []\<rparr>) (ar_Data resp) of
             None \<Rightarrow> (Inl (wrapf (Sentinel BrowseErrBusiness) (''forums data decode: '' @ ev_json_error E ''forums data'')), sw)
           | Some d \<Rightarrow>
               (Inr (filter (\<lambda>i. 0 < i) (fd_ForumsList d), first_seen [] (map snd (fd_LastPost d))), sw)))"

definition PhaseResolveMembers ::
  "('c, 'x) env \<Rightarrow> ('c, 'x) mt_browse_client \<Rightarrow> logctx \<Rightarrow> int list \<Rightarrow> ('c, 'x) session
     \<Rightarrow> goerror option \<times> ('c, 'x) session" where
  "PhaseResolveMembers E c ctx ids sw =
     (case s_doJSON E c ctx ''POST'' ''/api/member/bases'' [(''ids'', GArr (map (\<lambda>i. GStr (int_dec i)) ids))] sw of
        (Inl err, sw) \<Rightarrow> (Some (wrap_prefix ''member bases request'' err), sw)
      | (Inr resp, sw) \<Rightarrow>
          (case unmarshal_data (\<lambda>v. decode_map Some v []) (ar_Data resp) of
             None \<Rightarrow> (Some (wrapf (Sentinel BrowseErrBusiness)
                       (''member bases data decode: '' @ ev_json_error E ''member bases data'')), sw)
           | Some _ \<Rightarrow> (None, sw)))"

definition PhaseSearchTopics ::
  "('c, 'x) env \<Rightarrow> ('c, 'x) mt_browse_client \<Rightarrow> logctx \<Rightarrow> int \<Rightarrow> ('c, 'x) session
     \<Rightarrow> (goerror + int list \<times> int list \<times> int list) \<times> ('c, 'x) session" where
  "PhaseSearchTopics E c ctx fid sw =
     (case s_doJSON E c ctx ''POST'' ''/api/forum/topic/search''
             [(''fid'', GStr (int_dec fid)), (''pageSize'', GInt 100), (''pageNumber'', GInt 1)] sw of
        (Inl err, sw) \<Rightarrow> (Inl (wrap_prefix ''topic search request'' err), sw)
      | (Inr resp, sw) \<Rightarrow>
          (case unmarshal_data (\<lambda>v. decode_struct topics_field v []) (ar_Data resp) of
             None \<Rightarrow> (Inl (wrapf (Sentinel BrowseErrBusiness)
                       (''topic search data decode: '' @ ev_json_error E ''topic search data'')), sw)
           | Some items \<Rightarrow>
               (Inr (filter (\<lambda>i. 0 < i) (map te_ID items), first_seen [] (map te_Author items),
                     first_seen [] (map te_LastPostAuthorID items)), sw)))"

definition PhaseViewTopic ::
  "('c, 'x) env \<Rightarrow> ('c, 'x) mt_browse_client \<Rightarrow> logctx \<Rightarrow> int \<Rightarrow> ('c, 'x) session
     \<Rightarrow> goerror option \<times> ('c, 'x) session" where
  "PhaseViewTopic E c ctx tid sw =
     (case s_do E c ctx ''POST'' ''/api/forum/topic/viewHits'' [(''tid'', int_dec tid)] sw of
        (Inl err, sw) \<Rightarrow> (Some (wrap_prefix ''viewHits request'' err), sw)
      | (Inr _, sw) \<Rightarrow>
     (case s_do E c ctx ''POST'' ''/api/forum/forums'' [] sw of
        (Inl err, sw) \<Rightarrow> (Some (wrap_prefix ''forums request'' err), sw)
      | (Inr _, sw) \<Rightarrow>
     (case s_doJSON E c ctx ''POST'' ''/api/forum/topic/detail''
             [(''tid'', GStr (int_dec tid)), (''pageSize'', GInt 20), (''pageNumber'', GInt 1)] sw of
        (Inl err, sw) \<Rightarrow> (Some (wrap_prefix ''topic detail request'' err), sw)
      | (Inr _, sw) \<Rightarrow> (None, sw))))"

section \<open>The run over the phases\<close>

text \<open>\<open>shouldPropagateForumError\<close> of this package looks for the package's own sentinel.\<close>

definition critical :: "goerror \<Rightarrow> bool" where
  "critical err \<longleftrightarrow>
     errors_is err (Sentinel CtxCanceled) \<or> errors_is err (Sentinel CtxDeadlineExceeded)
      \<or> errors_is err (Sentinel BrowseErrAuthFailed)"

text \<open>
  The three ways the run treats the error of a step, with \<open>flag\<close> for \<open>lastBrowseUpdated\<close>:
  go on after a warning, stop without an error after a warning, and, for the update, remember
  that it worked.
\<close>

definition go_on ::
  "bool \<Rightarrow> goerror option \<times> 's \<Rightarrow> ('s \<Rightarrow> (bool \<times> goerror option) \<times> 's) \<Rightarrow> (bool \<times> goerror option) \<times> 's" where
  "go_on flag r k =
     (case r of
        (Some err, s) \<Rightarrow> if critical err then ((flag, Some err), s) else k s
      | (None, s) \<Rightarrow> k s)"

definition or_stop ::
  "bool \<Rightarrow> (goerror + 'a) \<times> 's \<Rightarrow> ('a \<Rightarrow> 's \<Rightarrow> (bool \<times> goerror option) \<times> 's) \<Rightarrow> (bool \<times> goerror option) \<times> 's" where
  "or_stop flag r k =
     (case r of
        (Inl err, s) \<Rightarrow> if critical err then ((flag, Some err), s) else ((flag, None), s)
      | (Inr a, s) \<Rightarrow> k a s)"

definition mark ::
  "bool \<Rightarrow> goerror option \<times> 's \<Rightarrow> (bool \<Rightarrow> 's \<Rightarrow> (bool \<times> goerror option) \<times> 's) \<Rightarrow> (bool \<times> goerror option) \<times> 's" where
  "mark flag r k =
     (case r of
        (Some err, s) \<Rightarrow> if critical err then ((flag, Some err), s) else k flag s
      | (None, s) \<Rightarrow> k True s)"

definition resolve_if ::
  "('c, 'x) env \<Rightarrow> ('c, 'x) mt_browse_client \<Rightarrow> logctx \<Rightarrow> int list \<Rightarrow> ('c, 'x) session
     \<Rightarrow> goerror option \<times> ('c, 'x) session" where
  "resolve_if E c ctx ids sw = (if ids = [] then (None, sw) else PhaseResolveMembers E c ctx ids sw)"

definition pick :: "('c, 'x) env \<Rightarrow> int list \<Rightarrow> ('c, 'x) session \<Rightarrow> int \<times> ('c, 'x) session" where
  "pick E ids sw = (case on_world (Intn E (length ids)) sw of (k, sw) \<Rightarrow> (ids ! k, sw))"

definition view_phase ::
  "('c, 'x) env \<Rightarrow> ('c, 'x) mt_browse_client \<Rightarrow> logctx \<Rightarrow> bool \<Rightarrow> int list \<Rightarrow> ('c, 'x) session
     \<Rightarrow> (bool \<times> goerror option) \<times> ('c, 'x) session" where
  "view_phase E c ctx flag tids sw =
     (case pick E tids sw of (tid, sw) \<Rightarrow>
        go_on flag (Warmup E c ctx sw) (\<lambda>sw.
        mark flag (UpdateLastBrowse E c ctx sw) (\<lambda>flag sw.
        go_on flag (PhaseViewTopic E c ctx tid sw) (\<lambda>sw. ((flag, None), sw)))))"

definition topics_phase ::
  "('c, 'x) env \<Rightarrow> ('c, 'x) mt_browse_client \<Rightarrow> logctx \<Rightarrow> int list \<Rightarrow> ('c, 'x) session
     \<Rightarrow> (bool \<times> goerror option) \<times> ('c, 'x) session" where
  "topics_phase E c ctx fids sw =
     (case pick E fids sw of (fid, sw) \<Rightarrow>
        go_on False (Warmup E c ctx sw) (\<lambda>sw.
        mark False (UpdateLastBrowse E c ctx sw) (\<lambda>flag sw.
        or_stop flag (PhaseSearchTopics E c ctx fid sw) (\<lambda>(tids, topicAuthorIDs, lastPostAuthorIDs) sw.
          if tids = [] then ((flag, None), sw)
          else
            go_on flag (resolve_if E c ctx topicAuthorIDs sw) (\<lambda>sw.
            go_on flag (resolve_if E c ctx lastPostAuthorIDs sw) (\<lambda>sw.
            view_phase E c ctx flag tids sw))))))"

definition BrowseForum ::
  "('c, 'x) env \<Rightarrow> ('c, 'x) mt_browse_client \<Rightarrow> logctx \<Rightarrow> ('c, 'x) session
     \<Rightarrow> (bool \<times> goerror option) \<times> ('c, 'x) session" where
  "BrowseForum E c ctx sw =
     or_stop False (PhaseVisitForums E c ctx sw) (\<lambda>(fids, authorIDs) sw.
       if fids = [] then ((False, None), sw)
       else go_on False (resolve_if E c ctx authorIDs sw) (\<lambda>sw. topics_phase E c ctx fids sw))"

section \<open>Errors that stop the run\<close>

text \<open>
  A predicate on outcomes passes through the three combinators: it is enough that it holds of
  a critical error, of stopping, and of whatever follows.
\<close>

definition error_ok :: "(bool \<times> goerror option) \<times> 's \<Rightarrow> bool" where
  "error_ok r \<longleftrightarrow> (case snd (fst r) of None \<Rightarrow> True | Some e \<Rightarrow> critical e)"

lemma error_ok_simps [simp]: "error_ok ((b, None), s)" "error_ok ((b, Some e), s) \<longleftrightarrow> critical e"
  by (simp_all add: error_ok_def)

lemma error_ok_combinators [intro]:
  "(\<And>s. error_ok (k s)) \<Longrightarrow> error_ok (go_on flag r k)"
  "(\<And>a s. error_ok (f a s)) \<Longrightarrow> error_ok (or_stop flag q f)"
  "(\<And>b s. error_ok (g b s)) \<Longrightarrow> error_ok (mark flag r g)"
  by (auto simp: go_on_def or_stop_def mark_def split: prod.split option.split sum.split)

lemma error_ok_view: "error_ok (view_phase E c ctx flag tids sw)"
  unfolding view_phase_def by (auto intro!: error_ok_combinators split: prod.split)

lemma error_ok_topics: "error_ok (topics_phase E c ctx fids sw)"
  unfolding topics_phase_def by (auto intro!: error_ok_combinators error_ok_view split: prod.split)

lemma error_ok_BrowseForum: "error_ok (BrowseForum E c ctx sw)"
  unfolding BrowseForum_def by (auto intro!: error_ok_combinators error_ok_topics)

lemma set_first_seen: "set (first_seen seen xs) = {x \<in> set xs. 0 < x \<and> x \<notin> set seen}"
  by (induction seen xs rule: first_seen.induct) auto

lemma distinct_first_seen: "distinct (first_seen seen xs)"
  by (induction seen xs rule: first_seen.induct) (auto simp: set_first_seen)

lemma first_seen_filter: "first_seen seen xs = first_seen [] (filter (\<lambda>x. 0 < x \<and> x \<notin> set seen) xs)"
proof (induction "length xs" arbitrary: xs seen rule: less_induct)
  case less
  show ?case
  proof (cases xs)
    case (Cons x ys)
    let ?zs = "filter (\<lambda>y. 0 < y \<and> y \<notin> set seen) ys"
    have ys: "length ys < length xs" using Cons by simp
    have zs: "length ?zs < length xs" using Cons by (simp add: le_imp_less_Suc)
    show ?thesis
    proof (cases "0 < x \<and> x \<notin> set seen")
      case True
      have "first_seen (x # seen) ys = first_seen [] (filter (\<lambda>y. 0 < y \<and> y \<notin> set (x # seen)) ys)"
        by (rule less [OF ys])
      moreover have "first_seen [x] ?zs = first_seen [] (filter (\<lambda>y. 0 < y \<and> y \<notin> set [x]) ?zs)"
        by (rule less [OF zs])
      moreover have "filter (\<lambda>y. 0 < y \<and> y \<notin> set [x]) ?zs = filter (\<lambda>y. 0 < y \<and> y \<notin> set (x # seen)) ys"
        by (auto intro: filter_cong)
      ultimately show ?thesis using True Cons by simp
    next
      case False
      with less [OF ys, of seen] Cons show ?thesis by auto
    qed
  qed simp
qed

text \<open>Keeping the first of equal elements, by the library's function that keeps the last.\<close>

definition first_of_each :: "int list \<Rightarrow> int list" where
  "first_of_each xs = rev (remdups (rev xs))"

lemma first_of_each_Cons: "first_of_each (x # xs) = x # first_of_each (filter (\<lambda>y. y \<noteq> x) xs)"
proof -
  have "remdups (ys @ [x]) = remdups (filter (\<lambda>y. y \<noteq> x) ys) @ [x]" for ys :: "int list"
    by (induction ys) auto
  then show ?thesis by (simp add: first_of_each_def rev_filter)
qed

lemma first_seen_reference: "first_seen [] xs = first_of_each (filter (\<lambda>x. 0 < x) xs)"
proof (induction "length xs" arbitrary: xs rule: less_induct)
  case less
  show ?case
  proof (cases xs)
    case (Cons x ys)
    have small: "length (filter (\<lambda>y. 0 < y \<and> y \<notin> set [x]) ys) < length xs"
      using Cons by (simp add: le_imp_less_Suc)
    have "first_seen [x] ys = first_of_each (filter (\<lambda>y. 0 < y) (filter (\<lambda>y. 0 < y \<and> y \<notin> set [x]) ys))"
      using first_seen_filter [of "[x]" ys] less [OF small] by simp
    moreover have "filter (\<lambda>y. 0 < y) (filter (\<lambda>y. 0 < y \<and> y \<notin> set [x]) ys) = filter (\<lambda>y. y \<noteq> x) (filter (\<lambda>y. 0 < y) ys)"
      by (auto intro: filter_cong)
    moreover have "length ys < length xs" using Cons by simp
    ultimately show ?thesis using Cons less [of ys] by (simp add: first_of_each_Cons)
  qed (simp add: first_of_each_def)
qed

section \<open>Properties\<close>

text \<open>
  Members are resolved once each: the ids that a phase collects with its map of those already
  seen are the positive ids of the answer, each where it occurs first, in that order.
\<close>

theorem members_are_asked_once:
  "first_seen [] ids = rev (remdups (rev (filter (\<lambda>i. 0 < i) ids)))"
  by (simp add: first_seen_reference first_of_each_def)

end
