(* ===== verification/SessionLaws.thy ===== *)
theory SessionLaws
  imports Forum
begin

text \<open>
  What the M-Team clients do to the world when they run over the TLS client: every exchange
  writes one entry of the HTTP log and gives back its place in flight; a session only rotates
  its DID; and a last-browse update that reports success left an entry in which the site
  confirmed it.
\<close>

section \<open>Round trips that are logged\<close>

text \<open>The base of a chain: it leaves the request and the log alone and keeps its places.\<close>

definition base_ok :: "('c, 'x) world round_trip \<Rightarrow> bool" where
  "base_ok rt \<longleftrightarrow> (\<forall>ctx req w res req' w'. rt ctx req w = (res, req', w') \<longrightarrow>
     req' = req \<and> w_httplog w' = w_httplog w \<and> tc_inflight (w_tls w') = tc_inflight (w_tls w)
     \<and> tc_closed (w_tls w') = tc_closed (w_tls w))"

definition recorded :: "request \<Rightarrow> response option \<times> goerror option \<Rightarrow> log_event \<Rightarrow> bool" where
  "recorded r res ev \<longleftrightarrow> le_URL ev = rq_URL r \<and> le_Method ev = rq_Method r \<and> le_Err ev = snd res
     \<and> (case fst res of None \<Rightarrow> True | Some p \<Rightarrow> le_Status ev = rp_Status p \<and> le_Output ev = rp_Body p)"

definition logged :: "('c, 'x) world round_trip \<Rightarrow> bool" where
  "logged rt \<longleftrightarrow> (\<forall>ctx r w res req' w'. rt ctx (Some r) w = (res, req', w') \<longrightarrow>
     tc_inflight (w_tls w') = tc_inflight (w_tls w) \<and> tc_closed (w_tls w') = tc_closed (w_tls w)
     \<and> (\<exists>ev. w_httplog w' = w_httplog w @ [(lc_logid ctx, ev)] \<and> recorded r res ev))"

lemma base_ok_tls: "base_ok (tls_RoundTrip E)"
  unfolding base_ok_def using tls_RoundTrip_frame by blast

lemma wire_request_frame:
  assumes "wire_request E cfg ctx r w = (r', w')"
  shows "rq_URL r' = rq_URL r \<and> rq_Method r' = rq_Method r \<and> w_tls w' = w_tls w \<and> w_httplog w' = w_httplog w"
proof -
  obtain r1 w1 where d: "default_headers E cfg ((if rq_Proxy r = '''' then r\<lparr>rq_Proxy := ProxyFromContext ctx\<rparr> else r)
      \<lparr>rq_CookieScope := cookieScope\<rparr>) w = (r1, w1)" by (rule prod.exhaust)
  have "rq_URL r1 = rq_URL r" "rq_Method r1 = rq_Method r" "w_tls w1 = w_tls w" "w_httplog w1 = w_httplog w"
    using default_headers_frame [OF d] by (auto split: if_splits)
  moreover have "r' = strip_auth r1" "w' = w1" using assms d by (simp_all add: wire_request_def Let_def)
  ultimately show ?thesis by (simp add: strip_auth_def)
qed

lemma Logging_records:
  assumes "Logging E nxt ctx (Some r) w = (res, req', w')"
    and nxt: "\<And>w1 res req' w2. nxt ctx (Some r) w1 = (res, req', w2) \<Longrightarrow>
       (\<exists>r'. req' = Some r' \<and> rq_URL r' = rq_URL r \<and> rq_Method r' = rq_Method r) \<and> w_httplog w2 = w_httplog w1
       \<and> tc_inflight (w_tls w2) = tc_inflight (w_tls w1) \<and> tc_closed (w_tls w2) = tc_closed (w_tls w1)"
  shows "tc_inflight (w_tls w') = tc_inflight (w_tls w) \<and> tc_closed (w_tls w') = tc_closed (w_tls w)
     \<and> (\<exists>ev. w_httplog w' = w_httplog w @ [(lc_logid ctx, ev)] \<and> recorded r res ev)"
proof -
  obtain t0 w0 where t0: "now E w = (t0, w0)" by (rule prod.exhaust)
  obtain resp err q w2 where n: "nxt ctx (Some r) w0 = ((resp, err), q, w2)" by (metis prod.exhaust)
  obtain t1 w3 where t1: "now E w2 = (t1, w3)" by (rule prod.exhaust)
  from nxt [OF n] obtain r' where q: "q = Some r'" "rq_URL r' = rq_URL r" "rq_Method r' = rq_Method r"
    and w2: "w_httplog w2 = w_httplog w0" "tc_inflight (w_tls w2) = tc_inflight (w_tls w0)"
      "tc_closed (w_tls w2) = tc_closed (w_tls w0)" by auto
  have "w_tls w0 = w_tls w" "w_httplog w0 = w_httplog w" "w_tls w3 = w_tls w2" "w_httplog w3 = w_httplog w2"
    using now_frame [of E w] now_frame [of E w2] t0 t1 by simp_all
  with assms(1) t0 n t1 q w2 show ?thesis
    by (auto simp: Logging_def Let_def recorded_def request_event_def response_event_def split: option.splits)
qed

lemma mt_chain_logged:
  assumes "base_ok base"
  shows "logged (mt_chain E cfg (Some base))"
  unfolding logged_def
proof (intro allI impI)
  fix ctx r w res req' w'
  assume "mt_chain E cfg (Some base) ctx (Some r) w = (res, req', w')"
  then show "tc_inflight (w_tls w') = tc_inflight (w_tls w) \<and> tc_closed (w_tls w') = tc_closed (w_tls w)
     \<and> (\<exists>ev. w_httplog w' = w_httplog w @ [(lc_logid ctx, ev)] \<and> recorded r res ev)"
    unfolding mt_chain_wire
  proof (rule Logging_records)
    fix w1 res req' w2
    assume a: "(case Some r of None \<Rightarrow> base ctx None w1
      | Some r \<Rightarrow> case wire_request E cfg ctx r w1 of (r, w) \<Rightarrow> base ctx (Some r) w) = (res, req', w2)"
    obtain r1 wa where wr: "wire_request E cfg ctx r w1 = (r1, wa)" by (rule prod.exhaust)
    with a have b: "base ctx (Some r1) wa = (res, req', w2)" by simp
    with assms have "req' = Some r1 \<and> w_httplog w2 = w_httplog wa \<and> tc_inflight (w_tls w2) = tc_inflight (w_tls wa)
        \<and> tc_closed (w_tls w2) = tc_closed (w_tls wa)"
      unfolding base_ok_def by blast
    with wire_request_frame [OF wr]
    show "(\<exists>r'. req' = Some r' \<and> rq_URL r' = rq_URL r \<and> rq_Method r' = rq_Method r) \<and> w_httplog w2 = w_httplog w1
       \<and> tc_inflight (w_tls w2) = tc_inflight (w_tls w1) \<and> tc_closed (w_tls w2) = tc_closed (w_tls w1)"
      by auto
  qed
qed

section \<open>Moves of a session\<close>

definition moves :: "('c, 'x) session \<Rightarrow> ('c, 'x) session \<Rightarrow> bool" where
  "moves a b \<longleftrightarrow> rotated (fst a) (fst b) \<and> grows (snd a) (snd b)"

lemma moves_refl [simp, intro]: "moves a a"
  by (simp add: moves_def)

lemma moves_trans: "moves a b \<Longrightarrow> moves b c \<Longrightarrow> moves a c"
  using rotated_trans grows_trans by (auto simp: moves_def)

lemma moves_on_world: "(\<And>w r w'. f w = (r, w') \<Longrightarrow> grows w w') \<Longrightarrow> moves sw (snd (on_world f sw))"
  by (auto simp: on_world_def moves_def split: prod.split)

lemma grows_do_request: "do_request E c m p e w = (r, w') \<Longrightarrow> grows w w'"
  by (auto simp: do_request_def buildCommonParams_def new_boundary_def now_def grows_def Let_def
      split: prod.splits if_splits)

lemma grows_json_request: "json_request E c m p b w = (r, w') \<Longrightarrow> grows w w'"
  by (auto simp: json_request_def buildCommonParams_def now_def grows_def Let_def split: prod.splits)

lemma do_request_target:
  "do_request E c m p e w = (r, w') \<Longrightarrow> rq_Method r = m \<and>
     (m = ''POST'' \<longrightarrow> rq_URL r = https_url (mbc_APIHost (bc_cfg c)) p '''')"
  by (auto simp: do_request_def Let_def split: prod.splits if_splits)

lemma send_logged:
  assumes "logged (bc_rt c)" "send c ctx r (s, w) = (res, (s', w'))"
  shows "moves (s, w) (s', w') \<and> (\<exists>ev. w_httplog w' = w_httplog w @ [(lc_logid ctx, ev)] \<and> recorded r res ev)"
proof -
  obtain res1 q w1 where rt: "bc_rt c ctx (Some (identity_headers s r)) w = (res1, q, w1)" by (metis prod.exhaust)
  from assms(2) rt have eqs: "res = res1" "w' = w1" "s' = take_did (fst res1) s"
    by (auto simp: send_def IdentityHeaders_def beside_def split: prod.splits)
  from assms(1) rt have "tc_inflight (w_tls w1) = tc_inflight (w_tls w) \<and> tc_closed (w_tls w1) = tc_closed (w_tls w)
     \<and> (\<exists>ev. w_httplog w1 = w_httplog w @ [(lc_logid ctx, ev)] \<and> recorded (identity_headers s r) res1 ev)"
    unfolding logged_def by blast
  with eqs take_did_rotates [of "fst res1" s] show ?thesis
    by (auto simp: moves_def grows_def rotated_def recorded_def identity_headers_def)
qed

lemma send_moves: "logged (bc_rt c) \<Longrightarrow> moves sw (snd (send c ctx r sw))"
  using send_logged [of c ctx r "fst sw" "snd sw"]
  by (metis prod.collapse)

text \<open>A confirmed update: an entry for the update's address with status 200 and code 0.\<close>

definition confirms :: "string \<Rightarrow> log_event \<Rightarrow> bool" where
  "confirms host ev \<longleftrightarrow> le_URL ev = https_url host last_browse_path '''' \<and> le_Method ev = ''POST''
     \<and> le_Err ev = None \<and> le_Status ev = status_ok
     \<and> (\<exists>b. decode_response (le_Output ev) = Some b \<and> ar_Code b = ''0'')"

definition confirmed :: "string \<Rightarrow> ('c, 'x) world \<Rightarrow> ('c, 'x) world \<Rightarrow> bool" where
  "confirmed host w w' \<longleftrightarrow>
     (\<exists>l. w_httplog w' = w_httplog w @ l \<and> (\<exists>i ev. (i, ev) \<in> set l \<and> confirms host ev))"

lemma confirmed_later: "confirmed h w w1 \<Longrightarrow> grows w1 w2 \<Longrightarrow> confirmed h w w2"
  by (fastforce simp: confirmed_def grows_def)

lemma confirmed_earlier: "grows w w1 \<Longrightarrow> confirmed h w1 w2 \<Longrightarrow> confirmed h w w2"
  by (fastforce simp: confirmed_def grows_def)

section \<open>Every call of a session is a move\<close>

lemma s_do_moves:
  assumes "logged (bc_rt c)"
  shows "moves sw (snd (s_do E c ctx m p e sw))"
proof -
  obtain er sw1 where e: "on_world (ctx_Err E ctx) sw = (er, sw1)" by (rule prod.exhaust)
  then have m1: "moves sw sw1" using moves_on_world [of "ctx_Err E ctx" sw] grows_ctx_Err by fastforce
  obtain r sw2 where r: "on_world (do_request E c m p e) sw1 = (r, sw2)" by (rule prod.exhaust)
  then have m2: "moves sw1 sw2"
    using moves_on_world [of "do_request E c m p e" sw1] grows_do_request by fastforce
  obtain res sw3 where s: "send c ctx r sw2 = (res, sw3)" by (rule prod.exhaust)
  then have "moves sw2 sw3" using send_moves [OF assms, of sw2 ctx r] by simp
  with m1 m2 have "moves sw sw3" using moves_trans by blast
  with e r s m1 show ?thesis
    by (auto simp: s_do_def split: option.split prod.split)
qed

lemma s_doJSON_moves:
  assumes "logged (bc_rt c)"
  shows "moves sw (snd (s_doJSON E c ctx m p b sw))"
proof -
  obtain er sw1 where e: "on_world (ctx_Err E ctx) sw = (er, sw1)" by (rule prod.exhaust)
  then have m1: "moves sw sw1" using moves_on_world [of "ctx_Err E ctx" sw] grows_ctx_Err by fastforce
  obtain r sw2 where r: "on_world (json_request E c m p b) sw1 = (r, sw2)" by (rule prod.exhaust)
  then have m2: "moves sw1 sw2"
    using moves_on_world [of "json_request E c m p b" sw1] grows_json_request by fastforce
  obtain res sw3 where s: "send c ctx r sw2 = (res, sw3)" by (rule prod.exhaust)
  then have "moves sw2 sw3" using send_moves [OF assms, of sw2 ctx r] by simp
  with m1 m2 have "moves sw sw3" using moves_trans by blast
  with e r s m1 show ?thesis
    by (auto simp: s_doJSON_def split: option.split prod.split)
qed

lemma s_do_step: "logged (bc_rt c) \<Longrightarrow> s_do E c ctx m p e sw = (r, sw') \<Longrightarrow> moves sw sw'"
  using s_do_moves [of c sw E ctx m p e] by simp

lemma s_doJSON_step: "logged (bc_rt c) \<Longrightarrow> s_doJSON E c ctx m p b sw = (r, sw') \<Longrightarrow> moves sw sw'"
  using s_doJSON_moves [of c sw E ctx m p b] by simp

text \<open>A POST that is accepted left an entry with status 200 and code 0.\<close>

lemma s_do_accepted:
  assumes "logged (bc_rt c)" "s_do E c ctx ''POST'' p e sw = (Inr resp, sw')" "p \<noteq> ''/ping''"
  shows "\<exists>l i ev. w_httplog (snd sw') = w_httplog (snd sw) @ l \<and> (i, ev) \<in> set l
     \<and> le_URL ev = https_url (mbc_APIHost (bc_cfg c)) p '''' \<and> le_Method ev = ''POST'' \<and> le_Err ev = None
     \<and> le_Status ev = status_ok \<and> decode_response (le_Output ev) = Some resp \<and> ar_Code resp = ''0''"
proof -
  obtain er sw1 where e: "on_world (ctx_Err E ctx) sw = (er, sw1)" by (rule prod.exhaust)
  then have m1: "moves sw sw1" using moves_on_world [of "ctx_Err E ctx" sw] grows_ctx_Err by fastforce
  obtain r s2 w2 where r: "on_world (do_request E c ''POST'' p e) sw1 = (r, s2, w2)" by (metis prod.exhaust)
  then have m2: "moves sw1 (s2, w2)"
    using moves_on_world [of "do_request E c ''POST'' p e" sw1] grows_do_request by fastforce
  from r have tgt: "rq_Method r = ''POST''" "rq_URL r = https_url (mbc_APIHost (bc_cfg c)) p ''''"
    using do_request_target [of E c "''POST''" p e "snd sw1" r w2]
    by (auto simp: on_world_def split: prod.splits)
  obtain res err s3 w3 where s: "send c ctx r (s2, w2) = ((res, err), s3, w3)" by (metis prod.exhaust)
  from e r s assms(2,3) have er: "er = None" and sw': "sw' = (s3, w3)"
    and pr: "parseResponse (ev_json_error E p) res err = Inr resp"
    by (auto simp: s_do_def split: option.splits)
  then have "ParseResponse (ev_json_error E p) res err = Inr resp"
    by (auto simp: parseResponse_def split: sum.splits)
  then obtain rp where rp: "err = None" "res = Some rp" "rp_Status rp = status_ok"
    "decode_response (rp_Body rp) = Some resp" "ar_Code resp = ''0''"
    by (auto simp: ParseResponse_ok_iff)
  from send_logged [OF assms(1) s] obtain ev where
    ev: "w_httplog w3 = w_httplog w2 @ [(lc_logid ctx, ev)]" "recorded r (res, err) ev" by auto
  from moves_trans [OF m1 m2] obtain l where "w_httplog w2 = w_httplog (snd sw) @ l"
    by (auto simp: moves_def grows_def)
  with ev(1) sw' have "w_httplog (snd sw') = w_httplog (snd sw) @ (l @ [(lc_logid ctx, ev)])" by simp
  moreover have "(lc_logid ctx, ev) \<in> set (l @ [(lc_logid ctx, ev)])" by simp
  ultimately show ?thesis
    using ev(2) tgt rp by (intro exI conjI) (auto simp: recorded_def)
qed

lemma warmup_from_moves:
  assumes "logged (bc_rt c)"
  shows "moves sw (snd (warmup_from E c ctx es sw))"
proof (induction es arbitrary: sw)
  case (Cons p es)
  obtain er sw1 where e: "on_world (ctx_Err E ctx) sw = (er, sw1)" by (rule prod.exhaust)
  then have m1: "moves sw sw1" using moves_on_world [of "ctx_Err E ctx" sw] grows_ctx_Err by fastforce
  obtain d sw2 where d: "s_do E c ctx (we_Method p) (we_Path p) (we_ExtMap p) sw1 = (d, sw2)" by (rule prod.exhaust)
  then have "moves sw1 sw2" by (rule s_do_step [OF assms])
  with m1 have m2: "moves sw sw2" using moves_trans by blast
  from m2 Cons.IH [of sw2] have "moves sw (snd (warmup_from E c ctx es sw2))" using moves_trans by blast
  with e d m1 m2 show ?case by (auto split: option.split sum.split)
qed simp

lemma Warmup_moves: "logged (bc_rt c) \<Longrightarrow> moves sw (snd (Warmup E c ctx sw))"
  by (simp add: Warmup_def warmup_from_moves)

lemma Profile_moves: "logged (bc_rt c) \<Longrightarrow> moves sw (snd (Profile E c ctx sw))"
  using s_do_moves [of c sw E ctx "''POST''" "''/api/member/profile''" "[]"]
  by (auto simp: Profile_def split: prod.split sum.split option.split)

lemma UpdateLastBrowse_moves: "logged (bc_rt c) \<Longrightarrow> moves sw (snd (UpdateLastBrowse E c ctx sw))"
  using s_do_moves [of c sw E ctx "''POST''" last_browse_path "[]"]
  by (auto simp: UpdateLastBrowse_def split: prod.split sum.split)

lemma UpdateLastBrowse_confirms:
  assumes "logged (bc_rt c)" "UpdateLastBrowse E c ctx sw = (None, sw')"
  shows "confirmed (mbc_APIHost (bc_cfg c)) (snd sw) (snd sw')"
proof -
  from assms(2) obtain resp where "s_do E c ctx ''POST'' last_browse_path [] sw = (Inr resp, sw')"
    by (auto simp: UpdateLastBrowse_def split: prod.splits sum.splits)
  from s_do_accepted [OF assms(1) this] show ?thesis
    unfolding confirmed_def confirms_def by (fastforce simp: last_browse_path_def)
qed

section \<open>The forum run\<close>

lemma PhaseVisitForums_moves: "logged (bc_rt c) \<Longrightarrow> moves sw (snd (PhaseVisitForums E c ctx sw))"
  using s_do_moves [of c sw E ctx "''POST''" "''/api/forum/forums''" "[]"]
  by (auto simp: PhaseVisitForums_def split: prod.split sum.split option.split)

lemma PhaseResolveMembers_moves: "logged (bc_rt c) \<Longrightarrow> moves sw (snd (PhaseResolveMembers E c ctx ids sw))"
  using s_doJSON_moves [of c sw E ctx "''POST''" "''/api/member/bases''"
      "[(''ids'', GArr (map (\<lambda>i. GStr (int_dec i)) ids))]"]
  by (auto simp: PhaseResolveMembers_def split: prod.split sum.split option.split)

lemma resolve_if_moves: "logged (bc_rt c) \<Longrightarrow> moves sw (snd (resolve_if E c ctx ids sw))"
  by (simp add: resolve_if_def PhaseResolveMembers_moves)

lemma PhaseSearchTopics_moves: "logged (bc_rt c) \<Longrightarrow> moves sw (snd (PhaseSearchTopics E c ctx fid sw))"
  using s_doJSON_moves [of c sw E ctx "''POST''" "''/api/forum/topic/search''"
      "[(''fid'', GStr (int_dec fid)), (''pageSize'', GInt 100), (''pageNumber'', GInt 1)]"]
  by (auto simp: PhaseSearchTopics_def split: prod.split sum.split option.split)

lemma PhaseViewTopic_moves:
  assumes "logged (bc_rt c)"
  shows "moves sw (snd (PhaseViewTopic E c ctx tid sw))"
proof -
  obtain a sw1 where a: "s_do E c ctx ''POST'' ''/api/forum/topic/viewHits'' [(''tid'', int_dec tid)] sw = (a, sw1)"
    by (rule prod.exhaust)
  then have m1: "moves sw sw1" by (rule s_do_step [OF assms])
  obtain b sw2 where b: "s_do E c ctx ''POST'' ''/api/forum/forums'' [] sw1 = (b, sw2)" by (rule prod.exhaust)
  then have m2: "moves sw sw2" by (intro moves_trans [OF m1] s_do_step [OF assms])
  obtain d sw3 where d: "s_doJSON E c ctx ''POST'' ''/api/forum/topic/detail''
      [(''tid'', GStr (int_dec tid)), (''pageSize'', GInt 20), (''pageNumber'', GInt 1)] sw2 = (d, sw3)" by (rule prod.exhaust)
  then have m3: "moves sw sw3" by (intro moves_trans [OF m2] s_doJSON_step [OF assms])
  from a b d m1 m2 m3 show ?thesis by (auto simp: PhaseViewTopic_def split: sum.split)
qed

lemma pick_moves: "moves sw (snd (pick E ids sw))"
  using moves_on_world [of "Intn E (length ids)" sw] grows_Intn
  by (fastforce simp: pick_def split: prod.split)

text \<open>
  Where the run is: it came by moves, and when the flag is set an update was confirmed on the
  way. The combinators pass it on.
\<close>

definition run_at :: "string \<Rightarrow> ('c, 'x) session \<Rightarrow> bool \<Rightarrow> ('c, 'x) session \<Rightarrow> bool" where
  "run_at h sw0 flag sw \<longleftrightarrow> moves sw0 sw \<and> (flag \<longrightarrow> confirmed h (snd sw0) (snd sw))"

definition run_ok :: "string \<Rightarrow> ('c, 'x) session \<Rightarrow> (bool \<times> goerror option) \<times> ('c, 'x) session \<Rightarrow> bool" where
  "run_ok h sw0 r \<longleftrightarrow> run_at h sw0 (fst (fst r)) (snd r)"

lemma run_at_moves: "run_at h sw0 flag sw \<Longrightarrow> moves sw sw' \<Longrightarrow> run_at h sw0 flag sw'"
  using moves_trans [of sw0 sw sw'] confirmed_later [of h "snd sw0" "snd sw" "snd sw'"]
  by (simp add: run_at_def moves_def)

lemma run_at_confirmed: "run_at h sw0 flag sw \<Longrightarrow> moves sw sw' \<Longrightarrow> confirmed h (snd sw) (snd sw') \<Longrightarrow> run_at h sw0 True sw'"
  using moves_trans [of sw0 sw sw'] confirmed_earlier [of "snd sw0" "snd sw" h "snd sw'"]
  by (simp add: run_at_def moves_def)

lemma run_ok_stop [intro]: "run_at h sw0 b sw \<Longrightarrow> run_ok h sw0 ((b, e), sw)"
  by (simp add: run_ok_def)

lemma run_ok_go_on:
  assumes "moves sw (snd r)" "run_at h sw0 flag sw" "\<And>sw'. run_at h sw0 flag sw' \<Longrightarrow> run_ok h sw0 (k sw')"
  shows "run_ok h sw0 (go_on flag r k)"
  using assms(3) run_at_moves [OF assms(2,1)]
  by (auto simp: go_on_def split: prod.split option.split)

lemma run_ok_or_stop:
  assumes "moves sw (snd q)" "run_at h sw0 flag sw" "\<And>a sw'. run_at h sw0 flag sw' \<Longrightarrow> run_ok h sw0 (f a sw')"
  shows "run_ok h sw0 (or_stop flag q f)"
  using assms(3) run_at_moves [OF assms(2,1)]
  by (auto simp: or_stop_def split: prod.split sum.split)

lemma run_ok_mark:
  assumes "logged (bc_rt c)" "run_at (mbc_APIHost (bc_cfg c)) sw0 flag sw"
    and g: "\<And>b sw'. run_at (mbc_APIHost (bc_cfg c)) sw0 b sw' \<Longrightarrow> run_ok (mbc_APIHost (bc_cfg c)) sw0 (g b sw')"
  shows "run_ok (mbc_APIHost (bc_cfg c)) sw0 (mark flag (UpdateLastBrowse E c ctx sw) g)"
proof -
  obtain e sw' where u: "UpdateLastBrowse E c ctx sw = (e, sw')" by (rule prod.exhaust)
  then have m: "moves sw sw'" using UpdateLastBrowse_moves [OF assms(1), of sw E ctx] by simp
  show ?thesis
  proof (cases e)
    case None
    with u have "run_at (mbc_APIHost (bc_cfg c)) sw0 True sw'"
      using run_at_confirmed [OF assms(2) m] UpdateLastBrowse_confirms [OF assms(1), of E ctx sw sw'] by simp
    with None u show ?thesis by (simp add: mark_def g)
  next
    case (Some err)
    with u show ?thesis using run_at_moves [OF assms(2) m] g by (auto simp: mark_def)
  qed
qed

lemma run_ok_view:
  assumes "logged (bc_rt c)" "run_at (mbc_APIHost (bc_cfg c)) sw0 flag sw"
  shows "run_ok (mbc_APIHost (bc_cfg c)) sw0 (view_phase E c ctx flag tids sw)"
proof -
  obtain tid sw1 where p: "pick E tids sw = (tid, sw1)" by (rule prod.exhaust)
  then have "run_at (mbc_APIHost (bc_cfg c)) sw0 flag sw1"
    using run_at_moves [OF assms(2)] pick_moves [of sw E tids] by simp
  then show ?thesis
    unfolding view_phase_def p prod.case
    by (auto intro!: run_ok_go_on run_ok_mark [OF assms(1)] Warmup_moves [OF assms(1)]
        PhaseViewTopic_moves [OF assms(1)])
qed

lemma run_ok_topics:
  assumes "logged (bc_rt c)" "run_at (mbc_APIHost (bc_cfg c)) sw0 False sw"
  shows "run_ok (mbc_APIHost (bc_cfg c)) sw0 (topics_phase E c ctx fids sw)"
proof -
  obtain fid sw1 where p: "pick E fids sw = (fid, sw1)" by (rule prod.exhaust)
  then have "run_at (mbc_APIHost (bc_cfg c)) sw0 False sw1"
    using run_at_moves [OF assms(2)] pick_moves [of sw E fids] by simp
  then show ?thesis
    unfolding topics_phase_def p prod.case
    by (auto intro!: run_ok_go_on run_ok_mark [OF assms(1)] run_ok_or_stop run_ok_view [OF assms(1)] Warmup_moves [OF assms(1)]
        PhaseSearchTopics_moves [OF assms(1)] resolve_if_moves [OF assms(1)] split: prod.split)
qed

lemma run_ok_BrowseForum:
  assumes "logged (bc_rt c)"
  shows "run_ok (mbc_APIHost (bc_cfg c)) sw (BrowseForum E c ctx sw)"
proof -
  have "run_at (mbc_APIHost (bc_cfg c)) sw False sw" by (simp add: run_at_def)
  then show ?thesis
    unfolding BrowseForum_def
    by (auto intro!: run_ok_or_stop run_ok_go_on run_ok_topics [OF assms] PhaseVisitForums_moves [OF assms]
        resolve_if_moves [OF assms] split: prod.split)
qed

end
