(* ===== verification/Store.thy ===== *)
theory Store
  imports Contracts
begin

text \<open>
  \<open>internal/store/leveldb.go\<close>: the identity store over goleveldb. The database is third
  party code: its operations are the record \<open>leveldb\<close>, an argument of every definition, and
  \<open>leveldb_laws\<close> states what its documentation promises of a successful call. Every method
  of the store runs under its mutex, so a method is one step on the store's state.
\<close>

section \<open>The database\<close>

datatype batch_op = BatchPut string string | BatchDelete string

record 'd leveldb =
  db_Get :: "'d \<Rightarrow> string \<Rightarrow> goerror + string"
  db_Put :: "'d \<Rightarrow> string \<Rightarrow> string \<Rightarrow> goerror option \<times> 'd"
  db_Delete :: "'d \<Rightarrow> string \<Rightarrow> goerror option \<times> 'd"
  db_Write :: "'d \<Rightarrow> batch_op list \<Rightarrow> goerror option \<times> 'd"
  db_Close :: "'d \<Rightarrow> goerror option \<times> 'd"

fun apply_op :: "batch_op \<Rightarrow> (string \<rightharpoonup> string) \<Rightarrow> (string \<rightharpoonup> string)" where
  "apply_op (BatchPut k v) m = m(k \<mapsto> v)"
| "apply_op (BatchDelete k) m = m(k := None)"

definition apply_batch :: "batch_op list \<Rightarrow> (string \<rightharpoonup> string) \<Rightarrow> (string \<rightharpoonup> string)" where
  "apply_batch ops m = fold apply_op ops m"

text \<open>
  \<open>view\<close> gives the contents of a database. A lookup returns the stored value or the error
  \<open>leveldb.ErrNotFound\<close>; a write that returns no error has taken effect, a batch as a whole
  and in order.
\<close>

definition leveldb_laws :: "'d leveldb \<Rightarrow> ('d \<Rightarrow> string \<rightharpoonup> string) \<Rightarrow> bool" where
  "leveldb_laws L view \<longleftrightarrow>
     (\<forall>d k v. db_Get L d k = Inr v \<longrightarrow> view d k = Some v) \<and>
     (\<forall>d k e. db_Get L d k = Inl e \<longrightarrow> errors_is e (Sentinel LdbErrNotFound) \<longrightarrow> view d k = None) \<and>
     (\<forall>d k v d'. db_Put L d k v = (None, d') \<longrightarrow> view d' = (view d)(k \<mapsto> v)) \<and>
     (\<forall>d k d'. db_Delete L d k = (None, d') \<longrightarrow> view d' = (view d)(k := None)) \<and>
     (\<forall>d b d'. db_Write L d b = (None, d') \<longrightarrow> view d' = apply_batch b (view d))"

section \<open>The store\<close>

definition tokenKey :: string where
  "tokenKey = ''m-team-auth''"

definition didKey :: string where
  "didKey = ''m-team-did''"

definition visitorIDKey :: string where
  "visitorIDKey = ''m-team-visitorid''"

definition accountKey :: string where
  "accountKey = ''m-team-account''"

record 'd level_store =
  ls_db :: 'd
  ls_epoch :: epoch

text \<open>
  \<open>LoadAuthState\<close> and \<open>SaveAuthState\<close> range over a Go map literal with the three identity
  fields, whose iteration order is open: \<open>ord\<close> is that order.
\<close>

datatype id_field = FToken | FDID | FVisitorID

instantiation id_field :: enum
begin

definition "enum_class.enum = [FToken, FDID, FVisitorID]"

definition "enum_class.enum_all P \<longleftrightarrow> P FToken \<and> P FDID \<and> P FVisitorID"

definition "enum_class.enum_ex P \<longleftrightarrow> P FToken \<or> P FDID \<or> P FVisitorID"

lemma UNIV_id_field: "(UNIV :: id_field set) = {FToken, FDID, FVisitorID}"
  by (auto intro: id_field.exhaust)

instance
  by standard (auto simp: enum_id_field_def enum_all_id_field_def enum_ex_id_field_def UNIV_id_field)

end

fun field_key :: "id_field \<Rightarrow> string" where
  "field_key FToken = tokenKey"
| "field_key FDID = didKey"
| "field_key FVisitorID = visitorIDKey"

fun set_field :: "id_field \<Rightarrow> string \<Rightarrow> auth_state \<Rightarrow> auth_state" where
  "set_field FToken v st = st\<lparr>Token := v\<rparr>"
| "set_field FDID v st = st\<lparr>DID := v\<rparr>"
| "set_field FVisitorID v st = st\<lparr>VisitorID := v\<rparr>"

fun get_field :: "id_field \<Rightarrow> auth_state \<Rightarrow> string" where
  "get_field FToken st = Token st"
| "get_field FDID st = DID st"
| "get_field FVisitorID st = VisitorID st"

fun load_fields ::
  "'d leveldb \<Rightarrow> 'd \<Rightarrow> id_field list \<Rightarrow> auth_state \<Rightarrow> bool \<Rightarrow> goerror + (auth_state \<times> bool)" where
  "load_fields L d [] st ok = Inr (st, ok)"
| "load_fields L d (f # fs) st ok =
     (case db_Get L d (field_key f) of
        Inl err \<Rightarrow> if errors_is err (Sentinel LdbErrNotFound) then load_fields L d fs st ok else Inl err
      | Inr v \<Rightarrow> load_fields L d fs (set_field f v st) True)"

definition LoadAuthState ::
  "'d leveldb \<Rightarrow> id_field list \<Rightarrow> 'd level_store \<Rightarrow> auth_state \<times> epoch \<times> bool \<times> goerror option" where
  "LoadAuthState L ord s =
     (case load_fields L (ls_db s) ord no_auth_state False of
        Inl err \<Rightarrow> (no_auth_state, ls_epoch s, False, Some err)
      | Inr (st, ok) \<Rightarrow> (st, ls_epoch s, ok, None))"

definition LoadAuthAccount :: "'d leveldb \<Rightarrow> 'd level_store \<Rightarrow> string \<times> goerror option" where
  "LoadAuthAccount L s =
     (case db_Get L (ls_db s) accountKey of
        Inl err \<Rightarrow> if errors_is err (Sentinel LdbErrNotFound) then ('''', None) else ('''', Some err)
      | Inr v \<Rightarrow> (v, None))"

definition save_op :: "auth_state \<Rightarrow> id_field \<Rightarrow> batch_op" where
  "save_op st f = (if get_field f st = '''' then BatchDelete (field_key f)
                   else BatchPut (field_key f) (get_field f st))"

definition SaveAuthState ::
  "'d leveldb \<Rightarrow> id_field list \<Rightarrow> auth_state \<Rightarrow> epoch \<Rightarrow> 'd level_store \<Rightarrow>
   (bool \<times> goerror option) \<times> 'd level_store" where
  "SaveAuthState L ord st epoch s =
     (if epoch \<noteq> ls_epoch s then ((False, None), s)
      else case db_Write L (ls_db s) (map (save_op st) ord) of
             (Some err, d) \<Rightarrow> ((False, Some err), s\<lparr>ls_db := d\<rparr>)
           | (None, d) \<Rightarrow> ((True, None), s\<lparr>ls_db := d\<rparr>))"

definition SaveAuthAccount ::
  "'d leveldb \<Rightarrow> string \<Rightarrow> epoch \<Rightarrow> 'd level_store \<Rightarrow> (bool \<times> goerror option) \<times> 'd level_store" where
  "SaveAuthAccount L account epoch s =
     (if epoch \<noteq> ls_epoch s then ((False, None), s)
      else case (if account = '''' then db_Delete L (ls_db s) accountKey
                 else db_Put L (ls_db s) accountKey account) of
             (Some err, d) \<Rightarrow> ((False, Some err), s\<lparr>ls_db := d\<rparr>)
           | (None, d) \<Rightarrow> ((True, None), s\<lparr>ls_db := d\<rparr>))"

definition ResetAuthState ::
  "'d leveldb \<Rightarrow> 'd level_store \<Rightarrow> (epoch \<times> goerror option) \<times> 'd level_store" where
  "ResetAuthState L s =
     (case db_Write L (ls_db s)
             [BatchDelete tokenKey, BatchDelete didKey, BatchDelete visitorIDKey, BatchDelete accountKey] of
        (Some err, d) \<Rightarrow> ((ls_epoch s, Some err), s\<lparr>ls_db := d\<rparr>)
      | (None, d) \<Rightarrow> ((ls_epoch s + 1, None), \<lparr>ls_db = d, ls_epoch = ls_epoch s + 1\<rparr>))"

definition CloseStore :: "'d leveldb \<Rightarrow> 'd level_store \<Rightarrow> goerror option \<times> 'd level_store" where
  "CloseStore L s = (case db_Close L (ls_db s) of (e, d) \<Rightarrow> (e, s\<lparr>ls_db := d\<rparr>))"

text \<open>
  \<open>restrictPermissions\<close>: the walk over the database directory, an argument, visits entries in
  order, with the error of reading an entry or whether it is a directory; \<open>Chmod\<close> is the
  operating system's answer. The modes that were set are recorded.
\<close>

fun restrictPermissions ::
  "(string \<Rightarrow> nat \<Rightarrow> goerror option) \<Rightarrow> (string \<times> (goerror + bool)) list \<Rightarrow> goerror option \<times> (string \<times> nat) list" where
  "restrictPermissions Chmod [] = (None, [])"
| "restrictPermissions Chmod ((current, Inl err) # entries) = (Some err, [])"
| "restrictPermissions Chmod ((current, Inr isDir) # entries) =
     (let mode = (if isDir then 7 * 64 else 6 * 64)
      in case Chmod current mode of
           Some err \<Rightarrow> (Some err, [])
         | None \<Rightarrow> (case restrictPermissions Chmod entries of (err, modes) \<Rightarrow> (err, (current, mode) # modes)))"

text \<open>
  The store as the refresh package sees it. Each call meets its own iteration order, which
  the function \<open>ord\<close> picks from the state.
\<close>

definition leveldb_store ::
  "'d leveldb \<Rightarrow> ('d level_store \<Rightarrow> id_field list) \<Rightarrow> ('d level_store) store_if" where
  "leveldb_store L ord = \<lparr>
     si_LoadAuthState = (\<lambda>s. (LoadAuthState L (ord s) s, s)),
     si_LoadAuthAccount = (\<lambda>s. (LoadAuthAccount L s, s)),
     si_SaveAuthState = (\<lambda>st ep s. SaveAuthState L (ord s) st ep s),
     si_SaveAuthAccount = SaveAuthAccount L,
     si_ResetAuthState = ResetAuthState L,
     si_Close = CloseStore L\<rparr>"

text \<open>\<open>ord\<close> names every field once, as ranging over a map does.\<close>

definition full_order :: "id_field list \<Rightarrow> bool" where
  "full_order fs \<longleftrightarrow> distinct fs \<and> set fs = UNIV"

text \<open>A walk that succeeds has set every entry, and only to modes for the owner alone.\<close>

lemma restrictPermissions_ok:
  "restrictPermissions Chmod entries = (None, modes) \<Longrightarrow>
     map fst modes = map fst entries \<and> snd ` set modes \<subseteq> {7 * 64, 6 * 64}"
proof (induction Chmod entries arbitrary: modes rule: restrictPermissions.induct)
  case (3 Chmod current isDir entries)
  then show ?case by (fastforce simp: Let_def split: option.splits prod.splits)
qed auto

lemma restrictPermissions_readable:
  "restrictPermissions Chmod entries = (None, modes) \<Longrightarrow> e \<in> set entries \<Longrightarrow> is_Inr (snd e)"
proof (induction Chmod entries arbitrary: modes rule: restrictPermissions.induct)
  case (3 Chmod current isDir entries)
  then show ?case by (auto simp: Let_def split: option.splits prod.splits)
qed auto

section \<open>Fields, keys and batches\<close>

lemmas store_key_defs = tokenKey_def didKey_def visitorIDKey_def accountKey_def

lemma field_key_inject [simp]: "field_key f = field_key g \<longleftrightarrow> f = g"
  by (cases f; cases g) (simp_all add: store_key_defs)

lemma field_key_account [simp]: "field_key f \<noteq> accountKey" "accountKey \<noteq> field_key f"
  by (cases f; simp add: store_key_defs)+

lemma get_set_field [simp]: "get_field f (set_field g v st) = (if f = g then v else get_field f st)"
  by (cases f; cases g) simp_all

lemma get_field_no_auth_state [simp]: "get_field f no_auth_state = ''''"
  by (cases f) simp_all

lemma auth_state_eqI: "(\<And>f. get_field f a = get_field f b) \<Longrightarrow> a = b"
proof -
  assume eq: "\<And>f. get_field f a = get_field f b"
  show "a = b" using eq [of FToken] eq [of FDID] eq [of FVisitorID] by simp
qed

lemma apply_batch_save:
  "distinct fs \<Longrightarrow>
     apply_batch (map (save_op st) fs) m (field_key f) =
       (if f \<in> set fs then (if get_field f st = '''' then None else Some (get_field f st)) else m (field_key f))"
  by (induction fs arbitrary: m) (auto simp: apply_batch_def save_op_def)

lemma apply_batch_save_other:
  "(\<And>f. k \<noteq> field_key f) \<Longrightarrow> apply_batch (map (save_op st) fs) m k = m k"
  by (induction fs arbitrary: m) (auto simp: apply_batch_def save_op_def)

section \<open>The abstraction\<close>

definition lookup_or_empty :: "(string \<rightharpoonup> string) \<Rightarrow> string \<Rightarrow> string" where
  "lookup_or_empty m k = (case m k of None \<Rightarrow> '''' | Some v \<Rightarrow> v)"

definition identity_of :: "(string \<rightharpoonup> string) \<Rightarrow> auth_state" where
  "identity_of m = \<lparr>Token = lookup_or_empty m tokenKey, DID = lookup_or_empty m didKey,
                    VisitorID = lookup_or_empty m visitorIDKey\<rparr>"

definition abs_store :: "('d \<Rightarrow> string \<rightharpoonup> string) \<Rightarrow> 'd level_store \<Rightarrow> astore" where
  "abs_store view s = \<lparr>a_state = identity_of (view (ls_db s)),
                       a_account = lookup_or_empty (view (ls_db s)) accountKey,
                       a_epoch = ls_epoch s\<rparr>"

lemma get_field_identity_of [simp]: "get_field f (identity_of m) = lookup_or_empty m (field_key f)"
  by (cases f) (simp_all add: identity_of_def)

lemma abs_store_sel [simp]:
  "a_state (abs_store view s) = identity_of (view (ls_db s))"
  "a_account (abs_store view s) = lookup_or_empty (view (ls_db s)) accountKey"
  "a_epoch (abs_store view s) = ls_epoch s"
  by (simp_all add: abs_store_def)

lemma leveldb_lawsD:
  assumes "leveldb_laws L view"
  shows "db_Get L d k = Inr v \<Longrightarrow> view d k = Some v"
    and "db_Get L d k = Inl e \<Longrightarrow> errors_is e (Sentinel LdbErrNotFound) \<Longrightarrow> view d k = None"
    and "db_Put L d k v = (None, d') \<Longrightarrow> view d' = (view d)(k \<mapsto> v)"
    and "db_Delete L d k = (None, d') \<Longrightarrow> view d' = (view d)(k := None)"
    and "db_Write L d b = (None, d') \<Longrightarrow> view d' = apply_batch b (view d)"
  using assms unfolding leveldb_laws_def by blast+

lemma load_fields_result:
  assumes "leveldb_laws L view"
  shows "load_fields L d fs st ok = Inr (st', ok') \<Longrightarrow>
    (\<forall>f. get_field f st' =
       (if f \<in> set fs \<and> view d (field_key f) \<noteq> None then the (view d (field_key f)) else get_field f st)) \<and>
    (ok' \<longleftrightarrow> ok \<or> (\<exists>f\<in>set fs. view d (field_key f) \<noteq> None))"
proof (induction fs arbitrary: st ok)
  case (Cons g gs)
  show ?case
  proof (cases "db_Get L d (field_key g)")
    case (Inl e)
    with Cons.prems have nf: "errors_is e (Sentinel LdbErrNotFound)"
      and rest: "load_fields L d gs st ok = Inr (st', ok')" by (auto split: if_splits)
    from leveldb_lawsD(2) [OF assms Inl nf] Cons.IH [OF rest] show ?thesis by auto
  next
    case (Inr v)
    with Cons.prems have rest: "load_fields L d gs (set_field g v st) True = Inr (st', ok')" by simp
    from leveldb_lawsD(1) [OF assms Inr] Cons.IH [OF rest] show ?thesis by auto
  qed
qed auto

lemma load_fields_identity:
  assumes "leveldb_laws L view" "full_order fs" "load_fields L d fs no_auth_state False = Inr (st, ok)"
  shows "st = identity_of (view d)" and "ok \<longleftrightarrow> (\<exists>f. view d (field_key f) \<noteq> None)"
proof -
  from assms(2) have full: "\<And>f. f \<in> set fs" by (simp add: full_order_def)
  note res = load_fields_result [OF assms(1,3)]
  from res full show "st = identity_of (view d)"
    by (intro auth_state_eqI) (auto simp: lookup_or_empty_def)
  from res full show "ok \<longleftrightarrow> (\<exists>f. view d (field_key f) \<noteq> None)" by auto
qed

lemma identity_of_save:
  "full_order fs \<Longrightarrow> identity_of (apply_batch (map (save_op st) fs) m) = st"
  by (intro auth_state_eqI) (simp add: full_order_def apply_batch_save lookup_or_empty_def)

lemma account_of_save:
  "lookup_or_empty (apply_batch (map (save_op st) fs) m) accountKey = lookup_or_empty m accountKey"
  by (simp add: lookup_or_empty_def apply_batch_save_other)

lemma identity_of_account [simp]: "identity_of (m(accountKey := v)) = identity_of m"
  by (intro auth_state_eqI) (simp add: lookup_or_empty_def)

lemma reset_batch:
  fixes m :: "string \<rightharpoonup> string"
  defines "m' \<equiv> apply_batch
     [BatchDelete tokenKey, BatchDelete didKey, BatchDelete visitorIDKey, BatchDelete accountKey] m"
  shows "identity_of m' = no_auth_state" and "lookup_or_empty m' accountKey = ''''"
    and "m' (field_key f) = None"
  by (auto simp: m'_def apply_batch_def identity_of_def no_auth_state_def lookup_or_empty_def)
     (cases f; simp)

section \<open>The store keeps its promises\<close>

lemma leveldb_store_sel [simp]:
  "si_LoadAuthState (leveldb_store L ord) s = (LoadAuthState L (ord s) s, s)"
  "si_LoadAuthAccount (leveldb_store L ord) s = (LoadAuthAccount L s, s)"
  "si_SaveAuthState (leveldb_store L ord) st ep s = SaveAuthState L (ord s) st ep s"
  "si_SaveAuthAccount (leveldb_store L ord) acc ep s = SaveAuthAccount L acc ep s"
  "si_ResetAuthState (leveldb_store L ord) s = ResetAuthState L s"
  by (simp_all add: leveldb_store_def)

lemmas store_op_defs =
  LoadAuthState_def LoadAuthAccount_def SaveAuthState_def SaveAuthAccount_def ResetAuthState_def

lemma LoadAuthState_abs:
  assumes "leveldb_laws L view" "full_order fs" "LoadAuthState L fs s = (st, ep, ok, None)"
  shows "st = a_state (abs_store view s) \<and> ep = a_epoch (abs_store view s)"
  using assms load_fields_identity(1) [OF assms(1,2)]
  by (auto simp: LoadAuthState_def split: sum.splits)

lemma LoadAuthAccount_abs:
  assumes "leveldb_laws L view" "LoadAuthAccount L s = (acc, None)"
  shows "acc = a_account (abs_store view s)"
  using assms(2) leveldb_lawsD(1,2) [OF assms(1), of "ls_db s" accountKey]
  by (auto simp: LoadAuthAccount_def lookup_or_empty_def split: sum.splits if_splits)

lemma SaveAuthState_abs:
  assumes "leveldb_laws L view" "full_order fs" "SaveAuthState L fs st ep s = ((True, None), s')"
  shows "ep = a_epoch (abs_store view s) \<and> abs_store view s' = (abs_store view s)\<lparr>a_state := st\<rparr>"
  using assms leveldb_lawsD(5) [OF assms(1), of "ls_db s"]
  by (auto simp: SaveAuthState_def abs_store_def identity_of_save account_of_save
           split: if_splits prod.splits option.splits)

lemma SaveAuthAccount_abs:
  assumes "leveldb_laws L view" "SaveAuthAccount L acc ep s = ((True, None), s')"
  shows "ep = a_epoch (abs_store view s) \<and> abs_store view s' = (abs_store view s)\<lparr>a_account := acc\<rparr>"
  using assms(2) leveldb_lawsD(3,4) [OF assms(1), of "ls_db s" accountKey]
  by (auto simp: SaveAuthAccount_def abs_store_def lookup_or_empty_def
           split: if_splits prod.splits option.splits)

lemma ResetAuthState_abs:
  assumes "leveldb_laws L view" "ResetAuthState L s = ((ep, None), s')"
  shows "abs_store view s' = a_reset (abs_store view s) \<and> ep = a_epoch (abs_store view s')"
  using assms(2) leveldb_lawsD(5) [OF assms(1), of "ls_db s"]
  by (auto simp: ResetAuthState_def abs_store_def a_reset_def reset_batch split: prod.splits option.splits)

text \<open>The interface contract of the refresh package, with any database that keeps its laws.\<close>

locale leveldb_backed =
  fixes L :: "'d leveldb"
    and view :: "'d \<Rightarrow> string \<rightharpoonup> string"
    and ord :: "'d level_store \<Rightarrow> id_field list"
  assumes laws: "leveldb_laws L view"
    and order: "full_order (ord s)"
begin

lemma store_contract_holds: "store_contract (leveldb_store L ord) (abs_store view)"
proof (unfold_locales, goal_cases)
  case (1 s st ep ok s')
  then show ?case using LoadAuthState_abs [OF laws order] by auto
next
  case (3 s acc s')
  then show ?case using LoadAuthAccount_abs [OF laws] by auto
next
  case (5 st ep s s')
  then show ?case using SaveAuthState_abs [OF laws order] by auto
next
  case (8 acc ep s s')
  then show ?case using SaveAuthAccount_abs [OF laws] by auto
next
  case (11 s ep s')
  then show ?case by (simp only: leveldb_store_sel) (rule ResetAuthState_abs [OF laws])
qed (auto simp: store_op_defs split: if_splits prod.splits option.splits)

end

sublocale leveldb_backed \<subseteq> store_contract "leveldb_store L ord" "abs_store view"
  by (rule store_contract_holds)

text \<open>
  A database held in memory, with no failures: it keeps the laws, so the contract is not
  empty, and it is the database of the concrete runs of the development.
\<close>

definition mem_leveldb :: "(string \<rightharpoonup> string) leveldb" where
  "mem_leveldb = \<lparr>
     db_Get = (\<lambda>d k. case d k of None \<Rightarrow> Inl (Sentinel LdbErrNotFound) | Some v \<Rightarrow> Inr v),
     db_Put = (\<lambda>d k v. (None, d(k \<mapsto> v))),
     db_Delete = (\<lambda>d k. (None, d(k := None))),
     db_Write = (\<lambda>d b. (None, apply_batch b d)),
     db_Close = (\<lambda>d. (None, d))\<rparr>"

definition source_order :: "'s \<Rightarrow> id_field list" where
  "source_order s = [FToken, FDID, FVisitorID]"

lemma mem_leveldb_laws: "leveldb_laws mem_leveldb (\<lambda>d. d)"
  by (auto simp: leveldb_laws_def mem_leveldb_def split: option.splits)

lemma source_order_full [simp]: "full_order (source_order s)"
  by (simp add: full_order_def source_order_def UNIV_id_field)

interpretation mem_store: leveldb_backed mem_leveldb "\<lambda>d. d" source_order
  by unfold_locales (simp_all add: mem_leveldb_laws)

section \<open>Call sequences and the epoch\<close>

text \<open>
  The calls that other parts of the process may make on the shared store between the moment a
  run reads its epoch and the moment it writes back.
\<close>

datatype store_call =
    CallLoad
  | CallLoadAccount
  | CallSave auth_state epoch
  | CallBind string epoch
  | CallReset

fun run_call :: "'d leveldb \<Rightarrow> id_field list \<Rightarrow> store_call \<Rightarrow> 'd level_store \<Rightarrow> 'd level_store" where
  "run_call L fs CallLoad s = s"
| "run_call L fs CallLoadAccount s = s"
| "run_call L fs (CallSave st ep) s = snd (SaveAuthState L fs st ep s)"
| "run_call L fs (CallBind acc ep) s = snd (SaveAuthAccount L acc ep s)"
| "run_call L fs CallReset s = snd (ResetAuthState L s)"

fun run_calls :: "'d leveldb \<Rightarrow> id_field list \<Rightarrow> store_call list \<Rightarrow> 'd level_store \<Rightarrow> 'd level_store" where
  "run_calls L fs [] s = s"
| "run_calls L fs (c # cs) s = run_calls L fs cs (run_call L fs c s)"

text \<open>How many of the calls are resets that went through.\<close>

fun resets_done :: "'d leveldb \<Rightarrow> id_field list \<Rightarrow> store_call list \<Rightarrow> 'd level_store \<Rightarrow> nat" where
  "resets_done L fs [] s = 0"
| "resets_done L fs (c # cs) s =
     (if c = CallReset \<and> snd (fst (ResetAuthState L s)) = None then 1 else 0)
       + resets_done L fs cs (run_call L fs c s)"

lemma SaveAuthState_epoch [simp]: "ls_epoch (snd (SaveAuthState L fs st ep s)) = ls_epoch s"
  by (auto simp: SaveAuthState_def split: prod.splits option.splits)

lemma SaveAuthAccount_epoch [simp]: "ls_epoch (snd (SaveAuthAccount L acc ep s)) = ls_epoch s"
  by (auto simp: SaveAuthAccount_def split: prod.splits option.splits)

lemma ResetAuthState_epoch:
  "ls_epoch (snd (ResetAuthState L s)) =
     (if snd (fst (ResetAuthState L s)) = None then ls_epoch s + 1 else ls_epoch s)"
  by (auto simp: ResetAuthState_def split: prod.splits option.splits)

lemma run_call_epoch:
  "ls_epoch (run_call L fs c s) =
     ls_epoch s + (if c = CallReset \<and> snd (fst (ResetAuthState L s)) = None then 1 else 0)"
  by (cases c) (simp_all add: ResetAuthState_epoch)

lemma run_calls_epoch:
  "ls_epoch (run_calls L fs cs s) = ls_epoch s + of_nat (resets_done L fs cs s)"
  by (induction cs arbitrary: s) (simp_all add: run_call_epoch)

lemma epoch_moved:
  assumes "0 < r" "r < 2 ^ 64"
  shows "(ep :: epoch) + of_nat r \<noteq> ep"
proof
  assume "ep + of_nat r = ep"
  then have "(of_nat r :: epoch) = 0" by simp
  then have "2 ^ 64 dvd r" by (simp add: word_of_nat_eq_0_iff)
  with assms show False by (auto dest: dvd_imp_le)
qed

section \<open>Properties\<close>

text \<open>
  C4. A run that read its epoch before a reset cannot write back: whatever calls are made on
  the store in between, if at least one of them is a reset that went through (and fewer than
  \<open>2 ^ 64\<close>, where the counter wraps), then a save with the old epoch is refused without an
  error and the store is exactly as the reset left it. The same holds for the account binding.
\<close>

theorem stale_epoch_is_refused:
  assumes "0 < resets_done L fs cs s" and "resets_done L fs cs s < 2 ^ 64"
  shows "SaveAuthState L fs' st (ls_epoch s) (run_calls L fs cs s) = ((False, None), run_calls L fs cs s) \<and>
    SaveAuthAccount L acc (ls_epoch s) (run_calls L fs cs s) = ((False, None), run_calls L fs cs s)"
  using epoch_moved [OF assms, of "ls_epoch s"]
  by (simp_all add: SaveAuthState_def SaveAuthAccount_def run_calls_epoch)

lemma stale_epoch_is_refused_witness:
  "SaveAuthState mem_leveldb (source_order ()) no_auth_state 0
      (run_calls mem_leveldb (source_order ()) [CallReset] \<lparr>ls_db = Map.empty, ls_epoch = 0\<rparr>)
     = ((False, None), run_calls mem_leveldb (source_order ()) [CallReset] \<lparr>ls_db = Map.empty, ls_epoch = 0\<rparr>)"
  using stale_epoch_is_refused
    [of mem_leveldb "source_order ()" "[CallReset]" "\<lparr>ls_db = Map.empty, ls_epoch = 0\<rparr>" "source_order ()" no_auth_state]
  by (simp add: ResetAuthState_def mem_leveldb_def)

text \<open>
  C15. What is saved is what is loaded: after a save that took effect, over any database that
  keeps its documented promises and whatever order the fields are visited in, a load that
  returns no error gives the saved identity with the epoch of the save, and finds something
  exactly when the identity has a part that is not empty. An empty part is deleted, so no part
  of an older identity survives the save.
\<close>

theorem save_then_load:
  assumes "leveldb_laws L view" and "full_order fs" and "full_order fs'"
  shows "case SaveAuthState L fs st ep s of
      ((saved, err), s') \<Rightarrow>
        if saved then (case LoadAuthState L fs' s' of
             (st', ep', ok, None) \<Rightarrow> st' = st \<and> ep' = ep \<and> (ok \<longleftrightarrow> st \<noteq> no_auth_state)
           | (st', ep', ok, Some e) \<Rightarrow> True)
        else ls_epoch s' = ls_epoch s"
proof -
  obtain saved err s' where sv: "SaveAuthState L fs st ep s = ((saved, err), s')" by (metis prod.exhaust)
  show ?thesis
  proof (cases saved)
    case False
    with sv SaveAuthState_epoch [of L fs st ep s] show ?thesis by simp
  next
    case True
    with sv have err: "err = None" by (auto simp: SaveAuthState_def split: if_splits prod.splits option.splits)
    note abs = SaveAuthState_abs [OF assms(1,2), of st ep s s'] sv
    have view: "view (ls_db s') = apply_batch (map (save_op st) fs) (view (ls_db s))"
      using sv True leveldb_lawsD(5) [OF assms(1)]
      by (auto simp: SaveAuthState_def split: if_splits prod.splits option.splits)
    have "(\<exists>f. view (ls_db s') (field_key f) \<noteq> None) \<longleftrightarrow> (\<exists>f. get_field f st \<noteq> '''')"
      using assms(2) by (simp add: view apply_batch_save full_order_def)
    also have "\<dots> \<longleftrightarrow> st \<noteq> no_auth_state"
      using auth_state_eqI [of st no_auth_state] by auto
    finally have ok: "(\<exists>f. view (ls_db s') (field_key f) \<noteq> None) \<longleftrightarrow> st \<noteq> no_auth_state" .
    have st: "identity_of (view (ls_db s')) = st" "ls_epoch s' = ep"
      using sv True err SaveAuthState_epoch [of L fs st ep s] SaveAuthState_abs [OF assms(1,2), of st ep s s']
      by (simp_all add: abs_store_def identity_of_save [OF assms(2)] view)
    show ?thesis
      using sv True load_fields_identity [OF assms(1,3), of "ls_db s'"] st ok
      by (auto simp: LoadAuthState_def split: sum.splits)
  qed
qed

lemma save_then_load_witness:
  "case SaveAuthState mem_leveldb [FToken, FDID, FVisitorID] \<lparr>Token = ''t'', DID = '''', VisitorID = ''v''\<rparr> 0
      \<lparr>ls_db = [didKey \<mapsto> ''old''], ls_epoch = 0\<rparr> of
      ((saved, err), s') \<Rightarrow>
        if saved then (case LoadAuthState mem_leveldb [FVisitorID, FDID, FToken] s' of
             (st', ep', ok, None) \<Rightarrow> st' = \<lparr>Token = ''t'', DID = '''', VisitorID = ''v''\<rparr> \<and> ep' = 0
                \<and> (ok \<longleftrightarrow> \<lparr>Token = ''t'', DID = '''', VisitorID = ''v''\<rparr> \<noteq> no_auth_state)
           | (st', ep', ok, Some e) \<Rightarrow> True)
        else ls_epoch s' = ls_epoch \<lparr>ls_db = [didKey \<mapsto> ''old''], ls_epoch = 0\<rparr>"
  by (rule save_then_load [OF mem_leveldb_laws]) (simp_all add: full_order_def UNIV_id_field insert_commute)

end
