(* ===== verification/AuthManager.thy ===== *)
theory AuthManager
  imports Store
begin

text \<open>
  \<open>internal/refresh/auth_manager.go\<close>: which identity a run uses, and what happens to it
  when the server no longer accepts it. The state is the store's state next to the state of
  the login client. The lemmas hold for any store and login client that keep their contracts.
\<close>

section \<open>Configuration\<close>

record password_auth_config =
  pa_Username :: string
  pa_Password :: string
  pa_TotpSecret :: string

record auth_config =
  ac_PasswordAuth :: password_auth_config
  ac_TokenAuth :: auth_state
  ac_RetryOnAuthFailure :: bool

record ('s, 'n) auth_manager =
  am_cfg :: auth_config
  am_client :: "'n login_if"
  am_store :: "'s store_if"

section \<open>Operations\<close>

definition NewAuthManager :: "auth_config \<Rightarrow> 'n login_if \<Rightarrow> 's store_if \<Rightarrow> ('s, 'n) auth_manager" where
  "NewAuthManager cfg client st = \<lparr>am_cfg = cfg, am_client = client, am_store = st\<rparr>"

definition identityChangedError :: goerror where
  "identityChangedError =
     DomainError (WithCause RefreshIdentityChanged (ErrText ''identity config changed; current run aborted''))"

definition am_username :: "('s, 'n) auth_manager \<Rightarrow> string" where
  "am_username m = pa_Username (ac_PasswordAuth (am_cfg m))"

definition loginAndSave ::
  "('s, 'n) auth_manager \<Rightarrow> logctx \<Rightarrow> string \<Rightarrow> epoch \<Rightarrow> 's \<times> 'n \<Rightarrow>
   (auth_state \<times> goerror option) \<times> 's \<times> 'n" where
  "loginAndSave m ctx visitorID epoch x =
     (case x of (s, n) \<Rightarrow>
      case li_Login (am_client m) ctx
             \<lparr>lr_Username = pa_Username (ac_PasswordAuth (am_cfg m)),
              lr_Password = pa_Password (ac_PasswordAuth (am_cfg m)),
              lr_TotpSecret = pa_TotpSecret (ac_PasswordAuth (am_cfg m)),
              lr_VisitorID = visitorID\<rparr> n of
        ((_, Some err), n) \<Rightarrow> ((no_auth_state, Some err), s, n)
      | ((state, None), n) \<Rightarrow>
        (case si_SaveAuthState (am_store m) state epoch s of
           ((_, Some err), s) \<Rightarrow> ((no_auth_state, Some err), s, n)
         | ((saved, None), s) \<Rightarrow>
           if \<not> saved then ((no_auth_state, Some identityChangedError), s, n)
           else ((state, None), s, n)))"

text \<open>
  \<open>Resolve\<close> in password mode, in the order of the source: bind the store to the
  configured account, resetting an identity of another account; make sure there is a visitor
  id; log in when the token or the DID is missing. The three parts of the body are the three
  definitions; an error of a part is returned at once.
\<close>

definition resolve_login ::
  "('s, 'n) auth_manager \<Rightarrow> logctx \<Rightarrow> auth_state \<Rightarrow> epoch \<Rightarrow> 's \<times> 'n \<Rightarrow>
   (auth_state \<times> epoch \<times> bool \<times> goerror option) \<times> 's \<times> 'n" where
  "resolve_login m ctx state epoch x =
     (if Token state = '''' \<or> DID state = '''' then
        (case loginAndSave m ctx (VisitorID state) epoch x of
           ((_, Some err), x) \<Rightarrow> ((no_auth_state, 0, False, Some err), x)
         | ((state, None), x) \<Rightarrow> ((state, epoch, False, None), x))
      else ((state, epoch, False, None), x))"

definition resolve_visitor ::
  "('s, 'n) auth_manager \<Rightarrow> logctx \<Rightarrow> auth_state \<Rightarrow> epoch \<Rightarrow> 's \<times> 'n \<Rightarrow>
   (auth_state \<times> epoch \<times> bool \<times> goerror option) \<times> 's \<times> 'n" where
  "resolve_visitor m ctx state epoch x =
     (case x of (s, n) \<Rightarrow>
      if VisitorID state = '''' then
        (case li_GenerateVisitorID (am_client m) n of (visitor, n) \<Rightarrow>
         let state = state\<lparr>VisitorID := visitor\<rparr> in
         case si_SaveAuthState (am_store m) state epoch s of
           ((_, Some err), s) \<Rightarrow> ((no_auth_state, 0, False, Some err), s, n)
         | ((saved, None), s) \<Rightarrow>
           if \<not> saved then ((no_auth_state, 0, False, Some identityChangedError), s, n)
           else resolve_login m ctx state epoch (s, n))
      else resolve_login m ctx state epoch (s, n))"

definition resolve_bind ::
  "('s, 'n) auth_manager \<Rightarrow> logctx \<Rightarrow> string \<Rightarrow> auth_state \<Rightarrow> epoch \<Rightarrow> 's \<times> 'n \<Rightarrow>
   (auth_state \<times> epoch \<times> bool \<times> goerror option) \<times> 's \<times> 'n" where
  "resolve_bind m ctx account state epoch x =
     (case x of (s, n) \<Rightarrow>
      if account \<noteq> am_username m then
        (case si_SaveAuthAccount (am_store m) (am_username m) epoch s of
           ((_, Some err), s) \<Rightarrow> ((no_auth_state, 0, False, Some err), s, n)
         | ((saved, None), s) \<Rightarrow>
           if \<not> saved then ((no_auth_state, 0, False, Some identityChangedError), s, n)
           else resolve_visitor m ctx state epoch (s, n))
      else resolve_visitor m ctx state epoch (s, n))"

definition Resolve ::
  "('s, 'n) auth_manager \<Rightarrow> logctx \<Rightarrow> 's \<times> 'n \<Rightarrow>
   (auth_state \<times> epoch \<times> bool \<times> goerror option) \<times> 's \<times> 'n" where
  "Resolve m ctx x =
     (if \<not> Empty (ac_TokenAuth (am_cfg m)) then
        if \<not> Complete (ac_TokenAuth (am_cfg m)) then
          ((no_auth_state, 0, True, Some (DomainError (WithCause ConfigInvalid
             (ErrText ''mt.token_auth.auth, mt.token_auth.did and mt.token_auth.visitor_id are required'')))), x)
        else ((ac_TokenAuth (am_cfg m), 0, True, None), x)
      else case x of (s, n) \<Rightarrow>
        (case si_LoadAuthState (am_store m) s of
           ((_, _, _, Some err), s) \<Rightarrow> ((no_auth_state, 0, False, Some err), s, n)
         | ((state, epoch, _, None), s) \<Rightarrow>
        (case si_LoadAuthAccount (am_store m) s of
           ((_, Some err), s) \<Rightarrow> ((no_auth_state, 0, False, Some err), s, n)
         | ((account, None), s) \<Rightarrow>
           if account \<noteq> am_username m \<and> \<not> Empty state then
             (case si_ResetAuthState (am_store m) s of
                ((_, Some err), s) \<Rightarrow>
                  ((no_auth_state, 0, False, Some (DomainError (WithCause RefreshIdentityResetFailed err))), s, n)
              | ((epoch, None), s) \<Rightarrow> resolve_bind m ctx account no_auth_state epoch (s, n))
           else resolve_bind m ctx account state epoch (s, n))))"

definition HandleAuthExpired ::
  "('s, 'n) auth_manager \<Rightarrow> logctx \<Rightarrow> epoch \<Rightarrow> 's \<times> 'n \<Rightarrow>
   (auth_state \<times> epoch \<times> bool \<times> goerror option) \<times> 's \<times> 'n" where
  "HandleAuthExpired m ctx epoch x =
     (case x of (s, n) \<Rightarrow>
      case si_ResetAuthState (am_store m) s of
        ((_, Some err), s) \<Rightarrow>
          ((no_auth_state, 0, False, Some (DomainError (WithCause RefreshIdentityResetFailed err))), s, n)
      | ((newEpoch, None), s) \<Rightarrow>
        if \<not> ac_RetryOnAuthFailure (am_cfg m) then ((no_auth_state, newEpoch, False, None), s, n)
        else
          (case li_GenerateVisitorID (am_client m) n of (visitor, n) \<Rightarrow>
           let state = no_auth_state\<lparr>VisitorID := visitor\<rparr> in
           case si_SaveAuthAccount (am_store m) (am_username m) newEpoch s of
             ((_, Some err), s) \<Rightarrow> ((no_auth_state, 0, False, Some err), s, n)
           | ((saved, None), s) \<Rightarrow>
             if \<not> saved then ((no_auth_state, 0, False, Some identityChangedError), s, n)
             else
               (case si_SaveAuthState (am_store m) state newEpoch s of
                  ((_, Some err), s) \<Rightarrow> ((no_auth_state, 0, False, Some err), s, n)
                | ((saved, None), s) \<Rightarrow>
                  if \<not> saved then ((no_auth_state, 0, False, Some identityChangedError), s, n)
                  else
                    (case loginAndSave m ctx (VisitorID state) newEpoch (s, n) of
                       ((_, Some err), x) \<Rightarrow> ((no_auth_state, 0, False, Some err), x)
                     | ((state, None), x) \<Rightarrow> ((state, newEpoch, True, None), x)))))"

definition auth_manager_iface :: "('s, 'n) auth_manager \<Rightarrow> ('s \<times> 'n) auth_manager_if" where
  "auth_manager_iface m = \<lparr>ai_Resolve = Resolve m, ai_HandleAuthExpired = HandleAuthExpired m\<rparr>"

section \<open>Token mode\<close>

text \<open>With a configured token the answer is the configuration, and nothing is touched.\<close>

lemma Resolve_token:
  "\<not> Empty (ac_TokenAuth (am_cfg m)) \<Longrightarrow>
     Resolve m ctx x =
       ((if Complete (ac_TokenAuth (am_cfg m)) then (ac_TokenAuth (am_cfg m), 0, True, None)
         else (no_auth_state, 0, True, Some (DomainError (WithCause ConfigInvalid
             (ErrText ''mt.token_auth.auth, mt.token_auth.did and mt.token_auth.visitor_id are required''))))), x)"
  by (simp add: Resolve_def)

section \<open>Password mode\<close>

text \<open>
  The outcome a successful resolution promises: a complete identity, which is the one the
  store holds, bound to the account, under the current epoch.
\<close>

definition settled :: "('s \<Rightarrow> astore) \<Rightarrow> string \<Rightarrow> auth_state \<Rightarrow> epoch \<Rightarrow> 's \<Rightarrow> bool" where
  "settled \<alpha> acc st ep s \<longleftrightarrow> Complete st \<and> \<alpha> s = \<lparr>a_state = st, a_account = acc, a_epoch = ep\<rparr>"

definition login_request_of :: "('s, 'n) auth_manager \<Rightarrow> string \<Rightarrow> login_request" where
  "login_request_of m v = \<lparr>lr_Username = pa_Username (ac_PasswordAuth (am_cfg m)),
     lr_Password = pa_Password (ac_PasswordAuth (am_cfg m)),
     lr_TotpSecret = pa_TotpSecret (ac_PasswordAuth (am_cfg m)), lr_VisitorID = v\<rparr>"

lemma login_request_of_VisitorID [simp]: "lr_VisitorID (login_request_of m v) = v"
  by (simp add: login_request_of_def)

lemma loginAndSave_login:
  "loginAndSave m ctx v ep (s, n) = ((st, None), (s', n')) \<Longrightarrow>
     li_Login (am_client m) ctx (login_request_of m v) n = ((st, None), n') \<and>
     (\<exists>b. b \<and> si_SaveAuthState (am_store m) st ep s = ((b, None), s'))"
  by (auto simp: loginAndSave_def login_request_of_def split: prod.splits option.splits if_splits)

locale auth_manager_deps =
  store_contract "am_store m" \<alpha> + login_contract "am_client m"
  for m :: "('s, 'n) auth_manager" and \<alpha> :: "'s \<Rightarrow> astore"
begin

lemma loginAndSave_ok:
  assumes "loginAndSave m ctx v ep (s, n) = ((st, None), (s', n'))" and "v \<noteq> ''''"
  shows "Complete st" and "ep = a_epoch (\<alpha> s)" and "\<alpha> s' = (\<alpha> s)\<lparr>a_state := st\<rparr>"
proof -
  from loginAndSave_login [OF assms(1)]
  have l: "li_Login (am_client m) ctx (login_request_of m v) n = ((st, None), n')"
    and sv: "si_SaveAuthState (am_store m) st ep s = ((True, None), s')" by auto
  from login_complete [OF l] assms(2) show "Complete st" by simp
  from save_ok [OF sv] show "ep = a_epoch (\<alpha> s)" "\<alpha> s' = (\<alpha> s)\<lparr>a_state := st\<rparr>" by auto
qed

lemma resolve_login_ok:
  assumes "resolve_login m ctx state ep (s, n) = ((st, ep', tm, None), (s', n'))"
    and "\<alpha> s = \<lparr>a_state = state, a_account = acc, a_epoch = ep\<rparr>" and "VisitorID state \<noteq> ''''"
  shows "\<not> tm \<and> ep' = ep \<and> settled \<alpha> acc st ep s'"
proof (cases "Token state = '''' \<or> DID state = ''''")
  case True
  with assms(1) have "loginAndSave m ctx (VisitorID state) ep (s, n) = ((st, None), (s', n'))"
    and r: "\<not> tm" "ep' = ep"
    by (auto simp: resolve_login_def split: prod.splits option.splits)
  from loginAndSave_ok [OF this(1) assms(3)] r assms(2) show ?thesis by (simp add: settled_def)
next
  case False
  with assms show ?thesis by (auto simp: resolve_login_def settled_def Complete_def)
qed

lemma resolve_visitor_ok:
  assumes "resolve_visitor m ctx state ep (s, n) = ((st, ep', tm, None), (s', n'))"
    and "\<alpha> s = \<lparr>a_state = state, a_account = acc, a_epoch = ep\<rparr>"
  shows "\<not> tm \<and> ep' = ep \<and> settled \<alpha> acc st ep s'"
proof (cases "VisitorID state = ''''")
  case True
  obtain v n1 where g: "li_GenerateVisitorID (am_client m) n = (v, n1)" by fastforce
  from assms(1) True g obtain b s1 where b: b
    and sv: "si_SaveAuthState (am_store m) (state\<lparr>VisitorID := v\<rparr>) ep s = ((b, None), s1)"
    and rl: "resolve_login m ctx (state\<lparr>VisitorID := v\<rparr>) ep (s1, n1) = ((st, ep', tm, None), (s', n'))"
    by (auto simp: resolve_visitor_def Let_def split: prod.splits option.splits if_splits)
  from b sv have "\<alpha> s1 = (\<alpha> s)\<lparr>a_state := state\<lparr>VisitorID := v\<rparr>\<rparr>" using save_ok by simp
  with assms(2) visitor_nonempty [OF g] show ?thesis
    by (intro resolve_login_ok [OF rl]) auto
next
  case False
  with assms show ?thesis by (intro resolve_login_ok [of ctx state ep s n]) (auto simp: resolve_visitor_def)
qed

lemma resolve_bind_ok:
  assumes "resolve_bind m ctx acc state ep (s, n) = ((st, ep', tm, None), (s', n'))"
    and "a_state (\<alpha> s) = state" "a_epoch (\<alpha> s) = ep" "acc = am_username m \<Longrightarrow> a_account (\<alpha> s) = acc"
  shows "\<not> tm \<and> ep' = ep \<and> settled \<alpha> (am_username m) st ep s'"
proof (cases "acc = am_username m")
  case True
  with assms have "resolve_visitor m ctx state ep (s, n) = ((st, ep', tm, None), (s', n'))"
    and "\<alpha> s = \<lparr>a_state = state, a_account = am_username m, a_epoch = ep\<rparr>"
    by (auto simp: resolve_bind_def)
  then show ?thesis by (rule resolve_visitor_ok)
next
  case False
  with assms(1) obtain b s1 where b: b
    and sv: "si_SaveAuthAccount (am_store m) (am_username m) ep s = ((b, None), s1)"
    and rv: "resolve_visitor m ctx state ep (s1, n) = ((st, ep', tm, None), (s', n'))"
    by (auto simp: resolve_bind_def split: prod.splits option.splits if_splits)
  from b sv have "\<alpha> s1 = (\<alpha> s)\<lparr>a_account := am_username m\<rparr>" using bind_ok by simp
  with assms(2,3) show ?thesis by (intro resolve_visitor_ok [OF rv]) simp
qed

text \<open>What \<open>Resolve\<close> does up to the account check, on a success.\<close>

lemma Resolve_password_cases:
  assumes "Empty (ac_TokenAuth (am_cfg m))"
    and "Resolve m ctx (s, n) = ((st, ep, tm, None), (s', n'))"
  obtains (same) s1 where "\<alpha> s1 = \<alpha> s"
      "a_account (\<alpha> s) = am_username m \<or> a_state (\<alpha> s) = no_auth_state"
      "resolve_bind m ctx (a_account (\<alpha> s)) (a_state (\<alpha> s)) (a_epoch (\<alpha> s)) (s1, n) = ((st, ep, tm, None), (s', n'))"
    | (other) s1 where "\<alpha> s1 = a_reset (\<alpha> s)" "a_account (\<alpha> s) \<noteq> am_username m"
      "a_state (\<alpha> s) \<noteq> no_auth_state"
      "resolve_bind m ctx (a_account (\<alpha> s)) no_auth_state (a_epoch (\<alpha> s) + 1) (s1, n) = ((st, ep, tm, None), (s', n'))"
proof -
  from assms obtain state ep0 ok s0 where ld: "si_LoadAuthState (am_store m) s = ((state, ep0, ok, None), s0)"
    by (auto simp: Resolve_def split: prod.splits option.splits)
  note ldr = load_ok [OF ld]
  from assms ld obtain acc s1 where ac: "si_LoadAuthAccount (am_store m) s0 = ((acc, None), s1)"
    by (auto simp: Resolve_def split: prod.splits option.splits)
  note acr = account_ok [OF ac]
  show thesis
  proof (cases "acc \<noteq> am_username m \<and> \<not> Empty state")
    case False
    with assms ld ac have "resolve_bind m ctx acc state ep0 (s1, n) = ((st, ep, tm, None), (s', n'))"
      by (auto simp: Resolve_def)
    with False ldr acr show thesis by (intro same [of s1]) auto
  next
    case True
    with assms ld ac obtain ep1 s2 where rs: "si_ResetAuthState (am_store m) s1 = ((ep1, None), s2)"
      and rb: "resolve_bind m ctx acc no_auth_state ep1 (s2, n) = ((st, ep, tm, None), (s', n'))"
      by (auto simp: Resolve_def split: prod.splits option.splits)
    from reset_ok [OF rs] have "\<alpha> s2 = a_reset (\<alpha> s1)" "ep1 = a_epoch (\<alpha> s1) + 1" by (auto simp: a_reset_def)
    with True ldr acr rb show thesis by (intro other [of s2]) auto
  qed
qed

lemma Resolve_ok:
  assumes "Empty (ac_TokenAuth (am_cfg m))"
    and "Resolve m ctx (s, n) = ((st, ep, tm, None), (s', n'))"
  shows "\<not> tm \<and> settled \<alpha> (am_username m) st ep s'"
  using assms
proof (cases rule: Resolve_password_cases)
  case (same s1)
  from resolve_bind_ok [OF same(3)] same(1) show ?thesis by auto
next
  case (other s1)
  from resolve_bind_ok [OF other(4)] other(1,2) show ?thesis by (auto simp: a_reset_def)
qed

text \<open>An identity stored for another account is dropped, and the run logs in afresh.\<close>

lemma resolve_bind_login:
  assumes "resolve_bind m ctx acc no_auth_state ep (s, n) = ((st, ep', tm, None), (s', n'))"
  shows "\<exists>v n1. li_Login (am_client m) ctx (login_request_of m v) n1 = ((st, None), n')"
proof -
  from assms obtain s1 where
    "resolve_visitor m ctx no_auth_state ep (s1, n) = ((st, ep', tm, None), (s', n'))"
    by (auto simp: resolve_bind_def split: prod.splits option.splits if_splits)
  then obtain v s2 n2 where
    "resolve_login m ctx (no_auth_state\<lparr>VisitorID := v\<rparr>) ep (s2, n2) = ((st, ep', tm, None), (s', n'))"
    by (auto simp: resolve_visitor_def Let_def split: prod.splits option.splits if_splits)
  then have "loginAndSave m ctx v ep (s2, n2) = ((st, None), (s', n'))"
    by (auto simp: resolve_login_def split: prod.splits option.splits)
  from loginAndSave_login [OF this] show ?thesis by blast
qed

lemma Resolve_other_account:
  assumes "Empty (ac_TokenAuth (am_cfg m))"
    and "Resolve m ctx (s, n) = ((st, ep, tm, None), (s', n'))"
    and "a_account (\<alpha> s) \<noteq> am_username m" "a_state (\<alpha> s) \<noteq> no_auth_state"
  shows "ep = a_epoch (\<alpha> s) + 1 \<and>
    (\<exists>v n1. li_Login (am_client m) ctx (login_request_of m v) n1 = ((st, None), n'))"
  using assms(1,2)
proof (cases rule: Resolve_password_cases)
  case (same s1)
  with assms(3,4) show ?thesis by simp
next
  case (other s1)
  from resolve_bind_login [OF other(4)] resolve_bind_ok [OF other(4)] other(1,2) show ?thesis
    by (auto simp: a_reset_def settled_def)
qed

section \<open>An expired identity\<close>

lemma HandleAuthExpired_next_run:
  assumes "HandleAuthExpired m ctx ep (s, n) = ((st, ep', False, None), (s', n'))"
  shows "\<not> ac_RetryOnAuthFailure (am_cfg m) \<and> st = no_auth_state \<and> \<alpha> s' = a_reset (\<alpha> s) \<and>
    ep' = a_epoch (\<alpha> s') \<and> n' = n"
proof -
  from assms have "\<not> ac_RetryOnAuthFailure (am_cfg m)" "st = no_auth_state" "n' = n"
    and rs: "si_ResetAuthState (am_store m) s = ((ep', None), s')"
    by (auto simp: HandleAuthExpired_def Let_def split: prod.splits option.splits if_splits)
  with reset_ok [OF rs] show ?thesis by simp
qed

lemma HandleAuthExpired_retried:
  assumes "HandleAuthExpired m ctx ep (s, n) = ((st, ep', True, None), (s', n'))"
  shows "ac_RetryOnAuthFailure (am_cfg m) \<and> ep' = a_epoch (\<alpha> s) + 1 \<and>
    settled \<alpha> (am_username m) st ep' s'"
proof -
  obtain v n1 where g: "li_GenerateVisitorID (am_client m) n = (v, n1)" by fastforce
  from assms g have r: "ac_RetryOnAuthFailure (am_cfg m)"
    by (auto simp: HandleAuthExpired_def Let_def split: prod.splits option.splits if_splits)
  from assms g obtain s1 s2 s3 b1 b2 where
    rs: "si_ResetAuthState (am_store m) s = ((ep', None), s1)"
    and b1: b1 and bd: "si_SaveAuthAccount (am_store m) (am_username m) ep' s1 = ((b1, None), s2)"
    and b2: b2 and sv: "si_SaveAuthState (am_store m) (no_auth_state\<lparr>VisitorID := v\<rparr>) ep' s2 = ((b2, None), s3)"
    and lg: "loginAndSave m ctx v ep' (s3, n1) = ((st, None), (s', n'))"
    by (auto simp: HandleAuthExpired_def Let_def split: prod.splits option.splits if_splits)
  from reset_ok [OF rs] have 1: "\<alpha> s1 = a_reset (\<alpha> s)" "ep' = a_epoch (\<alpha> s) + 1" by (auto simp: a_reset_def)
  from b1 bd have 2: "\<alpha> s2 = (\<alpha> s1)\<lparr>a_account := am_username m\<rparr>" using bind_ok by simp
  from b2 sv have 3: "\<alpha> s3 = (\<alpha> s2)\<lparr>a_state := no_auth_state\<lparr>VisitorID := v\<rparr>\<rparr>" using save_ok by simp
  from loginAndSave_ok [OF lg visitor_nonempty [OF g]] r 1 2 3 show ?thesis
    by (simp add: settled_def a_reset_def)
qed

end

end
