(* ===== verification/Service.thy ===== *)
theory Service
  imports AuthManager
begin

text \<open>
  The refresh run: \<open>internal/refresh/checks.go\<close>, \<open>internal/refresh/auth.go\<close> and
  \<open>internal/refresh/service.go\<close>. The state of a run is the store's state, the state of the
  outside world behind the clients, and the notifications handed to the notifier so far with
  the context each was given; the last part is a history kept by the model.
\<close>

section \<open>The request chain\<close>

definition ctxCanceled :: goerror where
  "ctxCanceled = Sentinel CtxCanceled"

definition ctxDeadlineExceeded :: goerror where
  "ctxDeadlineExceeded = Sentinel CtxDeadlineExceeded"

definition shouldPropagateForumError :: "goerror \<Rightarrow> bool" where
  "shouldPropagateForumError err \<longleftrightarrow>
     errors_is err ctxCanceled \<or> errors_is err ctxDeadlineExceeded \<or> errors_is err (DomainError MTAuthFailed)"

definition runChecks ::
  "('ss, 'n) client_if \<Rightarrow> logctx \<Rightarrow> 'ss \<times> 'n \<Rightarrow> (profile option \<times> goerror option) \<times> 'ss \<times> 'n" where
  "runChecks C ctx x =
     (case ci_Warmup C ctx x of
        (Some err, x) \<Rightarrow> ((None, Some err), x)
      | (None, x) \<Rightarrow>
     (case ci_Profile C ctx x of
        ((_, Some err), x) \<Rightarrow> ((None, Some err), x)
      | ((prof, None), x) \<Rightarrow>
     (case ci_Warmup C ctx x of
        (Some err, x) \<Rightarrow> ((prof, Some err), x)
      | (None, x) \<Rightarrow>
     (case ci_UpdateLastBrowse C ctx x of (updateErr, x) \<Rightarrow>
      case ci_BrowseForum C ctx x of ((forumUpdated, forumErr), x) \<Rightarrow>
        if (case forumErr of None \<Rightarrow> False | Some e \<Rightarrow> shouldPropagateForumError e) then ((prof, forumErr), x)
        else if updateErr \<noteq> None \<and> \<not> forumUpdated then ((prof, updateErr), x)
        else ((prof, None), x)))))"

section \<open>The service\<close>

record ('s, 'n, 'ss) service =
  sv_timeout :: duration
  sv_store :: "'s store_if"
  sv_client :: "('ss, 'n) client_if"
  sv_auth :: "('s \<times> 'n) auth_manager_if"
  sv_notifier :: "'n notifier_if option"

record service_config =
  se_Timeout :: duration

definition NewService ::
  "service_config \<Rightarrow> ('ss, 'n) client_if \<Rightarrow> ('s \<times> 'n) auth_manager_if \<Rightarrow> 's store_if \<Rightarrow> 'n notifier_if option
     \<Rightarrow> ('s, 'n, 'ss) service" where
  "NewService cfg client auth st notifier = \<lparr>sv_timeout = se_Timeout cfg, sv_store = st, sv_client = client,
     sv_auth = auth, sv_notifier = notifier\<rparr>"

record ('s, 'n) run_state =
  rs_store :: 's
  rs_net :: 'n
  rs_notified :: "(logctx \<times> message) list"

definition notify :: "('s, 'n, 'ss) service \<Rightarrow> logctx \<Rightarrow> message \<Rightarrow> ('s, 'n) run_state \<Rightarrow> ('s, 'n) run_state" where
  "notify svc ctx msg r =
     (case sv_notifier svc of
        None \<Rightarrow> r
      | Some send \<Rightarrow> r\<lparr>rs_net := snd (send ctx msg (rs_net r)), rs_notified := rs_notified r @ [(ctx, msg)]\<rparr>)"

definition identityChanged ::
  "('s, 'n, 'ss) service \<Rightarrow> logctx \<Rightarrow> ('s, 'n) run_state \<Rightarrow> goerror option \<times> ('s, 'n) run_state" where
  "identityChanged svc ctx r =
     (let err = DomainError (WithCause RefreshIdentityChanged
                  (ErrText ''identity config changed; current run aborted''))
      in (Some err, notify svc ctx (buildMessage MessageIdentityChanged (Some err) None) r))"

text \<open>The second half of \<open>runWithSession\<close>: what is reported once the identity is written back.\<close>

definition report ::
  "('s, 'n, 'ss) service \<Rightarrow> logctx \<Rightarrow> bool \<Rightarrow> profile option \<Rightarrow> goerror option \<Rightarrow> ('s, 'n) run_state \<Rightarrow>
   goerror option \<times> ('s, 'n) run_state" where
  "report svc notifyCtx tokenMode prof err r =
     (case err of
        Some e \<Rightarrow>
          if errors_is e (DomainError MTAuthFailed) \<and> tokenMode then
            (err, notify svc notifyCtx (buildMessage MessageTokenAuthExpired err None) r)
          else if errors_is e (DomainError MTAuthFailed) then (err, r)
          else (err, notify svc notifyCtx (buildMessage MessageRefreshFailed err prof) r)
      | None \<Rightarrow> (None, notify svc notifyCtx (buildMessage MessageRefreshSucceeded None prof) r))"

definition runWithSession ::
  "('s, 'n, 'ss) service \<Rightarrow> logctx \<Rightarrow> logctx \<Rightarrow> auth_state \<Rightarrow> epoch \<Rightarrow> bool \<Rightarrow> ('s, 'n) run_state \<Rightarrow>
   goerror option \<times> ('s, 'n) run_state" where
  "runWithSession svc runCtx notifyCtx state epoch tokenMode r =
     (case runChecks (sv_client svc) runCtx (ci_NewSession (sv_client svc) state, rs_net r) of
        ((prof, err), ss, n) \<Rightarrow>
        let snapshot = ci_Snapshot (sv_client svc) ss; r = r\<lparr>rs_net := n\<rparr> in
        if \<not> tokenMode \<and> \<not> is_err err (DomainError MTAuthFailed) \<and> snapshot \<noteq> state then
          (case si_SaveAuthState (sv_store svc) snapshot epoch (rs_store r) of
             ((_, Some saveErr), s) \<Rightarrow> (Some saveErr, r\<lparr>rs_store := s\<rparr>)
           | ((saved, None), s) \<Rightarrow>
             let r = r\<lparr>rs_store := s\<rparr> in
             if \<not> saved then identityChanged svc notifyCtx r
             else report svc notifyCtx tokenMode prof err r)
        else report svc notifyCtx tokenMode prof err r)"

definition handlePasswordAuthExpired ::
  "('s, 'n, 'ss) service \<Rightarrow> logctx \<Rightarrow> logctx \<Rightarrow> epoch \<Rightarrow> goerror \<Rightarrow> ('s, 'n) run_state \<Rightarrow>
   goerror option \<times> ('s, 'n) run_state" where
  "handlePasswordAuthExpired svc runCtx notifyCtx epoch authErr r =
     (case ai_HandleAuthExpired (sv_auth svc) runCtx epoch (rs_store r, rs_net r) of
        ((state, newEpoch, retried, resetErr), s, n) \<Rightarrow>
        let r = r\<lparr>rs_store := s, rs_net := n\<rparr> in
        case resetErr of
          Some e \<Rightarrow>
            (Some e,
             if errors_is e (DomainError RefreshIdentityResetFailed) then
               notify svc notifyCtx (buildMessage MessageIdentityResetFailed resetErr None) r
             else if errors_is e (DomainError RefreshIdentityChanged) then
               notify svc notifyCtx (buildMessage MessageIdentityChanged resetErr None) r
             else notify svc notifyCtx (buildMessage MessageReloginFailed resetErr None) r)
        | None \<Rightarrow>
          if retried then
            (let r = notify svc notifyCtx (buildMessage MessagePasswordAuthExpiredRetry (Some authErr) None) r in
             case runWithSession svc runCtx notifyCtx state newEpoch False r of (retryErr, r) \<Rightarrow>
             (retryErr,
              if is_err retryErr (DomainError MTAuthFailed) then
                notify svc notifyCtx (buildMessage MessageReloginFailed retryErr None) r
              else r))
          else
            (Some authErr,
             notify svc notifyCtx (buildMessage MessagePasswordAuthExpiredNextRun (Some authErr) None) r))"

definition Run ::
  "('s, 'n, 'ss) service \<Rightarrow> logctx \<Rightarrow> ('s, 'n) run_state \<Rightarrow> goerror option \<times> ('s, 'n) run_state" where
  "Run svc appCtx r =
     (let runCtx = (if 0 < sv_timeout svc then ctx_WithTimeout (sv_timeout svc) appCtx else appCtx) in
      case ai_Resolve (sv_auth svc) runCtx (rs_store r, rs_net r) of
        ((state, epoch, tokenMode, err), s, n) \<Rightarrow>
        let r = r\<lparr>rs_store := s, rs_net := n\<rparr> in
        case err of
          Some e \<Rightarrow> (err, notify svc appCtx (buildMessage MessageRefreshFailed err None) r)
        | None \<Rightarrow>
          (case runWithSession svc runCtx appCtx state epoch tokenMode r of
             (None, r) \<Rightarrow> (None, r)
           | (Some e, r) \<Rightarrow>
             if tokenMode then (Some e, r)
             else if errors_is e (DomainError MTAuthFailed) then
               handlePasswordAuthExpired svc runCtx appCtx epoch e r
             else (Some e, r)))"

section \<open>Notifications and frames\<close>

text \<open>The messages that reach the notifier: none when there is no notifier.\<close>

definition sent :: "('s, 'n, 'ss) service \<Rightarrow> logctx \<Rightarrow> message list \<Rightarrow> (logctx \<times> message) list" where
  "sent svc ctx msgs = (if sv_notifier svc = None then [] else map (Pair ctx) msgs)"

lemma sent_append: "sent svc ctx (xs @ ys) = sent svc ctx xs @ sent svc ctx ys"
  by (simp add: sent_def)

lemma sent_Nil [simp]: "sent svc ctx [] = []"
  by (simp add: sent_def)

lemma notify_sel [simp]:
  "rs_store (notify svc ctx msg r) = rs_store r"
  "rs_notified (notify svc ctx msg r) = rs_notified r @ sent svc ctx [msg]"
  by (simp_all add: notify_def sent_def split: option.splits)

definition report_msgs :: "bool \<Rightarrow> profile option \<Rightarrow> goerror option \<Rightarrow> message list" where
  "report_msgs tokenMode prof err =
     (case err of
        Some e \<Rightarrow> if errors_is e (DomainError MTAuthFailed) then
                    (if tokenMode then [buildMessage MessageTokenAuthExpired err None] else [])
                  else [buildMessage MessageRefreshFailed err prof]
      | None \<Rightarrow> [buildMessage MessageRefreshSucceeded None prof])"

lemma report_effect:
  assumes "report svc ctx tm prof err r = (res, r')"
  shows "res = err \<and> rs_store r' = rs_store r \<and>
    rs_notified r' = rs_notified r @ sent svc ctx (report_msgs tm prof err)"
  using assms by (auto simp: report_def report_msgs_def split: option.splits if_splits)

lemma identityChanged_effect:
  assumes "identityChanged svc ctx r = (res, r')"
  shows "res = Some identityChangedError \<and> rs_store r' = rs_store r \<and>
    rs_notified r' = rs_notified r @ sent svc ctx [buildMessage MessageIdentityChanged res None]"
  using assms by (auto simp: identityChanged_def identityChangedError_def Let_def)

text \<open>The four ways \<open>runWithSession\<close> ends.\<close>

lemma runWithSession_cases:
  assumes "runWithSession svc runCtx ctx st ep tm r = (res, r')"
    and "runChecks (sv_client svc) runCtx (ci_NewSession (sv_client svc) st, rs_net r) = ((prof, err), ss, n)"
  obtains (skip) "res = err" "rs_store r' = rs_store r"
      "rs_notified r' = rs_notified r @ sent svc ctx (report_msgs tm prof err)"
      "tm \<or> is_err err (DomainError MTAuthFailed) \<or> ci_Snapshot (sv_client svc) ss = st"
    | (saved) "res = err"
      "si_SaveAuthState (sv_store svc) (ci_Snapshot (sv_client svc) ss) ep (rs_store r) = ((True, None), rs_store r')"
      "rs_notified r' = rs_notified r @ sent svc ctx (report_msgs tm prof err)"
      "\<not> tm" "\<not> is_err err (DomainError MTAuthFailed)"
    | (save_failed) b e where "res = Some e" "rs_notified r' = rs_notified r" "\<not> tm"
      "si_SaveAuthState (sv_store svc) (ci_Snapshot (sv_client svc) ss) ep (rs_store r) = ((b, Some e), rs_store r')"
    | (changed) "res = Some identityChangedError" "\<not> tm"
      "rs_notified r' = rs_notified r @ sent svc ctx [buildMessage MessageIdentityChanged res None]"
      "si_SaveAuthState (sv_store svc) (ci_Snapshot (sv_client svc) ss) ep (rs_store r) = ((False, None), rs_store r')"
proof -
  let ?save = "\<not> tm \<and> \<not> is_err err (DomainError MTAuthFailed) \<and> ci_Snapshot (sv_client svc) ss \<noteq> st"
  let ?r = "r\<lparr>rs_net := n\<rparr>"
  show thesis
  proof (cases ?save)
    case False
    with assms have "report svc ctx tm prof err ?r = (res, r')"
      by (simp add: runWithSession_def Let_def del: de_Morgan_conj split: if_splits)
    from report_effect [OF this] False show thesis by (intro skip) auto
  next
    case True
    obtain b e s where sv: "si_SaveAuthState (sv_store svc) (ci_Snapshot (sv_client svc) ss) ep (rs_store r) = ((b, e), s)"
      by (metis prod.exhaust)
    show thesis
    proof (cases e)
      case (Some x)
      with assms True sv show thesis by (intro save_failed [of x b]) (auto simp: runWithSession_def Let_def)
    next
      case None
      show thesis
      proof (cases b)
        case True
        with assms \<open>?save\<close> sv None have "report svc ctx tm prof err (?r\<lparr>rs_store := s\<rparr>) = (res, r')"
          by (auto simp: runWithSession_def Let_def)
        from report_effect [OF this] \<open>?save\<close> sv None True show thesis by (intro saved) auto
      next
        case False
        with assms \<open>?save\<close> sv None have "identityChanged svc ctx (?r\<lparr>rs_store := s\<rparr>) = (res, r')"
          by (auto simp: runWithSession_def Let_def)
        from identityChanged_effect [OF this] \<open>?save\<close> sv None False show thesis by (intro changed) auto
      qed
    qed
  qed
qed

text \<open>In token mode the session never writes to the store.\<close>

lemma runWithSession_token_store:
  "runWithSession svc runCtx ctx st ep True r = (res, r') \<Longrightarrow> rs_store r' = rs_store r"
proof -
  assume rw: "runWithSession svc runCtx ctx st ep True r = (res, r')"
  obtain prof err ss n where
    "runChecks (sv_client svc) runCtx (ci_NewSession (sv_client svc) st, rs_net r) = ((prof, err), ss, n)"
    by (metis prod.exhaust)
  from rw this show ?thesis by (cases rule: runWithSession_cases) auto
qed

section \<open>What the user is told\<close>

text \<open>In token mode a session is told of once.\<close>

lemma runWithSession_token_message:
  assumes "runWithSession svc runCtx ctx st ep True r = (res, r')"
  shows "\<exists>msg. rs_notified r' = rs_notified r @ sent svc ctx [msg]"
proof -
  obtain prof err ss n where
    rc: "runChecks (sv_client svc) runCtx (ci_NewSession (sv_client svc) st, rs_net r) = ((prof, err), ss, n)"
    by (metis prod.exhaust)
  from assms rc have "rs_notified r' = rs_notified r @ sent svc ctx (report_msgs True prof err)"
    by (cases rule: runWithSession_cases) auto
  then show ?thesis by (auto simp: report_msgs_def split: option.splits if_splits)
qed

text \<open>
  The shape of the messages of a piece of a run with the result \<open>res\<close>: at most \<open>k\<close> of them;
  a success is told by the last one and by it alone; a failure never tells of a success.
\<close>

definition told :: "nat \<Rightarrow> goerror option \<Rightarrow> message list \<Rightarrow> bool" where
  "told k res msgs \<longleftrightarrow> length msgs \<le> k \<and>
     (case res of
        None \<Rightarrow> msgs \<noteq> [] \<and> Level (last msgs) = LevelSuccess \<and> (\<forall>m\<in>set (butlast msgs). Level m \<noteq> LevelSuccess)
      | Some e \<Rightarrow> \<forall>m\<in>set msgs. Level m \<noteq> LevelSuccess)"

lemma told_report_msgs: "told (Suc 0) err (report_msgs tm prof err)"
  by (auto simp: told_def report_msgs_def split: option.splits)

lemma told_Cons: "told (Suc 0) res msgs \<Longrightarrow> Level m \<noteq> LevelSuccess \<Longrightarrow> told 2 res (m # msgs)"
  by (auto simp: told_def split: option.splits)

lemma told_mono: "told k res msgs \<Longrightarrow> k \<le> j \<Longrightarrow> told j res msgs"
  by (auto simp: told_def split: option.splits)

lemma told_single_failure: "Level m \<noteq> LevelSuccess \<Longrightarrow> told (Suc 0) (Some e) [m]"
  by (simp add: told_def)

text \<open>An error that the store gave back when asked to save an identity.\<close>

definition save_error_of :: "'s store_if \<Rightarrow> goerror \<Rightarrow> bool" where
  "save_error_of S e \<longleftrightarrow> (\<exists>st ep s b s'. si_SaveAuthState S st ep s = ((b, Some e), s'))"

lemma runWithSession_told:
  assumes "runWithSession svc runCtx ctx st ep tm r = (res, r')"
  obtains msgs where "rs_notified r' = rs_notified r @ sent svc ctx msgs" and "told (Suc 0) res msgs"
    and "msgs = [] \<longrightarrow> (\<exists>e. res = Some e \<and> (\<not> tm \<and> errors_is e (DomainError MTAuthFailed) \<or> save_error_of (sv_store svc) e))"
    and "\<not> tm \<and> is_err res (DomainError MTAuthFailed) \<longrightarrow> msgs = []"
proof -
  obtain prof err ss n where
    rc: "runChecks (sv_client svc) runCtx (ci_NewSession (sv_client svc) st, rs_net r) = ((prof, err), ss, n)"
    by (metis prod.exhaust)
  from assms rc show thesis
  proof (cases rule: runWithSession_cases)
    case skip
    then show thesis
      by (intro that [of "report_msgs tm prof err"])
         (auto simp: told_report_msgs, auto simp: report_msgs_def split: option.splits if_splits)
  next
    case saved
    then show thesis
      by (intro that [of "report_msgs tm prof err"])
         (auto simp: told_report_msgs, auto simp: report_msgs_def split: option.splits if_splits)
  next
    case (save_failed b e)
    then show thesis
      by (intro that [of "[]"]) (auto simp: told_def save_error_of_def)
  next
    case changed
    then show thesis
      by (intro that [of "[buildMessage MessageIdentityChanged res None]"])
         (auto simp: told_def identityChangedError_def)
  qed
qed

lemma handlePasswordAuthExpired_told:
  assumes "handlePasswordAuthExpired svc runCtx ctx ep e r = (res, r')"
  obtains msgs where "rs_notified r' = rs_notified r @ sent svc ctx msgs" and "told 2 res msgs" and "msgs \<noteq> []"
proof -
  obtain st ep' retried rerr s n where
    h: "ai_HandleAuthExpired (sv_auth svc) runCtx ep (rs_store r, rs_net r) = ((st, ep', retried, rerr), s, n)"
    by (metis prod.exhaust)
  let ?r = "r\<lparr>rs_store := s, rs_net := n\<rparr>"
  show thesis
  proof (cases rerr)
    case (Some x)
    with assms h show thesis
      by (auto simp: handlePasswordAuthExpired_def Let_def told_def split: if_splits intro!: that)
  next
    case None
    show thesis
    proof (cases retried)
      case False
      with assms h None show thesis
        by (auto simp: handlePasswordAuthExpired_def Let_def told_def intro!: that)
    next
      case True
      let ?m = "buildMessage MessagePasswordAuthExpiredRetry (Some e) None"
      let ?r1 = "notify svc ctx ?m ?r"
      obtain r2 where rw: "runWithSession svc runCtx ctx st ep' False ?r1 = (res, r2)"
        and r': "r' = (if is_err res (DomainError MTAuthFailed)
                       then notify svc ctx (buildMessage MessageReloginFailed res None) r2 else r2)"
        using assms h None True
        by (auto simp: handlePasswordAuthExpired_def Let_def split: prod.splits)
      from rw obtain msgs where msgs: "rs_notified r2 = rs_notified ?r1 @ sent svc ctx msgs" "told (Suc 0) res msgs"
        "is_err res (DomainError MTAuthFailed) \<longrightarrow> msgs = []"
        by (rule runWithSession_told) simp
      show thesis
      proof (cases "is_err res (DomainError MTAuthFailed)")
        case False
        with msgs r' show thesis
          by (intro that [of "?m # msgs"]) (auto simp: sent_def intro!: told_Cons)
      next
        case True
        with msgs r' show thesis
          by (intro that [of "[?m, buildMessage MessageReloginFailed res None]"])
             (auto simp: sent_def told_def is_err_def split: option.splits)
      qed
    qed
  qed
qed

lemma Run_told:
  assumes "Run svc ctx r = (res, r')"
  obtains msgs where "rs_notified r' = rs_notified r @ sent svc ctx msgs" and "told 2 res msgs"
    and "msgs = [] \<longrightarrow> (\<exists>e. res = Some e \<and> save_error_of (sv_store svc) e)"
proof -
  define rctx where "rctx = (if 0 < sv_timeout svc then ctx_WithTimeout (sv_timeout svc) ctx else ctx)"
  obtain st ep tm err s n where
    rs: "ai_Resolve (sv_auth svc) rctx (rs_store r, rs_net r) = ((st, ep, tm, err), s, n)"
    by (metis prod.exhaust)
  let ?r = "r\<lparr>rs_store := s, rs_net := n\<rparr>"
  show thesis
  proof (cases err)
    case (Some e)
    with assms rs show thesis
      by (intro that [of "[buildMessage MessageRefreshFailed err None]"])
         (auto simp: Run_def rctx_def [symmetric] Let_def told_def)
  next
    case None
    obtain res1 r1 where rw: "runWithSession svc rctx ctx st ep tm ?r = (res1, r1)" by fastforce
    from rw obtain msgs where msgs: "rs_notified r1 = rs_notified ?r @ sent svc ctx msgs" "told (Suc 0) res1 msgs"
      "msgs = [] \<longrightarrow> (\<exists>e. res1 = Some e \<and> (\<not> tm \<and> errors_is e (DomainError MTAuthFailed) \<or> save_error_of (sv_store svc) e))"
      "\<not> tm \<and> is_err res1 (DomainError MTAuthFailed) \<longrightarrow> msgs = []"
      by (rule runWithSession_told)
    show thesis
    proof (cases "\<not> tm \<and> is_err res1 (DomainError MTAuthFailed)")
      case False
      with assms rs None rw have "res = res1" "r' = r1"
        by (auto simp: Run_def rctx_def [symmetric] Let_def is_err_def split: option.splits if_splits)
      with msgs False show thesis by (intro that [of msgs]) (auto intro: told_mono)
    next
      case True
      then obtain e where e: "res1 = Some e" "errors_is e (DomainError MTAuthFailed)" "\<not> tm"
        by (auto simp: is_err_def split: option.splits)
      with assms rs None rw have "handlePasswordAuthExpired svc rctx ctx ep e r1 = (res, r')"
        by (simp add: Run_def rctx_def [symmetric] Let_def)
      then obtain ms where "rs_notified r' = rs_notified r1 @ sent svc ctx ms" "told 2 res ms" "ms \<noteq> []"
        by (rule handlePasswordAuthExpired_told)
      with msgs True show thesis by (intro that [of ms]) auto
    qed
  qed
qed

section \<open>The stored identity\<close>

context session_contract begin

lemma runChecks_rotated:
  assumes "runChecks C ctx (ss, n) = ((prof, err), ss', n')"
  shows "rotated (ci_Snapshot C ss) (ci_Snapshot C ss')"
proof -
  obtain w1 ss1 n1 where 1: "ci_Warmup C ctx (ss, n) = (w1, ss1, n1)" by (metis prod.exhaust)
  obtain p e2 ss2 n2 where 2: "ci_Profile C ctx (ss1, n1) = ((p, e2), ss2, n2)" by (metis prod.exhaust)
  obtain w3 ss3 n3 where 3: "ci_Warmup C ctx (ss2, n2) = (w3, ss3, n3)" by (metis prod.exhaust)
  obtain u4 ss4 n4 where 4: "ci_UpdateLastBrowse C ctx (ss3, n3) = (u4, ss4, n4)" by (metis prod.exhaust)
  obtain f5 e5 ss5 n5 where 5: "ci_BrowseForum C ctx (ss4, n4) = ((f5, e5), ss5, n5)" by (metis prod.exhaust)
  have "ss' \<in> {ss1, ss2, ss3, ss5}"
    using assms by (auto simp: runChecks_def 1 2 3 4 5 split: option.splits if_splits)
  moreover note r1 = warmup_rotates [OF 1]
  moreover note r2 = rotated_trans [OF r1 profile_rotates [OF 2]]
  moreover note r3 = rotated_trans [OF r2 warmup_rotates [OF 3]]
  moreover note rotated_trans [OF rotated_trans [OF r3 update_rotates [OF 4]] forum_rotates [OF 5]]
  ultimately show ?thesis by auto
qed

end

text \<open>
  The service wired as \<open>internal/app\<close> wires it: its store is the store of its auth manager.
\<close>

locale refresh_deps =
  auth_manager_deps m \<alpha> + session_contract "sv_client svc"
  for m :: "('s, 'n) auth_manager" and \<alpha> :: "'s \<Rightarrow> astore" and svc :: "('s, 'n, 'ss) service" +
  assumes same_store: "sv_store svc = am_store m"
    and same_auth: "sv_auth svc = auth_manager_iface m"
begin

lemma ai_simps [simp]:
  "ai_Resolve (sv_auth svc) = Resolve m"
  "ai_HandleAuthExpired (sv_auth svc) = HandleAuthExpired m"
  by (simp_all add: same_auth auth_manager_iface_def)

text \<open>
  A password run of a session on a settled store: unless the store fails, the store stays
  settled, and the identity it holds is the session's own, whatever the result of the checks.
\<close>

lemma runWithSession_settled:
  assumes "runWithSession svc runCtx ctx st ep False r = (res, r')"
    and "settled \<alpha> acc st ep (rs_store r)"
  obtains (save_failed) e where "res = Some e" "save_error_of (sv_store svc) e"
    | (kept) st' where "settled \<alpha> acc st' ep (rs_store r')" "rotated st st'"
      "is_err res (DomainError MTAuthFailed) \<longrightarrow> rs_store r' = rs_store r \<and> st' = st"
proof -
  obtain prof err ss n where
    rc: "runChecks (sv_client svc) runCtx (ci_NewSession (sv_client svc) st, rs_net r) = ((prof, err), ss, n)"
    by (metis prod.exhaust)
  from runChecks_rotated [OF rc] have rot: "rotated st (ci_Snapshot (sv_client svc) ss)"
    by (simp add: new_session)
  from assms(1) rc show thesis
  proof (cases rule: runWithSession_cases)
    case skip
    with assms(2) show thesis by (intro kept [of st]) auto
  next
    case saved
    from save_ok [of "ci_Snapshot (sv_client svc) ss" ep "rs_store r" "rs_store r'"] saved(2) assms(2) rot
    have "settled \<alpha> acc (ci_Snapshot (sv_client svc) ss) ep (rs_store r')"
      by (auto simp: settled_def same_store dest: rotated_Complete)
    with rot saved(1,5) show thesis by (intro kept) auto
  next
    case (save_failed b e)
    from save_failed(4) have "save_error_of (sv_store svc) e" unfolding save_error_of_def by blast
    with save_failed(1) show thesis by (rule that(1))
  next
    case changed
    with save_stale [of "ci_Snapshot (sv_client svc) ss" ep "rs_store r" "rs_store r'"] assms(2)
    show thesis by (simp add: settled_def same_store)
  qed
qed

text \<open>After a successful password run the store holds a complete identity of the account.\<close>

lemma Run_success_settled:
  assumes "Empty (ac_TokenAuth (am_cfg m))" and "Run svc ctx r = (None, r')"
  shows "\<exists>st ep. settled \<alpha> (am_username m) st ep (rs_store r')"
proof -
  define rctx where "rctx = (if 0 < sv_timeout svc then ctx_WithTimeout (sv_timeout svc) ctx else ctx)"
  obtain st ep tm err s n where rs: "Resolve m rctx (rs_store r, rs_net r) = ((st, ep, tm, err), s, n)"
    by (metis prod.exhaust)
  with assms(2) have "err = None" by (cases err) (auto simp: Run_def rctx_def [symmetric] Let_def)
  with rs have rs: "Resolve m rctx (rs_store r, rs_net r) = ((st, ep, tm, None), s, n)" by simp
  let ?r = "r\<lparr>rs_store := s, rs_net := n\<rparr>"
  from Resolve_ok [OF assms(1) rs] have tm: "\<not> tm" and st: "settled \<alpha> (am_username m) st ep s" by auto
  obtain res1 r1 where rw: "runWithSession svc rctx ctx st ep False ?r = (res1, r1)" by fastforce
  show ?thesis
  proof (cases res1)
    case None
    with assms(2) rs rw tm have "r1 = r'" by (simp add: Run_def rctx_def [symmetric] Let_def)
    from rw st have "settled \<alpha> (am_username m) st ep (rs_store ?r)" by simp
    with rw show ?thesis
      by (rule runWithSession_settled) (use None \<open>r1 = r'\<close> in auto)
  next
    case (Some e)
    with assms(2) rs rw tm have h: "handlePasswordAuthExpired svc rctx ctx ep e r1 = (None, r')"
      by (auto simp: Run_def rctx_def [symmetric] Let_def split: if_splits)
    obtain st2 ep2 rt rerr s2 n2 where
      he: "HandleAuthExpired m rctx ep (rs_store r1, rs_net r1) = ((st2, ep2, rt, rerr), s2, n2)"
      by (metis prod.exhaust)
    from h he have "rerr = None \<and> rt"
      by (auto simp: handlePasswordAuthExpired_def Let_def split: option.splits if_splits)
    with he have he: "HandleAuthExpired m rctx ep (rs_store r1, rs_net r1) = ((st2, ep2, True, None), s2, n2)" by simp
    from HandleAuthExpired_retried [OF he] have st2: "settled \<alpha> (am_username m) st2 ep2 s2" by blast
    let ?r2 = "notify svc ctx (buildMessage MessagePasswordAuthExpiredRetry (Some e) None)
                 (r1\<lparr>rs_store := s2, rs_net := n2\<rparr>)"
    from h he have rw2: "runWithSession svc rctx ctx st2 ep2 False ?r2 = (None, r')"
      by (auto simp: handlePasswordAuthExpired_def Let_def is_err_def split: prod.splits option.splits if_splits)
    from st2 have "settled \<alpha> (am_username m) st2 ep2 (rs_store ?r2)" by simp
    with rw2 show ?thesis by (rule runWithSession_settled) auto
  qed
qed

text \<open>
  An identity the server rejects, without an immediate retry: the store is reset, and the user
  is told that the next run will log in.
\<close>

lemma expired_next_run:
  assumes "\<not> ac_RetryOnAuthFailure (am_cfg m)"
    and "\<And>s ep e s'. si_ResetAuthState (am_store m) s \<noteq> ((ep, Some e), s')"
    and "handlePasswordAuthExpired svc runCtx ctx ep e r = (res, r')"
  shows "res = Some e \<and> \<alpha> (rs_store r') = a_reset (\<alpha> (rs_store r)) \<and>
    rs_notified r' = rs_notified r @ sent svc ctx [buildMessage MessagePasswordAuthExpiredNextRun (Some e) None]"
proof -
  obtain ep' rerr s' where rs: "si_ResetAuthState (am_store m) (rs_store r) = ((ep', rerr), s')"
    by (metis prod.exhaust)
  with assms(2) have n: "rerr = None" by (cases rerr) auto
  with rs assms(1) have he: "HandleAuthExpired m runCtx ep (rs_store r, rs_net r) = ((no_auth_state, ep', False, None), s', rs_net r)"
    by (simp add: HandleAuthExpired_def)
  from reset_ok [of "rs_store r" ep' s'] rs n have "\<alpha> s' = a_reset (\<alpha> (rs_store r))" by simp
  with assms(3) he show ?thesis by (auto simp: handlePasswordAuthExpired_def Let_def)
qed

text \<open>
  After a re-login whose new session is rejected as well, the store keeps the identity of that
  login: it is not reset a second time.
\<close>

lemma relogin_rejected:
  assumes "handlePasswordAuthExpired svc runCtx ctx ep e r = (res, r')"
    and "HandleAuthExpired m runCtx ep (rs_store r, rs_net r) = ((st, ep', True, None), s, n)"
    and "is_err res (DomainError MTAuthFailed)"
    and "\<And>x. res = Some x \<Longrightarrow> \<not> save_error_of (sv_store svc) x"
  shows "settled \<alpha> (am_username m) st ep' (rs_store r') \<and>
    rs_notified r' = rs_notified r @ sent svc ctx
      [buildMessage MessagePasswordAuthExpiredRetry (Some e) None, buildMessage MessageReloginFailed res None]"
proof -
  from HandleAuthExpired_retried [OF assms(2)] have st: "settled \<alpha> (am_username m) st ep' s" by blast
  let ?r = "notify svc ctx (buildMessage MessagePasswordAuthExpiredRetry (Some e) None)
              (r\<lparr>rs_store := s, rs_net := n\<rparr>)"
  obtain r2 where rw: "runWithSession svc runCtx ctx st ep' False ?r = (res, r2)"
    and r': "r' = notify svc ctx (buildMessage MessageReloginFailed res None) r2"
    using assms(1-3) by (auto simp: handlePasswordAuthExpired_def Let_def split: prod.splits)
  from rw obtain msgs where ms: "rs_notified r2 = rs_notified ?r @ sent svc ctx msgs"
    "is_err res (DomainError MTAuthFailed) \<longrightarrow> msgs = []"
    by (rule runWithSession_told) simp
  from st have "settled \<alpha> (am_username m) st ep' (rs_store ?r)" by simp
  with rw show ?thesis
  proof (cases rule: runWithSession_settled)
    case (save_failed x)
    with assms(4) show ?thesis by simp
  next
    case (kept st')
    with assms(3) r' ms st show ?thesis by (simp add: sent_def)
  qed
qed

end

section \<open>Properties\<close>

text \<open>
  C2. What the user is told of a run. Every notification of a run is given the context of the
  process and not the one with the refresh timeout, a run sends at most two, a run that
  succeeds tells of it in its last notification and nowhere else, and a run that fails never
  sends a success.
\<close>

theorem run_notifications:
  "case Run svc ctx r of (res, r') \<Rightarrow>
     \<exists>msgs. rs_notified r' = rs_notified r @ sent svc ctx msgs \<and> length msgs \<le> 2 \<and>
       (case res of
          None \<Rightarrow> (\<exists>rest m. msgs = rest @ [m] \<and> Level m = LevelSuccess \<and> LevelSuccess \<notin> Level ` set rest)
        | Some e \<Rightarrow> LevelSuccess \<notin> Level ` set msgs)"
proof (cases "Run svc ctx r")
  case (Pair res r')
  from Run_told [OF this] obtain msgs where
    sent: "rs_notified r' = rs_notified r @ sent svc ctx msgs" and told: "told 2 res msgs" by blast
  show ?thesis
  proof (cases res)
    case None
    with told have "msgs = butlast msgs @ [last msgs] \<and> Level (last msgs) = LevelSuccess \<and>
        LevelSuccess \<notin> Level ` set (butlast msgs)"
      by (auto simp: told_def)
    then have "\<exists>rest m. msgs = rest @ [m] \<and> Level m = LevelSuccess \<and> LevelSuccess \<notin> Level ` set rest" by blast
    with sent told None show ?thesis
      unfolding Pair told_def by (intro case_prodI2 exI [of _ msgs]) auto
  next
    case (Some e)
    with told have "length msgs \<le> 2 \<and> LevelSuccess \<notin> Level ` set msgs" by (force simp: told_def)
    with sent Some show ?thesis unfolding Pair by (intro case_prodI2 exI [of _ msgs]) auto
  qed
qed


end
