(* ===== verification/Adapters.thy ===== *)
theory Adapters
  imports SessionLaws Store Service
begin

text \<open>
  The adapters of \<open>internal/app/mteam_adapter.go\<close>, which give the M-Team clients the
  interfaces of the refresh package, and the wiring of \<open>internal/app/app.go\<close>: the auth manager
  and the refresh service over the identity store, the login client and the browsing client.
  The interface contracts are interpreted here on the model of the code.
\<close>

section \<open>Errors\<close>

definition domain_error :: "goerror coded_error \<Rightarrow> goerror \<Rightarrow> goerror" where
  "domain_error template err = DomainError (WithCause template err)"

definition mapAuthError :: "goerror \<Rightarrow> goerror" where
  "mapAuthError err =
     (if errors_is err (Sentinel AuthErrAuthFailed) then domain_error MTAuthFailed err
      else if errors_is err (Sentinel AuthErrHTTPStatus) then domain_error MTHTTPStatus err
      else if errors_is err (Sentinel AuthErrTOTPRequired) then domain_error MTTOTPRequired err
      else if errors_is err (Sentinel AuthErrBusiness) then domain_error MTBusinessFailed err
      else err)"

definition mapBrowseError :: "goerror \<Rightarrow> goerror" where
  "mapBrowseError err =
     (if errors_is err (Sentinel BrowseErrAuthFailed) then domain_error MTAuthFailed err
      else if errors_is err (Sentinel BrowseErrHTTPStatus) then domain_error MTHTTPStatus err
      else if errors_is err (Sentinel BrowseErrTOTPRequired) then domain_error MTTOTPRequired err
      else if errors_is err (Sentinel BrowseErrRequestBuild) then domain_error MTRequestBuildFailed err
      else if errors_is err (Sentinel BrowseErrBusiness) then domain_error MTBusinessFailed err
      else err)"

section \<open>Adapters\<close>

definition mt_login_if :: "('c, 'x) env \<Rightarrow> ('c, 'x) mt_auth_client \<Rightarrow> ('c, 'x) world login_if" where
  "mt_login_if E c = \<lparr>
     li_GenerateVisitorID = GenerateVisitorID E,
     li_Login = (\<lambda>ctx req w. case Login E c ctx req w of
         (Inl err, w) \<Rightarrow> ((no_auth_state, Some (mapAuthError err)), w)
       | (Inr st, w) \<Rightarrow> ((st, None), w))\<rparr>"

definition mt_client_if ::
  "('c, 'x) env \<Rightarrow> ('c, 'x) mt_browse_client \<Rightarrow> (identity, ('c, 'x) world) client_if" where
  "mt_client_if E c = \<lparr>
     ci_NewSession = NewSession,
     ci_Warmup = (\<lambda>ctx sw. case Warmup E c ctx sw of (err, sw) \<Rightarrow> (map_option mapBrowseError err, sw)),
     ci_Profile = (\<lambda>ctx sw. case Profile E c ctx sw of
         ((_, Some err), sw) \<Rightarrow> ((None, Some (mapBrowseError err)), sw)
       | ((p, None), sw) \<Rightarrow> ((p, None), sw)),
     ci_BrowseForum = (\<lambda>ctx sw. case BrowseForum E c ctx sw of
         ((ok, err), sw) \<Rightarrow> ((ok, map_option mapBrowseError err), sw)),
     ci_UpdateLastBrowse = (\<lambda>ctx sw. case UpdateLastBrowse E c ctx sw of
         (err, sw) \<Rightarrow> (map_option mapBrowseError err, sw)),
     ci_Snapshot = Snapshot\<rparr>"

section \<open>Wiring\<close>

text \<open>The clients that \<open>New\<close> builds over one TLS client.\<close>

definition tls_auth_client :: "('c, 'x) env \<Rightarrow> mt_auth_config \<Rightarrow> string option \<Rightarrow> ('c, 'x) mt_auth_client" where
  "tls_auth_client E cfg u = \<lparr>mc_cfg = cfg, mc_proxyURL = u,
     mc_rt = mt_chain E (mt_headers_config cfg) (Some (tls_RoundTrip E))\<rparr>"

definition tls_browse_client :: "('c, 'x) env \<Rightarrow> mt_browse_config \<Rightarrow> string option \<Rightarrow> ('c, 'x) mt_browse_client" where
  "tls_browse_client E cfg u = \<lparr>bc_cfg = cfg, bc_proxyURL = u,
     bc_rt = mt_chain E (browse_headers_config cfg) (Some (tls_RoundTrip E))\<rparr>"

lemma auth_NewClient_tls:
  "auth_NewClient E cfg (Some (tls_RoundTrip E)) = Inr c \<Longrightarrow> \<exists>u. c = tls_auth_client E cfg u"
  by (auto simp: auth_NewClient_def tls_auth_client_def split: sum.splits)

lemma browse_NewClient_tls:
  "browse_NewClient E cfg (Some (tls_RoundTrip E)) = Inr c \<Longrightarrow> \<exists>u. c = tls_browse_client E cfg u"
  by (auto simp: browse_NewClient_def tls_browse_client_def split: sum.splits)

definition app_auth_config :: "mt_auth_config \<Rightarrow> bool \<Rightarrow> auth_config" where
  "app_auth_config cfg retry = \<lparr>
     ac_PasswordAuth = \<lparr>pa_Username = pw_Username (mac_PasswordAuth cfg),
        pa_Password = pw_Password (mac_PasswordAuth cfg), pa_TotpSecret = pw_TotpSecret (mac_PasswordAuth cfg)\<rparr>,
     ac_TokenAuth = \<lparr>Token = ta_Auth (mac_TokenAuth cfg), DID = ta_DID (mac_TokenAuth cfg),
        VisitorID = ta_VisitorID (mac_TokenAuth cfg)\<rparr>,
     ac_RetryOnAuthFailure = retry\<rparr>"

record ('c, 'x) app_parts =
  pt_auth :: "('c, 'x) mt_auth_client"
  pt_browse :: "('c, 'x) mt_browse_client"
  pt_retry :: bool
  pt_timeout :: duration
  pt_notifier :: "('c, 'x) world notifier_if"

definition app_manager ::
  "('c, 'x) env \<Rightarrow> 's store_if \<Rightarrow> ('c, 'x) app_parts \<Rightarrow> ('s, ('c, 'x) world) auth_manager" where
  "app_manager E S p =
     NewAuthManager (app_auth_config (mc_cfg (pt_auth p)) (pt_retry p)) (mt_login_if E (pt_auth p)) S"

definition app_service ::
  "('c, 'x) env \<Rightarrow> 's store_if \<Rightarrow> ('c, 'x) app_parts \<Rightarrow> ('s, ('c, 'x) world, identity) service" where
  "app_service E S p =
     NewService \<lparr>se_Timeout = pt_timeout p\<rparr> (mt_client_if E (pt_browse p))
       (auth_manager_iface (app_manager E S p)) S (Some (pt_notifier p))"

lemma app_service_sel [simp]:
  "sv_timeout (app_service E S p) = pt_timeout p" "sv_store (app_service E S p) = S"
  "sv_client (app_service E S p) = mt_client_if E (pt_browse p)"
  "sv_auth (app_service E S p) = auth_manager_iface (app_manager E S p)"
  "sv_notifier (app_service E S p) = Some (pt_notifier p)"
  by (simp_all add: app_service_def NewService_def)

lemma app_manager_sel [simp]:
  "am_cfg (app_manager E S p) = app_auth_config (mc_cfg (pt_auth p)) (pt_retry p)"
  "am_client (app_manager E S p) = mt_login_if E (pt_auth p)" "am_store (app_manager E S p) = S"
  by (simp_all add: app_manager_def NewAuthManager_def)

lemma mt_login_if_sel [simp]:
  "li_GenerateVisitorID (mt_login_if E c) = GenerateVisitorID E"
  by (simp add: mt_login_if_def)

lemma auth_iface_Resolve: "ai_Resolve (auth_manager_iface m) = Resolve m"
  and auth_iface_HandleAuthExpired: "ai_HandleAuthExpired (auth_manager_iface m) = HandleAuthExpired m"
  by (simp_all add: auth_manager_iface_def)

section \<open>The contracts hold\<close>

lemma Login_ok:
  "Login E c ctx req w = (Inr st, w') \<Longrightarrow>
     Token st \<noteq> '''' \<and> DID st \<noteq> '''' \<and> VisitorID st = lr_VisitorID req"
  using login_ok [of E c ctx req False w st w'] by (auto simp: Login_def split: if_splits)

lemma li_Login_ok:
  "li_Login (mt_login_if E c) ctx req n = ((st, None), n') \<longleftrightarrow> Login E c ctx req n = (Inr st, n')"
  by (cases "Login E c ctx req n"; cases "fst (Login E c ctx req n)") (auto simp: mt_login_if_def)

interpretation mt_login: login_contract "mt_login_if E c" for E c
proof unfold_locales
  fix n v n'
  assume "li_GenerateVisitorID (mt_login_if E c) n = (v, n')"
  then show "v \<noteq> ''''" using GenerateVisitorID_nonempty [of E n] by simp
next
  fix ctx req n st n'
  assume "li_Login (mt_login_if E c) ctx req n = ((st, None), n')"
  then have "Login E c ctx req n = (Inr st, n')" by (simp only: li_Login_ok)
  then show "Token st \<noteq> '''' \<and> DID st \<noteq> '''' \<and> VisitorID st = lr_VisitorID req" by (rule Login_ok)
qed

lemma logged_tls_browse [simp]: "logged (bc_rt (tls_browse_client E cfg u))"
  by (simp add: tls_browse_client_def mt_chain_logged base_ok_tls)

lemma logged_tls_auth [simp]: "logged (mc_rt (tls_auth_client E cfg u))"
  by (simp add: tls_auth_client_def mt_chain_logged base_ok_tls)

text \<open>Every call of the adapted session is a move.\<close>

lemma mt_client_moves:
  assumes "logged (bc_rt c)"
  shows "moves sw (snd (ci_Warmup (mt_client_if E c) ctx sw))"
    and "moves sw (snd (ci_Profile (mt_client_if E c) ctx sw))"
    and "moves sw (snd (ci_BrowseForum (mt_client_if E c) ctx sw))"
    and "moves sw (snd (ci_UpdateLastBrowse (mt_client_if E c) ctx sw))"
  using Warmup_moves [OF assms, of sw E ctx] Profile_moves [OF assms, of sw E ctx]
    run_ok_BrowseForum [OF assms, of sw E ctx] UpdateLastBrowse_moves [OF assms, of sw E ctx]
  by (auto simp: mt_client_if_def run_ok_def run_at_def split: prod.split option.split)

lemma mt_client_session:
  assumes "logged (bc_rt c)"
  shows "session_contract (mt_client_if E c)"
proof
  fix st show "ci_Snapshot (mt_client_if E c) (ci_NewSession (mt_client_if E c) st) = st"
    by (simp add: mt_client_if_def)
next
  fix ctx ss n r ss' n'
  have snap: "ci_Snapshot (mt_client_if E c) s = s" for s by (simp add: mt_client_if_def)
  show "ci_Warmup (mt_client_if E c) ctx (ss, n) = (r, ss', n') \<Longrightarrow>
      rotated (ci_Snapshot (mt_client_if E c) ss) (ci_Snapshot (mt_client_if E c) ss')"
    using mt_client_moves(1) [OF assms, of "(ss, n)" E ctx] by (simp add: snap moves_def)
  show "ci_UpdateLastBrowse (mt_client_if E c) ctx (ss, n) = (r, ss', n') \<Longrightarrow>
      rotated (ci_Snapshot (mt_client_if E c) ss) (ci_Snapshot (mt_client_if E c) ss')"
    using mt_client_moves(4) [OF assms, of "(ss, n)" E ctx] by (simp add: snap moves_def)
next
  fix ctx ss n r ss' n'
  have snap: "ci_Snapshot (mt_client_if E c) s = s" for s by (simp add: mt_client_if_def)
  show "ci_Profile (mt_client_if E c) ctx (ss, n) = (r, ss', n') \<Longrightarrow>
      rotated (ci_Snapshot (mt_client_if E c) ss) (ci_Snapshot (mt_client_if E c) ss')"
    using mt_client_moves(2) [OF assms, of "(ss, n)" E ctx] by (simp add: snap moves_def)
next
  fix ctx ss n r ss' n'
  have snap: "ci_Snapshot (mt_client_if E c) s = s" for s by (simp add: mt_client_if_def)
  show "ci_BrowseForum (mt_client_if E c) ctx (ss, n) = (r, ss', n') \<Longrightarrow>
      rotated (ci_Snapshot (mt_client_if E c) ss) (ci_Snapshot (mt_client_if E c) ss')"
    using mt_client_moves(3) [OF assms, of "(ss, n)" E ctx] by (simp add: snap moves_def)
qed

interpretation mt_session: session_contract "mt_client_if E (tls_browse_client E cfg u)" for E cfg u
  by (rule mt_client_session) simp

text \<open>The assembled service keeps the contract of the refresh package, over any lawful database.\<close>

lemma app_deps:
  assumes "leveldb_laws L view" "\<And>s. full_order (ord s)" "logged (bc_rt (pt_browse p))"
  shows "refresh_deps (app_manager E (leveldb_store L ord) p) (abs_store view)
     (app_service E (leveldb_store L ord) p)"
proof -
  have "leveldb_backed L view ord" using assms(1,2) by unfold_locales
  then have st: "store_contract (leveldb_store L ord) (abs_store view)"
    by (rule leveldb_backed.store_contract_holds)
  have "auth_manager_deps (app_manager E (leveldb_store L ord) p) (abs_store view)"
    unfolding auth_manager_deps_def using st mt_login.login_contract_axioms by simp
  then show ?thesis
    unfolding refresh_deps_def refresh_deps_axioms_def using mt_client_session [OF assms(3)] by simp
qed

text \<open>
  The service as it is assembled, with the clients over the TLS client, on the database in
  memory.
\<close>

definition tls_parts ::
  "('c, 'x) env \<Rightarrow> mt_auth_config \<Rightarrow> string option \<Rightarrow> mt_browse_config \<Rightarrow> string option \<Rightarrow> bool \<Rightarrow> duration
     \<Rightarrow> ('c, 'x) world notifier_if \<Rightarrow> ('c, 'x) app_parts" where
  "tls_parts E acfg au bcfg bu retry timeout ntf = \<lparr>pt_auth = tls_auth_client E acfg au,
     pt_browse = tls_browse_client E bcfg bu, pt_retry = retry, pt_timeout = timeout, pt_notifier = ntf\<rparr>"

interpretation mem_app: refresh_deps
    "app_manager E (leveldb_store mem_leveldb source_order) (tls_parts E acfg au bcfg bu retry timeout ntf)"
    "abs_store (\<lambda>d. d)"
    "app_service E (leveldb_store mem_leveldb source_order) (tls_parts E acfg au bcfg bu retry timeout ntf)"
    for E acfg au bcfg bu retry timeout ntf
  by (rule app_deps) (simp_all add: mem_leveldb_laws tls_parts_def)

section \<open>What a run does to the world\<close>

text \<open>
  A preorder on the world that every call of the clients and the notifier follows is followed
  by a whole run.
\<close>

locale run_frame =
  fixes m :: "('s, 'n) auth_manager"
    and svc :: "('s, 'n, 'ss) service"
    and R :: "'n \<Rightarrow> 'n \<Rightarrow> bool"
  assumes same_auth: "sv_auth svc = auth_manager_iface m"
    and R_refl: "R n n"
    and R_trans: "R a b \<Longrightarrow> R b c \<Longrightarrow> R a c"
    and R_visitor: "li_GenerateVisitorID (am_client m) n = (v, n') \<Longrightarrow> R n n'"
    and R_login: "li_Login (am_client m) ctx req n = (r, n') \<Longrightarrow> R n n'"
    and R_warmup: "ci_Warmup (sv_client svc) ctx (ss, n) = (e, ss', n') \<Longrightarrow> R n n'"
    and R_profile: "ci_Profile (sv_client svc) ctx (ss, n) = (pe, ss', n') \<Longrightarrow> R n n'"
    and R_forum: "ci_BrowseForum (sv_client svc) ctx (ss, n) = (be, ss', n') \<Longrightarrow> R n n'"
    and R_update: "ci_UpdateLastBrowse (sv_client svc) ctx (ss, n) = (e, ss', n') \<Longrightarrow> R n n'"
    and R_notify: "sv_notifier svc = Some ntf \<Longrightarrow> ntf ctx msg n = (e, n') \<Longrightarrow> R n n'"
begin

lemma loginAndSave_R: "loginAndSave m ctx v ep (s, n) = (r, s', n') \<Longrightarrow> R n n'"
  by (auto simp: loginAndSave_def R_login split: prod.splits option.splits if_splits)

lemma resolve_login_R: "resolve_login m ctx st ep (s, n) = (r, s', n') \<Longrightarrow> R n n'"
  by (auto simp: resolve_login_def R_refl loginAndSave_R split: prod.splits option.splits if_splits)

lemma resolve_visitor_R: "resolve_visitor m ctx st ep (s, n) = (r, s', n') \<Longrightarrow> R n n'"
  by (auto simp: resolve_visitor_def Let_def resolve_login_R R_visitor
      intro: R_trans [OF R_visitor resolve_login_R] split: prod.splits option.splits if_splits)

lemma resolve_bind_R: "resolve_bind m ctx acc st ep (s, n) = (r, s', n') \<Longrightarrow> R n n'"
  by (auto simp: resolve_bind_def R_refl resolve_visitor_R split: prod.splits option.splits if_splits)

lemma Resolve_R: "Resolve m ctx (s, n) = (r, s', n') \<Longrightarrow> R n n'"
  by (auto simp: Resolve_def R_refl resolve_bind_R split: prod.splits option.splits if_splits)

lemma HandleAuthExpired_R: "HandleAuthExpired m ctx ep (s, n) = (r, s', n') \<Longrightarrow> R n n'"
  by (auto simp: HandleAuthExpired_def Let_def R_refl R_visitor
      intro: R_trans [OF R_visitor loginAndSave_R] split: prod.splits option.splits if_splits)

lemma notify_R: "R (rs_net r) (rs_net (notify svc ctx msg r))"
  by (auto simp: notify_def R_refl split: option.split intro: R_notify prod.collapse [symmetric])

lemma report_R: "report svc ctx tm p err r = (e, r') \<Longrightarrow> R (rs_net r) (rs_net r') \<and> e = err"
  by (auto simp: report_def notify_R R_refl split: option.splits if_splits)

lemma identityChanged_R: "identityChanged svc ctx r = (e, r') \<Longrightarrow> R (rs_net r) (rs_net r') \<and> e \<noteq> None"
  by (auto simp: identityChanged_def Let_def notify_R)

lemma runChecks_R:
  assumes "runChecks (sv_client svc) ctx (ss, n) = (r, ss', n')"
  shows "R n n'"
proof -
  let ?C = "sv_client svc"
  obtain w1 ss1 n1 where 1: "ci_Warmup ?C ctx (ss, n) = (w1, ss1, n1)" by (metis prod.exhaust)
  obtain p e2 ss2 n2 where 2: "ci_Profile ?C ctx (ss1, n1) = ((p, e2), ss2, n2)" by (metis prod.exhaust)
  obtain w3 ss3 n3 where 3: "ci_Warmup ?C ctx (ss2, n2) = (w3, ss3, n3)" by (metis prod.exhaust)
  obtain u4 ss4 n4 where 4: "ci_UpdateLastBrowse ?C ctx (ss3, n3) = (u4, ss4, n4)" by (metis prod.exhaust)
  obtain f5 e5 ss5 n5 where 5: "ci_BrowseForum ?C ctx (ss4, n4) = ((f5, e5), ss5, n5)" by (metis prod.exhaust)
  have "n' \<in> {n1, n2, n3, n5}"
    using assms by (auto simp: runChecks_def 1 2 3 4 5 split: option.splits if_splits)
  moreover note r1 = R_warmup [OF 1]
  moreover note r2 = R_trans [OF r1 R_profile [OF 2]]
  moreover note r3 = R_trans [OF r2 R_warmup [OF 3]]
  moreover note R_trans [OF R_trans [OF r3 R_update [OF 4]] R_forum [OF 5]]
  ultimately show ?thesis by auto
qed

text \<open>The part of \<open>runWithSession\<close> after the checks.\<close>

lemma runWithSession_after:
  assumes "runWithSession svc runCtx ctx st ep tm r = (e, r')"
    and "runChecks (sv_client svc) runCtx (ci_NewSession (sv_client svc) st, rs_net r) = (pe, ss, n)"
  shows "R n (rs_net r') \<and> (e = None \<longrightarrow> snd pe = None)"
proof -
  obtain p err where pe: "pe = (p, err)" by (rule prod.exhaust)
  obtain b se s where sv: "si_SaveAuthState (sv_store svc) (ci_Snapshot (sv_client svc) ss) ep (rs_store r) = ((b, se), s)"
    by (metis prod.exhaust)
  from assms pe sv show ?thesis
    by (cases "\<not> tm \<and> \<not> is_err err (DomainError MTAuthFailed) \<and> ci_Snapshot (sv_client svc) ss \<noteq> st")
       (auto simp: runWithSession_def Let_def R_refl simp del: de_Morgan_conj
         dest!: report_R identityChanged_R split: option.splits if_splits)
qed

lemma runWithSession_R:
  assumes "runWithSession svc runCtx ctx st ep tm r = (e, r')"
  shows "R (rs_net r) (rs_net r')"
proof -
  obtain pe ss n where
    rc: "runChecks (sv_client svc) runCtx (ci_NewSession (sv_client svc) st, rs_net r) = (pe, ss, n)"
    by (metis prod.exhaust)
  from R_trans [OF runChecks_R [OF rc]] runWithSession_after [OF assms rc] show ?thesis by blast
qed

text \<open>A run that succeeds contains a chain of checks that succeeded.\<close>

definition checked :: "'n \<Rightarrow> 'n \<Rightarrow> bool" where
  "checked n n' \<longleftrightarrow> (\<exists>n1 n2 st runCtx p ss. R n n1 \<and> R n2 n' \<and>
     runChecks (sv_client svc) runCtx (ci_NewSession (sv_client svc) st, n1) = ((p, None), ss, n2))"

lemma checked_earlier: "R a b \<Longrightarrow> checked b d \<Longrightarrow> checked a d"
  unfolding checked_def using R_trans by blast

lemma checked_later: "checked a b \<Longrightarrow> R b d \<Longrightarrow> checked a d"
  unfolding checked_def using R_trans by blast

lemma runWithSession_checked:
  assumes "runWithSession svc runCtx ctx st ep tm r = (None, r')"
  shows "checked (rs_net r) (rs_net r')"
proof -
  obtain p err ss n where
    rc: "runChecks (sv_client svc) runCtx (ci_NewSession (sv_client svc) st, rs_net r) = ((p, err), ss, n)"
    by (metis prod.exhaust)
  from runWithSession_after [OF assms rc] have "R n (rs_net r')" "err = None" by simp_all
  with rc R_refl show ?thesis unfolding checked_def by blast
qed

lemma handlePasswordAuthExpired_frame:
  assumes "handlePasswordAuthExpired svc runCtx ctx ep ae r = (e, r')"
  shows "R (rs_net r) (rs_net r') \<and> (e = None \<longrightarrow> checked (rs_net r) (rs_net r'))"
proof -
  obtain st ep' retried rerr s n where
    h: "HandleAuthExpired m runCtx ep (rs_store r, rs_net r) = ((st, ep', retried, rerr), s, n)"
    by (metis prod.exhaust)
  have hn: "R (rs_net r) n" using HandleAuthExpired_R [OF h] .
  have ai: "ai_HandleAuthExpired (sv_auth svc) = HandleAuthExpired m"
    by (simp add: same_auth auth_manager_iface_def)
  let ?r = "r\<lparr>rs_store := s, rs_net := n\<rparr>"
  let ?r1 = "notify svc ctx (buildMessage MessagePasswordAuthExpiredRetry (Some ae) None) ?r"
  have tell: "R (rs_net r) (rs_net (notify svc ctx msg ?r))" for msg
    using R_trans [OF hn] notify_R [of ?r ctx msg] by simp
  show ?thesis
  proof (cases "rerr = None \<and> retried")
    case False
    with assms h tell show ?thesis
      by (auto simp: handlePasswordAuthExpired_def Let_def ai split: option.splits if_splits)
  next
    case True
    obtain e2 r2 where rw: "runWithSession svc runCtx ctx st ep' False ?r1 = (e2, r2)" by (rule prod.exhaust)
    with assms h True have e: "e = e2" and r': "r' = r2 \<or> (\<exists>msg. r' = notify svc ctx msg r2)"
      by (auto simp: handlePasswordAuthExpired_def Let_def ai split: if_splits)
    have last: "R (rs_net r2) (rs_net r')" using r' notify_R R_refl by auto
    from R_trans [OF R_trans [OF tell runWithSession_R [OF rw]] last] have "R (rs_net r) (rs_net r')" .
    moreover have "checked (rs_net r) (rs_net r')" if "e = None"
      using runWithSession_checked [of runCtx ctx st ep' False ?r1 r2] rw e that
        checked_earlier [OF tell] checked_later [OF _ last] by blast
    ultimately show ?thesis by blast
  qed
qed

lemma Run_frame:
  assumes "Run svc ctx r = (e, r')"
  shows "R (rs_net r) (rs_net r') \<and> (e = None \<longrightarrow> checked (rs_net r) (rs_net r'))"
proof -
  define rctx where "rctx = (if 0 < sv_timeout svc then ctx_WithTimeout (sv_timeout svc) ctx else ctx)"
  obtain st ep tm err s n where rs: "Resolve m rctx (rs_store r, rs_net r) = ((st, ep, tm, err), s, n)"
    by (metis prod.exhaust)
  have rn: "R (rs_net r) n" using Resolve_R [OF rs] .
  have ai: "ai_Resolve (sv_auth svc) = Resolve m" by (simp add: same_auth auth_manager_iface_def)
  let ?r = "r\<lparr>rs_store := s, rs_net := n\<rparr>"
  show ?thesis
  proof (cases err)
    case (Some x)
    with assms rs have "e = Some x" "r' = notify svc ctx (buildMessage MessageRefreshFailed err None) ?r"
      by (auto simp: Run_def rctx_def [symmetric] Let_def ai)
    then show ?thesis using R_trans [OF rn] notify_R [of ?r] by simp
  next
    case None
    obtain e1 r1 where rw: "runWithSession svc rctx ctx st ep tm ?r = (e1, r1)" by (rule prod.exhaust)
    have r1: "R (rs_net r) (rs_net r1)" using R_trans [OF rn] runWithSession_R [OF rw] by simp
    show ?thesis
    proof (cases "\<not> tm \<and> is_err e1 (DomainError MTAuthFailed)")
      case False
      with assms rs None rw have eq: "e = e1" "r' = r1"
        by (auto simp: Run_def rctx_def [symmetric] Let_def ai is_err_def split: option.splits if_splits)
      have "checked (rs_net r) (rs_net r')" if "e = None"
        using runWithSession_checked [of rctx ctx st ep tm ?r r1] rw eq that checked_earlier [OF rn] by simp
      with eq r1 show ?thesis by blast
    next
      case True
      then obtain ae where ae: "e1 = Some ae" "errors_is ae (DomainError MTAuthFailed)" "\<not> tm"
        by (auto simp: is_err_def split: option.splits)
      with assms rs None rw have "handlePasswordAuthExpired svc rctx ctx ep ae r1 = (e, r')"
        by (simp add: Run_def rctx_def [symmetric] Let_def ai)
      from handlePasswordAuthExpired_frame [OF this] r1 R_trans checked_earlier [OF r1] show ?thesis by blast
    qed
  qed
qed

end

section \<open>The world of the assembled service\<close>

text \<open>At most \<open>k\<close> exchanges.\<close>

definition steps :: "nat \<Rightarrow> ('c, 'x) world \<Rightarrow> ('c, 'x) world \<Rightarrow> bool" where
  "steps k w w' \<longleftrightarrow> tc_inflight (w_tls w') = tc_inflight (w_tls w) \<and> tc_closed (w_tls w') = tc_closed (w_tls w)
     \<and> (\<exists>l. w_httplog w' = w_httplog w @ l \<and> length l \<le> k)"

lemma steps_trans: "steps j a b \<Longrightarrow> steps k b c \<Longrightarrow> steps (j + k) a c"
  unfolding steps_def by (elim conjE exE) (simp add: add_mono)

lemma steps_mono: "steps j a b \<Longrightarrow> j \<le> k \<Longrightarrow> steps k a b"
  unfolding steps_def by (meson le_trans)

lemma steps_grows: "steps k a b \<Longrightarrow> grows a b"
  unfolding steps_def grows_def by blast

lemma steps_refl [simp]: "steps k w w"
  by (simp add: steps_def)

lemma steps_asks:
  "ctx_Err E c w = (e, w') \<Longrightarrow> steps 0 w w'" "now E w = (t, w') \<Longrightarrow> steps 0 w w'"
  "draw E n w = (r, w') \<Longrightarrow> steps 0 w w'"
  by (auto simp: ctx_Err_def now_def draw_def steps_def split: prod.splits)

lemma steps0_trans: "steps 0 a b \<Longrightarrow> steps 0 b c \<Longrightarrow> steps 0 a c"
  using steps_trans [of 0 a b 0 c] by simp

lemma otp_code_steps: "otp_code E req otp w = (r, w') \<Longrightarrow> steps 0 w w'"
  by (auto simp: otp_code_def Generate_def dest: steps_asks split: if_splits prod.splits sum.splits)

lemma random_chars_steps: "random_chars (draw E) n w = (r, w') \<Longrightarrow> steps 0 w w'"
proof (induction n arbitrary: w r w')
  case (Suc n)
  obtain d w1 where d: "draw E (length digitsAndLowercase) w = (d, w1)" by (rule prod.exhaust)
  obtain q w2 where q: "random_chars (draw E) n w1 = (q, w2)" by (rule prod.exhaust)
  from steps_asks(3) [OF d] steps0_trans [OF steps_asks(3) [OF d] Suc.IH [OF q]] Suc.prems d q show ?case
    by (auto split: sum.splits)
qed simp

lemma String_steps: "String (draw E) n w = (r, w') \<Longrightarrow> steps 0 w w'"
  by (auto simp: String_def dest: random_chars_steps split: if_splits)

lemma GenerateVisitorID_steps:
  assumes "GenerateVisitorID E w = (v, w')"
  shows "steps 0 w w'"
proof -
  obtain r w1 where r: "String (draw E) 32 w = (r, w1)" by (rule prod.exhaust)
  obtain t w2 where t: "now E w1 = (t, w2)" by (rule prod.exhaust)
  from steps0_trans [OF String_steps [OF r] steps_asks(2) [OF t]] String_steps [OF r] assms r t show ?thesis
    by (auto simp: GenerateVisitorID_def split: sum.splits)
qed

lemma logged_steps: "logged rt \<Longrightarrow> rt ctx (Some r) w = (res, q, w') \<Longrightarrow> steps 1 w w'"
  unfolding logged_def steps_def by fastforce

text \<open>One attempt at a login is one exchange; the one-time password allows one more.\<close>

lemma login_attempt:
  assumes "logged (mc_rt c)" and "login E c ctx req otp w = (r, w')"
  shows "steps 1 w w' \<or> (\<not> otp \<and> (\<exists>w1. steps 1 w w1 \<and> login E c ctx req True w1 = (r, w')))"
proof -
  obtain ce w0 where ce: "ctx_Err E ctx w = (ce, w0)" by (rule prod.exhaust)
  obtain t w1 where t: "now E w0 = (t, w1)" by (rule prod.exhaust)
  obtain o2 w2 where o2: "otp_code E req otp w1 = (o2, w2)" by (rule prod.exhaust)
  obtain d w3 where d: "String (draw E) 32 w2 = (d, w3)" by (rule prod.exhaust)
  note g0 = steps_asks(1) [OF ce]
  note g2 = steps0_trans [OF steps0_trans [OF g0 steps_asks(2) [OF t]] otp_code_steps [OF o2]]
  note g3 = steps0_trans [OF g2 String_steps [OF d]]
  show ?thesis
  proof (cases "ce = None \<and> is_Inr o2 \<and> is_Inr d")
    case False
    with assms(2) ce t o2 d have "w' = w0 \<or> w' = w2 \<or> w' = w3"
      by (subst (asm) login.simps) (auto split: option.splits sum.splits)
    with g0 g2 g3 show ?thesis using steps_mono [of 0 w w' 1] by auto
  next
    case True
    then obtain code did where cd: "ce = None" "o2 = Inr code" "d = Inr did" by (auto simp: is_Inr_iff)
    obtain res err q w4 where rt: "mc_rt c ctx (Some (login_api_request c req code (t div 1000000) did)) w3 = ((res, err), q, w4)"
      by (metis prod.exhaust)
    have g4: "steps 1 w w4" using steps_trans [OF g3 logged_steps [OF assms(1) rt]] by simp
    from assms(2) ce t o2 d cd rt have "w' = w4 \<or> (\<not> otp \<and> login E c ctx req True w4 = (r, w'))"
      by (subst (asm) login.simps) (auto split: sum.splits if_splits)
    with g4 show ?thesis by blast
  qed
qed

lemma login_steps:
  assumes "logged (mc_rt c)" and "login E c ctx req otp w = (r, w')"
  shows "steps 2 w w'"
  using login_attempt [OF assms]
proof
  assume "steps 1 w w'"
  then show ?thesis by (rule steps_mono) simp
next
  assume "\<not> otp \<and> (\<exists>w1. steps 1 w w1 \<and> login E c ctx req True w1 = (r, w'))"
  then obtain w1 where w1: "steps 1 w w1" "login E c ctx req True w1 = (r, w')" by blast
  from login_attempt [OF assms(1) w1(2)] have "steps 1 w1 w'" by simp
  from steps_trans [OF w1(1) this] show ?thesis by (simp add: numeral_2_eq_2)
qed

lemma Login_steps: "logged (mc_rt c) \<Longrightarrow> Login E c ctx req w = (r, w') \<Longrightarrow> steps 2 w w'"
  by (auto simp: Login_def dest: login_steps split: if_splits)

text \<open>A notifier that only adds to the world.\<close>

definition notifier_grows :: "('c, 'x) world notifier_if \<Rightarrow> bool" where
  "notifier_grows ntf \<longleftrightarrow> (\<forall>ctx msg w e w'. ntf ctx msg w = (e, w') \<longrightarrow> grows w w')"

lemma app_frame:
  assumes "logged (mc_rt (pt_auth p))" "logged (bc_rt (pt_browse p))" "notifier_grows (pt_notifier p)"
  shows "run_frame (app_manager E S p) (app_service E S p) grows"
proof
  show "sv_auth (app_service E S p) = auth_manager_iface (app_manager E S p)" by simp
  show "grows n n" for n :: "('a, 'b) world" by simp
  show "grows a b \<Longrightarrow> grows b d \<Longrightarrow> grows a d" for a b d :: "('a, 'b) world" by (rule grows_trans)
  show "li_GenerateVisitorID (am_client (app_manager E S p)) n = (v, n') \<Longrightarrow> grows n n'" for n v n'
    using GenerateVisitorID_steps steps_grows by fastforce
  show "li_Login (am_client (app_manager E S p)) ctx req n = (r, n') \<Longrightarrow> grows n n'" for ctx req n r n'
    by (auto simp: mt_login_if_def dest!: Login_steps [OF assms(1)] steps_grows split: prod.splits sum.splits)
  show "ci_Warmup (sv_client (app_service E S p)) ctx (ss, n) = (e, ss', n') \<Longrightarrow> grows n n'" for ctx ss n e ss' n'
    using mt_client_moves(1) [OF assms(2), of "(ss, n)" E ctx] by (simp add: moves_def)
  show "ci_Profile (sv_client (app_service E S p)) ctx (ss, n) = (e, ss', n') \<Longrightarrow> grows n n'" for ctx ss n e ss' n'
    using mt_client_moves(2) [OF assms(2), of "(ss, n)" E ctx] by (simp add: moves_def)
  show "ci_BrowseForum (sv_client (app_service E S p)) ctx (ss, n) = (e, ss', n') \<Longrightarrow> grows n n'" for ctx ss n e ss' n'
    using mt_client_moves(3) [OF assms(2), of "(ss, n)" E ctx] by (simp add: moves_def)
  show "ci_UpdateLastBrowse (sv_client (app_service E S p)) ctx (ss, n) = (e, ss', n') \<Longrightarrow> grows n n'" for ctx ss n e ss' n'
    using mt_client_moves(4) [OF assms(2), of "(ss, n)" E ctx] by (simp add: moves_def)
  show "sv_notifier (app_service E S p) = Some ntf \<Longrightarrow> ntf ctx msg n = (e, n') \<Longrightarrow> grows n n'" for ntf ctx msg n e n'
    using assms(3) by (auto simp: notifier_grows_def)
qed

lemma runChecks_grows:
  assumes "logged (bc_rt c)" and "runChecks (mt_client_if E c) ctx (ss, n) = (r, ss', n')"
  shows "grows n n'"
proof -
  fix acfg S
  let ?p = "\<lparr>pt_auth = tls_auth_client E acfg None, pt_browse = c, pt_retry = False, pt_timeout = 0,
     pt_notifier = (\<lambda>ctx msg w. (None, w))\<rparr>"
  have "run_frame (app_manager E S ?p) (app_service E S ?p) grows"
    by (rule app_frame) (simp_all add: assms notifier_grows_def)
  from run_frame.runChecks_R [OF this] assms(2) show ?thesis by simp
qed

text \<open>
  The errors that stop the forum run are the ones the checks pass on, also after the adapter
  has mapped them; so checks that succeed saw a forum run without an error.
\<close>

lemma critical_propagates: "critical e \<Longrightarrow> shouldPropagateForumError (mapBrowseError e)"
  by (auto simp: critical_def shouldPropagateForumError_def mapBrowseError_def domain_error_def WithCause_def
      ctxCanceled_def ctxDeadlineExceeded_def)

lemma runChecks_confirms:
  assumes "logged (bc_rt c)" and "runChecks (mt_client_if E c) ctx (ss, n) = ((p, None), ss', n')"
  shows "confirmed (mbc_APIHost (bc_cfg c)) n n'"
proof -
  let ?C = "mt_client_if E c" and ?h = "mbc_APIHost (bc_cfg c)"
  obtain w1 ss1 n1 where 1: "ci_Warmup ?C ctx (ss, n) = (w1, ss1, n1)" by (metis prod.exhaust)
  obtain q e2 ss2 n2 where 2: "ci_Profile ?C ctx (ss1, n1) = ((q, e2), ss2, n2)" by (metis prod.exhaust)
  obtain w3 ss3 n3 where 3: "ci_Warmup ?C ctx (ss2, n2) = (w3, ss3, n3)" by (metis prod.exhaust)
  obtain u4 s4 where 4: "UpdateLastBrowse E c ctx (ss3, n3) = (u4, s4)" by (rule prod.exhaust)
  obtain f5 e5 s5 where 5: "BrowseForum E c ctx s4 = ((f5, e5), s5)" by (metis prod.exhaust)
  have m: "moves (ss, n) (ss3, n3)"
    using mt_client_moves(1) [OF assms(1), of "(ss, n)" E ctx] mt_client_moves(2) [OF assms(1), of "(ss1, n1)" E ctx]
      mt_client_moves(1) [OF assms(1), of "(ss2, n2)" E ctx] 1 2 3 by (auto intro: moves_trans)
  from assms(2) 1 2 3 4 5 have n': "n' = snd s5" and ok: "u4 = None \<or> f5"
    by (auto simp: runChecks_def mt_client_if_def split: option.splits if_splits)
  have f: "run_at ?h s4 f5 s5" using run_ok_BrowseForum [OF assms(1), of s4 E ctx] 5 by (simp add: run_ok_def)
  from ok have "confirmed ?h n3 n'"
  proof
    assume "u4 = None"
    with 4 have "confirmed ?h n3 (snd s4)" using UpdateLastBrowse_confirms [OF assms(1), of E ctx "(ss3, n3)" s4] by simp
    with f n' show ?thesis by (auto simp: run_at_def moves_def dest: confirmed_later)
  next
    assume "f5"
    with f n' have "confirmed ?h (snd s4) n'" by (simp add: run_at_def)
    moreover have "grows n3 (snd s4)" using UpdateLastBrowse_moves [OF assms(1), of "(ss3, n3)" E ctx] 4 by (simp add: moves_def)
    ultimately show ?thesis by (rule confirmed_earlier [rotated])
  qed
  with m show ?thesis by (auto simp: moves_def intro: confirmed_earlier)
qed

lemma Run_confirms:
  assumes "logged (mc_rt (pt_auth p))" "logged (bc_rt (pt_browse p))" "notifier_grows (pt_notifier p)"
    and "Run (app_service E S p) ctx r = (None, r')"
  shows "confirmed (mbc_APIHost (bc_cfg (pt_browse p))) (rs_net r) (rs_net r')"
proof -
  from run_frame.Run_frame [OF app_frame [OF assms(1-3)] assms(4)]
  have "run_frame.checked (app_service E S p) grows (rs_net r) (rs_net r')" by simp
  then obtain n1 n2 st runCtx q ss where "grows (rs_net r) n1" "grows n2 (rs_net r')"
    and "runChecks (mt_client_if E (pt_browse p)) runCtx (ci_NewSession (mt_client_if E (pt_browse p)) st, n1) = ((q, None), ss, n2)"
    unfolding run_frame.checked_def [OF app_frame [OF assms(1-3)]] by auto
  with runChecks_confirms [OF assms(2)] show ?thesis by (meson confirmed_earlier confirmed_later)
qed

end
