(* ===== verification/Notify.thy ===== *)
theory Notify
  imports Channels Adapters
begin

text \<open>
  The notification manager of \<open>pkg/apikit/apinotify\<close>: the configuration with its validation
  (\<open>config.go\<close>), the manager (\<open>manager.go\<close>, \<open>errors.go\<close>), and the adapter of
  \<open>internal/app/notify_adapter.go\<close>. The goroutines of \<open>Notify\<close> send in some order, the
  argument \<open>sched\<close>, which permutes the channels; each \<open>Send\<close> is one step, and the errors
  arrive in that order.
\<close>

section \<open>Configuration\<close>

record notify_config =
  nc_Timeout :: float64
  nc_QQPush :: qqpush_config
  nc_Weixin :: weixin_config
  nc_DingTalk :: dingtalk_config
  nc_Telegram :: telegram_config
  nc_Feishu :: feishu_config
  nc_Ntfy :: ntfy_config

text \<open>The first validator that complains decides.\<close>

fun first_error :: "goerror option list \<Rightarrow> goerror option" where
  "first_error [] = None"
| "first_error (e # es) = (case e of Some x \<Rightarrow> Some x | None \<Rightarrow> first_error es)"

definition notify_Validate :: "notify_config \<Rightarrow> goerror option" where
  "notify_Validate c =
     (if f_le (nc_Timeout c) (Fin 0) then Some (ErrText ''notify timeout must be > 0'')
      else first_error [qqpush_Validate (nc_QQPush c), weixin_Validate (nc_Weixin c),
             dingtalk_Validate (nc_DingTalk c), telegram_Validate (nc_Telegram c),
             feishu_Validate (nc_Feishu c), ntfy_Validate (nc_Ntfy c)])"

section \<open>Messages\<close>

text \<open>The message of the package (\<open>message.go\<close>), with the fields the program leaves empty.\<close>

type_synonym notify_level = string

definition notify_LevelInfo :: notify_level where
  "notify_LevelInfo = ''info''"

definition notify_LevelSuccess :: notify_level where
  "notify_LevelSuccess = ''success''"

definition notify_LevelWarning :: notify_level where
  "notify_LevelWarning = ''warning''"

definition notify_LevelError :: notify_level where
  "notify_LevelError = ''error''"

record notify_message =
  an_Title :: string
  an_Body :: string
  an_Level :: notify_level
  an_Tags :: "string list"
  an_Metadata :: strmap

section \<open>The manager\<close>

datatype channel =
    ChBase
  | ChQQPush qqpush
  | ChWeixin weixin
  | ChDingTalk dingtalk
  | ChTelegram telegram_bot
  | ChFeishu feishu_bot
  | ChNtfy ntfy

fun channel_Name :: "channel \<Rightarrow> string" where
  "channel_Name ChBase = ''base''"
| "channel_Name (ChQQPush c) = ''qqpush''"
| "channel_Name (ChWeixin c) = ''weixin''"
| "channel_Name (ChDingTalk c) = ''dingtalk''"
| "channel_Name (ChTelegram c) = ''telegram''"
| "channel_Name (ChFeishu c) = ''feishu''"
| "channel_Name (ChNtfy c) = ''ntfy''"

fun channel_Send ::
  "('c, 'x) env \<Rightarrow> ('c, 'x) world round_trip option \<Rightarrow> channel \<Rightarrow> logctx \<Rightarrow> string \<Rightarrow> string \<Rightarrow> ('c, 'x) world
     \<Rightarrow> goerror option \<times> ('c, 'x) world" where
  "channel_Send E rt ChBase ctx title body w = base_Send ctx title body w"
| "channel_Send E rt (ChQQPush c) ctx title body w = qqpush_Send c rt ctx title body w"
| "channel_Send E rt (ChWeixin c) ctx title body w = weixin_Send E c rt ctx title body w"
| "channel_Send E rt (ChDingTalk c) ctx title body w = dingtalk_Send E c rt ctx title body w"
| "channel_Send E rt (ChTelegram c) ctx title body w = telegram_Send E c rt ctx title body w"
| "channel_Send E rt (ChFeishu c) ctx title body w = feishu_Send E c rt ctx title body w"
| "channel_Send E rt (ChNtfy c) ctx title body w = ntfy_Send c rt ctx title body w"

record managed_notifier =
  mn_notifier :: channel
  mn_timeout :: duration
  mn_proxy :: string

record ('c, 'x) manager =
  mg_notifiers :: "managed_notifier list"
  mg_timeout :: duration
  mg_sender :: "('c, 'x) world round_trip option"
  mg_proxy :: string
  mg_closing :: bool
  mg_active :: nat

definition systemProxyFor :: "('c, 'x) manager \<Rightarrow> bool \<Rightarrow> string" where
  "systemProxyFor m useSystemProxy = (if useSystemProxy then mg_proxy m else '''')"

definition telegramProxy :: "('c, 'x) manager \<Rightarrow> telegram_config \<Rightarrow> string" where
  "telegramProxy m cfg = (if tg_Proxy cfg \<noteq> '''' then tg_Proxy cfg else systemProxyFor m (tg_UseSystemProxy cfg))"

definition add ::
  "(float64 \<Rightarrow> int) \<Rightarrow> channel \<Rightarrow> float64 \<Rightarrow> string \<Rightarrow> ('c, 'x) manager \<Rightarrow> ('c, 'x) manager" where
  "add oob n timeoutSeconds proxy m =
     (let timeout = (if f_lt (Fin 0) timeoutSeconds then SecondsDuration oob timeoutSeconds else mg_timeout m)
      in m\<lparr>mg_notifiers := mg_notifiers m @ [\<lparr>mn_notifier = n, mn_timeout = timeout, mn_proxy = proxy\<rparr>]\<rparr>)"

definition add_if ::
  "bool \<Rightarrow> (float64 \<Rightarrow> int) \<Rightarrow> channel \<Rightarrow> float64 \<Rightarrow> (('c, 'x) manager \<Rightarrow> string) \<Rightarrow> ('c, 'x) manager \<Rightarrow> ('c, 'x) manager" where
  "add_if enabled oob n timeoutSeconds proxy m = (if enabled then add oob n timeoutSeconds (proxy m) m else m)"

text \<open>An option changes the manager before the channels are added.\<close>

type_synonym ('c, 'x) manager_option = "('c, 'x) manager \<Rightarrow> ('c, 'x) manager"

definition SystemProxy :: "string \<Rightarrow> ('c, 'x) manager_option" where
  "SystemProxy proxy m = m\<lparr>mg_proxy := proxy\<rparr>"

definition newManager ::
  "(float64 \<Rightarrow> int) \<Rightarrow> notify_config \<Rightarrow> ('c, 'x) world round_trip option \<Rightarrow> ('c, 'x) manager_option list \<Rightarrow> ('c, 'x) manager" where
  "newManager oob cfg sender options =
     (let timeout = (if f_lt (Fin 0) (nc_Timeout cfg) then SecondsDuration oob (nc_Timeout cfg) else 300 * second);
          m = \<lparr>mg_notifiers = [], mg_timeout = timeout, mg_sender = sender, mg_proxy = '''', mg_closing = False,
                mg_active = 0\<rparr>;
          m = fold (\<lambda>option. option) options m;
          m = add oob ChBase (Fin 0) '''' m;
          m = add_if (qq_Enabled (nc_QQPush cfg)) oob (ChQQPush (qqpush_New (nc_QQPush cfg))) (qq_Timeout (nc_QQPush cfg))
                (\<lambda>m. systemProxyFor m (qq_UseSystemProxy (nc_QQPush cfg))) m;
          m = add_if (wx_Enabled (nc_Weixin cfg)) oob (ChWeixin (weixin_New (nc_Weixin cfg))) (wx_Timeout (nc_Weixin cfg))
                (\<lambda>m. systemProxyFor m (wx_UseSystemProxy (nc_Weixin cfg))) m;
          m = add_if (dd_Enabled (nc_DingTalk cfg)) oob (ChDingTalk (dingtalk_New (nc_DingTalk cfg))) (dd_Timeout (nc_DingTalk cfg))
                (\<lambda>m. systemProxyFor m (dd_UseSystemProxy (nc_DingTalk cfg))) m;
          m = add_if (tg_Enabled (nc_Telegram cfg)) oob (ChTelegram (telegram_New (nc_Telegram cfg))) (tg_Timeout (nc_Telegram cfg))
                (\<lambda>m. telegramProxy m (nc_Telegram cfg)) m;
          m = add_if (fs_Enabled (nc_Feishu cfg)) oob (ChFeishu (feishu_New (nc_Feishu cfg))) (fs_Timeout (nc_Feishu cfg))
                (\<lambda>m. systemProxyFor m (fs_UseSystemProxy (nc_Feishu cfg))) m
      in add_if (nt_Enabled (nc_Ntfy cfg)) oob (ChNtfy (ntfy_New (nc_Ntfy cfg))) (nt_Timeout (nc_Ntfy cfg))
           (\<lambda>m. systemProxyFor m (nt_UseSystemProxy (nc_Ntfy cfg))) m)"

definition NewManager ::
  "('c, 'x) env \<Rightarrow> (float64 \<Rightarrow> int) \<Rightarrow> notify_config \<Rightarrow> ('c, 'x) world round_trip option \<Rightarrow> ('c, 'x) manager_option list \<Rightarrow> ('c, 'x) manager" where
  "NewManager E oob cfg base options = newManager oob cfg (Some (Chain base [Logging E, Proxy])) options"

text \<open>The context of one channel: its own timeout, and its proxy when it has one.\<close>

definition send_context :: "managed_notifier \<Rightarrow> logctx \<Rightarrow> logctx" where
  "send_context item ctx =
     (let sendCtx = ctx_WithTimeout (mn_timeout item) ctx
      in if mn_proxy item \<noteq> ''''
         then ctx_WrapContext '''' (Some (lc_ctx (WithProxy sendCtx (mn_proxy item)))) (Some sendCtx)
         else sendCtx)"

text \<open>One goroutine of \<open>Notify\<close>: what it leaves in the error channel, if anything.\<close>

definition send_item ::
  "('c, 'x) env \<Rightarrow> ('c, 'x) world round_trip option \<Rightarrow> logctx \<Rightarrow> notify_message \<Rightarrow> managed_notifier \<Rightarrow> ('c, 'x) world
     \<Rightarrow> goerror option \<times> ('c, 'x) world" where
  "send_item E rt ctx msg item w =
     (case channel_Send E rt (mn_notifier item) (send_context item ctx) (an_Title msg) (an_Body msg) w of (err, w) \<Rightarrow>
        (map_option (\<lambda>e. SendError (channel_Name (mn_notifier item)) (Some e)) err, w))"

fun send_all ::
  "('c, 'x) env \<Rightarrow> ('c, 'x) world round_trip option \<Rightarrow> managed_notifier list \<Rightarrow> logctx \<Rightarrow> notify_message \<Rightarrow> ('c, 'x) world
     \<Rightarrow> goerror option list \<times> ('c, 'x) world" where
  "send_all E rt [] ctx msg w = ([], w)"
| "send_all E rt (item # items) ctx msg w =
     (case send_item E rt ctx msg item w of (err, w) \<Rightarrow>
      case send_all E rt items ctx msg w of (errs, w) \<Rightarrow> (err # errs, w))"

text \<open>
  The critical sections of \<open>Notify\<close>: entering, which a closing manager refuses and which counts
  the call in the wait group, and the deferred \<open>wg.Done\<close>.
\<close>

definition notify_enter :: "('c, 'x) manager \<Rightarrow> ('c, 'x) manager option" where
  "notify_enter m = (if mg_closing m then None else Some (m\<lparr>mg_active := mg_active m + 1\<rparr>))"

definition notify_leave :: "('c, 'x) manager \<Rightarrow> ('c, 'x) manager" where
  "notify_leave m = m\<lparr>mg_active := mg_active m - 1\<rparr>"

text \<open>
  \<open>Notify\<close> for one caller. It leaves the manager as it found it (\<open>notify_leave_enter\<close>), so the
  manager is no part of the result.
\<close>

definition manager_Notify ::
  "('c, 'x) env \<Rightarrow> (managed_notifier list \<Rightarrow> managed_notifier list) \<Rightarrow> ('c, 'x) manager \<Rightarrow> logctx \<Rightarrow> notify_message
     \<Rightarrow> ('c, 'x) world \<Rightarrow> goerror option \<times> ('c, 'x) world" where
  "manager_Notify E sched m ctx msg w =
     (case notify_enter m of
        None \<Rightarrow> (Some (Sentinel NotifyErrManagerClosed), w)
      | Some m \<Rightarrow>
          (case send_all E (mg_sender m) (sched (mg_notifiers m)) ctx msg w of
             (errs, w) \<Rightarrow> (errors_join errs, w)))"

lemma notify_leave_enter: "notify_enter m = Some m' \<Longrightarrow> notify_leave m' = m"
  by (auto simp: notify_enter_def notify_leave_def split: if_splits)

text \<open>
  \<open>Close\<close> marks the manager, waits for the calls inside (\<open>None\<close> says that it waits), and then
  closes the channels that are an \<open>io.Closer\<close>. No channel of the program has a \<open>Close\<close> method.
\<close>

definition close_mark :: "('c, 'x) manager \<Rightarrow> ('c, 'x) manager" where
  "close_mark m = m\<lparr>mg_closing := True\<rparr>"

definition channel_closer :: "channel \<Rightarrow> goerror option option" where
  "channel_closer ch = None"

fun close_channels :: "managed_notifier list \<Rightarrow> goerror option list" where
  "close_channels [] = []"
| "close_channels (item # items) =
     (case channel_closer (mn_notifier item) of
        None \<Rightarrow> close_channels items
      | Some err \<Rightarrow> map_option (wrap_prefix (channel_Name (mn_notifier item))) err # close_channels items)"

definition manager_Close :: "('c, 'x) manager \<Rightarrow> (goerror option \<times> ('c, 'x) manager) option" where
  "manager_Close m =
     (let m = close_mark m
      in if mg_active m = 0 then Some (errors_join (close_channels (mg_notifiers m)), m) else None)"

text \<open>\<open>notifyAdapter.Notify\<close>: the levels have the same names on both sides, and an unknown one is \<open>info\<close>.\<close>

definition adapt_level :: "message_level \<Rightarrow> notify_level" where
  "adapt_level l =
     (if l = LevelSuccess then notify_LevelSuccess else if l = LevelWarning then notify_LevelWarning
      else if l = LevelError then notify_LevelError else notify_LevelInfo)"

definition notify_adapter ::
  "('c, 'x) env \<Rightarrow> (managed_notifier list \<Rightarrow> managed_notifier list) \<Rightarrow> ('c, 'x) manager \<Rightarrow> ('c, 'x) world notifier_if" where
  "notify_adapter E sched m ctx msg w =
     manager_Notify E sched m ctx
       \<lparr>an_Title = Title msg, an_Body = Body msg, an_Level = adapt_level (Level msg), an_Tags = [], an_Metadata = []\<rparr> w"

section \<open>What sending does\<close>

lemma chain_logging_logged:
  assumes "base_ok base"
  shows "logged (Chain (Some base) [Logging E, Proxy])"
  unfolding logged_def
proof (intro allI impI)
  fix ctx r w res req' w'
  assume "Chain (Some base) [Logging E, Proxy] ctx (Some r) w = (res, req', w')"
  then have "Logging E (Proxy base) ctx (Some r) w = (res, req', w')" by simp
  then show "tc_inflight (w_tls w') = tc_inflight (w_tls w) \<and> tc_closed (w_tls w') = tc_closed (w_tls w)
     \<and> (\<exists>ev. w_httplog w' = w_httplog w @ [(lc_logid ctx, ev)] \<and> recorded r res ev)"
  proof (rule Logging_records)
    fix w1 res req' w2
    assume "Proxy base ctx (Some r) w1 = (res, req', w2)"
    then have "base ctx (Some (if rq_Proxy r = '''' then r\<lparr>rq_Proxy := ProxyFromContext ctx\<rparr> else r)) w1 = (res, req', w2)"
      by (simp add: Proxy_def)
    with assms have "req' = Some (if rq_Proxy r = '''' then r\<lparr>rq_Proxy := ProxyFromContext ctx\<rparr> else r) \<and> w_httplog w2 = w_httplog w1
        \<and> tc_inflight (w_tls w2) = tc_inflight (w_tls w1) \<and> tc_closed (w_tls w2) = tc_closed (w_tls w1)"
      unfolding base_ok_def by blast
    then show "(\<exists>r'. req' = Some r' \<and> rq_URL r' = rq_URL r \<and> rq_Method r' = rq_Method r) \<and> w_httplog w2 = w_httplog w1
       \<and> tc_inflight (w_tls w2) = tc_inflight (w_tls w1) \<and> tc_closed (w_tls w2) = tc_closed (w_tls w1)"
      by auto
  qed
qed

lemma client_do_grows:
  assumes "logged rt" "client_do (Some rt) ctx req w = (r, w')"
  shows "grows w w'"
proof -
  obtain resp err q w1 where rt: "rt ctx (Some req) w = ((resp, err), q, w1)" by (metis prod.exhaust)
  from steps_grows [OF logged_steps [OF assms(1) rt]] assms(2) rt show ?thesis
    by (auto simp: client_do_def client_Do_def split: option.splits)
qed

lemma PostJSON_grows: "logged rt \<Longrightarrow> grows w (snd (PostJSON (Some rt) ctx s u b h w))"
  unfolding PostJSON_def by (rule client_do_grows [OF _ prod.collapse [symmetric]])

lemma GetJSON_grows: "logged rt \<Longrightarrow> grows w (snd (GetJSON (Some rt) ctx s u h w))"
  unfolding GetJSON_def by (rule client_do_grows [OF _ prod.collapse [symmetric]])

lemma accessToken_grows: "logged rt \<Longrightarrow> grows w (snd (accessToken E x (Some rt) ctx w))"
  by (simp add: accessToken_def Let_def GetJSON_grows)

lemma weixin_Send_grows:
  assumes "logged rt"
  shows "grows w (snd (weixin_Send E c (Some rt) ctx t b w))"
proof -
  obtain r w1 where a: "accessToken E c (Some rt) ctx w = (r, w1)" by (rule prod.exhaust)
  then have g: "grows w w1" using accessToken_grows [OF assms, of w E c ctx] by simp
  with a grows_trans [OF g PostJSON_grows [OF assms]] show ?thesis
    by (cases r) (simp_all add: weixin_Send_def Let_def)
qed

lemma dingtalk_Send_grows:
  assumes "logged rt"
  shows "grows w (snd (dingtalk_Send E c (Some rt) ctx t b w))"
proof -
  obtain n w1 where n: "now E w = (n, w1)" by (rule prod.exhaust)
  with grows_trans [OF grows_now [OF n] PostJSON_grows [OF assms]] show ?thesis
    by (simp add: dingtalk_Send_def dingtalk_generateSign_def Let_def)
qed

lemma telegram_Send_grows:
  assumes "logged rt"
  shows "grows w (snd (telegram_Send E c (Some rt) ctx t b w))"
proof -
  obtain e w1 where n: "ctx_Err E ctx w = (e, w1)" by (rule prod.exhaust)
  with grows_ctx_Err [OF n] grows_trans [OF grows_ctx_Err [OF n] PostJSON_grows [OF assms]] show ?thesis
    by (cases e) (simp_all add: telegram_Send_def Let_def)
qed

lemma feishu_sendRequest_grows: "logged rt \<Longrightarrow> grows w (snd (feishu_sendRequest E c (Some rt) ctx d w))"
  by (simp add: feishu_sendRequest_def PostJSON_grows)

lemma feishu_generateSign_grows: "feishu_generateSign E c w = (r, w') \<Longrightarrow> grows w w'"
  by (auto simp: feishu_generateSign_def Let_def dest: grows_now split: if_splits prod.splits)

lemma feishu_Send_grows:
  assumes "logged rt"
  shows "grows w (snd (feishu_Send E c (Some rt) ctx t b w))"
proof -
  obtain sg ts w1 where n: "feishu_generateSign E c w = ((sg, ts), w1)" by (metis prod.exhaust)
  from grows_trans [OF feishu_generateSign_grows [OF n] feishu_sendRequest_grows [OF assms]] n
  show ?thesis by (simp add: feishu_Send_def Let_def feishu_sendRequest_grows [OF assms])
qed

lemma qqpush_Send_grows: "logged rt \<Longrightarrow> grows w (snd (qqpush_Send c (Some rt) ctx t b w))"
  by (simp add: qqpush_Send_def Let_def PostJSON_grows)

lemma ntfy_Send_grows: "logged rt \<Longrightarrow> grows w (snd (ntfy_Send c (Some rt) ctx t b w))"
  by (simp add: ntfy_Send_def ntfy_sendRequest_def Let_def PostJSON_grows)

lemma base_Send_grows: "grows w (snd (base_Send ctx t b w))"
  by (simp add: base_Send_def Let_def grows_def)

lemma channel_Send_grows: "logged rt \<Longrightarrow> grows w (snd (channel_Send E (Some rt) ch ctx t b w))"
  by (cases ch) (simp_all add: base_Send_grows qqpush_Send_grows weixin_Send_grows dingtalk_Send_grows
      telegram_Send_grows feishu_Send_grows ntfy_Send_grows)

lemma send_item_grows: "logged rt \<Longrightarrow> grows w (snd (send_item E (Some rt) ctx msg item w))"
  using channel_Send_grows [of rt w E "mn_notifier item" "send_context item ctx" "an_Title msg" "an_Body msg"]
  by (auto simp: send_item_def split: prod.splits)

lemma send_all_grows: "logged rt \<Longrightarrow> send_all E (Some rt) items ctx msg w = (es, w') \<Longrightarrow> grows w w'"
proof (induction items arbitrary: w es w')
  case (Cons i rest)
  obtain e w1 where c: "send_item E (Some rt) ctx msg i w = (e, w1)" by (rule prod.exhaust)
  obtain es1 w2 where s: "send_all E (Some rt) rest ctx msg w1 = (es1, w2)" by (rule prod.exhaust)
  have "grows w w1" using send_item_grows [OF Cons.prems(1), of w E ctx msg i] c by simp
  from grows_trans [OF this Cons.IH [OF Cons.prems(1) s]] Cons.prems(2) c s show ?case by simp
qed simp

lemma newManager_sel [simp]:
  "mg_sender (newManager oob cfg rt [SystemProxy p]) = rt" "mg_active (newManager oob cfg rt [SystemProxy p]) = 0"
  "\<not> mg_closing (newManager oob cfg rt [SystemProxy p])"
  by (simp_all add: newManager_def SystemProxy_def Let_def add_def add_if_def)

lemma NewManager_sel [simp]:
  "mg_active (NewManager E oob cfg base [SystemProxy p]) = 0"
  "\<not> mg_closing (NewManager E oob cfg base [SystemProxy p])"
  by (simp_all add: NewManager_def)

lemma notify_enter_cases:
  "notify_enter m = None \<longleftrightarrow> mg_closing m"
  "notify_enter m = Some m' \<longleftrightarrow> \<not> mg_closing m \<and> m' = m\<lparr>mg_active := mg_active m + 1\<rparr>"
  by (auto simp: notify_enter_def)

lemma notify_adapter_grows:
  "notifier_grows (notify_adapter E sched (NewManager E oob cfg (Some (tls_RoundTrip E)) [SystemProxy p]))"
  by (auto simp: notifier_grows_def notify_adapter_def manager_Notify_def NewManager_def notify_enter_cases
      simp del: chain_order dest!: send_all_grows [OF chain_logging_logged [OF base_ok_tls]]
      split: option.splits prod.splits)

section \<open>Every channel is tried\<close>

lemma length_send_all: "length (fst (send_all E rt items ctx msg w)) = length items"
proof (induction items arbitrary: w)
  case (Cons i rest)
  obtain e w1 where c: "send_item E rt ctx msg i w = (e, w1)" by (rule prod.exhaust)
  obtain es w2 where "send_all E rt rest ctx msg w1 = (es, w2)" by (rule prod.exhaust)
  with c Cons.IH [of w1] show ?case by simp
qed simp

lemma base_first:
  "\<exists>items t. mg_notifiers (newManager oob cfg rt [SystemProxy p]) = \<lparr>mn_notifier = ChBase, mn_timeout = t, mn_proxy = ''''\<rparr> # items"
  by (simp add: newManager_def SystemProxy_def Let_def add_def add_if_def)

text \<open>The frame of a whole run holds of the assembled service with this notifier.\<close>

interpretation tls_frame: run_frame
    "app_manager E S (tls_parts E acfg au bcfg bu retry timeout
       (notify_adapter E sched (NewManager E oob ncfg (Some (tls_RoundTrip E)) [SystemProxy p])))"
    "app_service E S (tls_parts E acfg au bcfg bu retry timeout
       (notify_adapter E sched (NewManager E oob ncfg (Some (tls_RoundTrip E)) [SystemProxy p])))"
    grows
    for E S acfg au bcfg bu retry timeout sched oob ncfg p
  by (rule app_frame) (simp_all add: tls_parts_def notify_adapter_grows)

lemma send_all_nth:
  "k < length items \<Longrightarrow>
     fst (send_all E rt items ctx msg w) ! k =
       fst (send_item E rt ctx msg (items ! k) (snd (send_all E rt (take k items) ctx msg w)))"
proof (induction items arbitrary: w k)
  case (Cons i rest)
  obtain e w1 where c: "send_item E rt ctx msg i w = (e, w1)" by (rule prod.exhaust)
  obtain es w2 where s: "send_all E rt rest ctx msg w1 = (es, w2)" by (rule prod.exhaust)
  show ?case
  proof (cases k)
    case 0
    with c s show ?thesis by simp
  next
    case (Suc j)
    obtain es' w3 where s': "send_all E rt (take j rest) ctx msg w1 = (es', w3)" by (rule prod.exhaust)
    from Cons.IH [of j w1] Cons.prems Suc c s s' show ?thesis by simp
  qed
qed simp

section \<open>Properties\<close>


text \<open>The manager of a configuration that enables no channel: it has the base channel only.\<close>

definition base_item :: managed_notifier where
  "base_item = \<lparr>mn_notifier = ChBase, mn_timeout = 300 * second, mn_proxy = ''''\<rparr>"

definition base_only :: "(unit, unit) manager" where
  "base_only = \<lparr>mg_notifiers = [base_item], mg_timeout = 300 * second, mg_sender = None, mg_proxy = '''',
     mg_closing = False, mg_active = 0\<rparr>"

lemma base_only_sel [simp]:
  "mg_notifiers base_only = [base_item]" "\<not> mg_closing base_only" "mn_notifier base_item = ChBase"
  by (simp_all add: base_only_def base_item_def)


end
