(* ===== verification/Conf.thy ===== *)
theory Conf
  imports GoErrors GoNumbers
begin

text \<open>
  The configuration of \<open>pkg/conf\<close>: the tables of \<open>conf/app.toml\<close> (\<open>app.go\<close>), loading and the
  rejection of removed and unknown keys (\<open>loader.go\<close>, \<open>app.go\<close>). Reading a file, the TOML
  decoder and the cron parser are arguments: \<open>read\<close> gives the contents of a path, \<open>decode\<close>
  the decoded value with the keys it could not place, \<open>cron\<close> the error of a crontab.
\<close>

record system_config =
  sc_Proxy :: string

record scheduler_config =
  sd_Crontab :: string
  sd_MinDelay :: float64
  sd_MaxDelay :: float64

record refresh_config =
  rc_Timeout :: float64
  rc_RetryOnAuthFailure :: bool

record conf_password_auth =
  cpa_Username :: string
  cpa_Password :: string
  cpa_TotpSecret :: string

record conf_token_auth =
  cta_Auth :: string
  cta_DID :: string
  cta_VisitorID :: string

record mteam_header_config =
  mh_Version :: string
  mh_WebVersion :: string
  mh_UserAgent :: string

record mteam_config =
  mt_Proxy :: string
  mt_APIHost :: string
  mt_Referer :: string
  mt_Timeout :: float64
  mt_PasswordAuth :: conf_password_auth
  mt_TokenAuth :: conf_token_auth
  mt_Header :: mteam_header_config

record app_config =
  ag_System :: system_config
  ag_App :: scheduler_config
  ag_Refresh :: refresh_config
  ag_MT :: mteam_config

type_synonym file_reader = "string \<Rightarrow> goerror + string"
type_synonym 'a toml_decoder = "string \<Rightarrow> goerror + 'a \<times> string list"

definition LoadTOMLWithMeta :: "file_reader \<Rightarrow> 'a toml_decoder \<Rightarrow> string \<Rightarrow> goerror + 'a \<times> string list" where
  "LoadTOMLWithMeta read decode path =
     (case read path of
        Inl err \<Rightarrow> Inl (wrapf (Sentinel ConfErrRead) (''read '' @ path @ '': '' @ Error_text err))
      | Inr data \<Rightarrow>
          (case decode data of
             Inl err \<Rightarrow> Inl (wrapf (Sentinel ConfErrParse) (''parse '' @ path @ '': '' @ Error_text err))
           | Inr r \<Rightarrow> Inr r))"

definition removed_keys :: "string list" where
  "removed_keys =
     [''refresh.normal_clear_token_threshold'', ''refresh.external_auth_notify_initial'',
      ''refresh.external_auth_notify_interval'', ''refresh.cookie_mode'']"

definition renamed_keys :: "string list" where
  "renamed_keys =
     [''mt.external_auth'', ''mt.external_auth.auth'', ''mt.external_auth.did'', ''mt.external_auth.visitor_id'']"

fun rejectRemovedKeys :: "string list \<Rightarrow> goerror option" where
  "rejectRemovedKeys [] = None"
| "rejectRemovedKeys (key # keys) =
     (if key \<in> set removed_keys then Some (ErrText (key @ '' has been removed from refresh config''))
      else if key \<in> set renamed_keys then Some (ErrText ''mt.external_auth has been renamed to mt.token_auth'')
      else rejectRemovedKeys keys)"

definition rejectUnknownKeys :: "string list \<Rightarrow> goerror option" where
  "rejectUnknownKeys keys =
     (if keys = [] then None else Some (ErrText (''unknown TOML key(s): '' @ join_with '', '' keys)))"

definition invalid :: "goerror \<Rightarrow> goerror" where
  "invalid err = wrapf (Sentinel ConfErrInvalid) (Error_text err)"

definition LoadTOML :: "file_reader \<Rightarrow> 'a toml_decoder \<Rightarrow> string \<Rightarrow> goerror + 'a" where
  "LoadTOML read decode path =
     (case LoadTOMLWithMeta read decode path of
        Inl err \<Rightarrow> Inl err
      | Inr (cfg, undecoded) \<Rightarrow>
          (case rejectRemovedKeys undecoded of
             Some err \<Rightarrow> Inl (invalid err)
           | None \<Rightarrow>
               (case rejectUnknownKeys undecoded of
                  Some err \<Rightarrow> Inl (invalid err)
                | None \<Rightarrow> Inr cfg)))"

definition conf_Validate :: "(string \<Rightarrow> goerror option) \<Rightarrow> app_config \<Rightarrow> goerror option" where
  "conf_Validate cron c =
     (case cron (sd_Crontab (ag_App c)) of
        Some err \<Rightarrow> Some (wrap_prefix ''invalid app.crontab'' err)
      | None \<Rightarrow>
          if f_lt (sd_MinDelay (ag_App c)) (Fin 0) \<or> f_lt (sd_MaxDelay (ag_App c)) (Fin 0)
          then Some (ErrText ''app.min_delay and app.max_delay must be >= 0'')
          else if f_lt (sd_MaxDelay (ag_App c)) (sd_MinDelay (ag_App c))
          then Some (ErrText ''app.min_delay must be <= app.max_delay'')
          else if f_le (rc_Timeout (ag_Refresh c)) (Fin 0)
          then Some (ErrText ''refresh.timeout must be > 0'')
          else None)"

definition LoadApp ::
  "file_reader \<Rightarrow> app_config toml_decoder \<Rightarrow> (string \<Rightarrow> goerror option) \<Rightarrow> string \<Rightarrow> goerror + app_config" where
  "LoadApp read decode cron path =
     (case LoadTOMLWithMeta read decode path of
        Inl err \<Rightarrow> Inl err
      | Inr (cfg, undecoded) \<Rightarrow>
          (case rejectRemovedKeys undecoded of
             Some err \<Rightarrow> Inl (invalid err)
           | None \<Rightarrow>
          (case rejectUnknownKeys undecoded of
             Some err \<Rightarrow> Inl (invalid err)
           | None \<Rightarrow>
          (case conf_Validate cron cfg of
             Some err \<Rightarrow> Inl (invalid err)
           | None \<Rightarrow> Inr cfg))))"

section \<open>Lemmas\<close>

text \<open>A configuration is accepted exactly when every key was placed and the values are valid.\<close>

lemma LoadApp_ok_iff:
  "LoadApp read decode cron path = Inr cfg \<longleftrightarrow>
     (\<exists>data. read path = Inr data \<and> decode data = Inr (cfg, [])) \<and> conf_Validate cron cfg = None"
  by (auto simp: LoadApp_def LoadTOMLWithMeta_def rejectUnknownKeys_def split: sum.splits option.splits if_splits)

text \<open>Every failure carries exactly one of the three sentinels of the package.\<close>

lemma LoadApp_error_class:
  assumes "LoadApp read decode cron path = Inl e"
  shows "(errors_is e (Sentinel ConfErrRead) \<longleftrightarrow> (\<exists>x. read path = Inl x)) \<and>
    (errors_is e (Sentinel ConfErrParse) \<longleftrightarrow> (\<exists>d x. read path = Inr d \<and> decode d = Inl x)) \<and>
    (errors_is e (Sentinel ConfErrInvalid) \<longleftrightarrow> (\<exists>d r. read path = Inr d \<and> decode d = Inr r))"
  using assms
  by (auto simp: LoadApp_def LoadTOMLWithMeta_def invalid_def wrapf_def
      split: sum.splits option.splits if_splits prod.splits)

lemma conf_Validate_iff:
  "conf_Validate cron c = None \<longleftrightarrow>
     cron (sd_Crontab (ag_App c)) = None \<and> \<not> f_lt (sd_MinDelay (ag_App c)) (Fin 0) \<and>
     \<not> f_lt (sd_MaxDelay (ag_App c)) (Fin 0) \<and> \<not> f_lt (sd_MaxDelay (ag_App c)) (sd_MinDelay (ag_App c)) \<and>
     \<not> f_le (rc_Timeout (ag_Refresh c)) (Fin 0)"
  by (auto simp: conf_Validate_def split: option.splits)

text \<open>The comparisons let NaN pass: no test of the validation is true of it.\<close>

lemma NaN_is_valid:
  "cron (sd_Crontab (ag_App c)) = None \<Longrightarrow> sd_MinDelay (ag_App c) = NaN \<Longrightarrow> sd_MaxDelay (ag_App c) = NaN \<Longrightarrow>
     rc_Timeout (ag_Refresh c) = NaN \<Longrightarrow> conf_Validate cron c = None"
  by (simp add: conf_Validate_def)

section \<open>Properties\<close>

text \<open>
  C32. A configuration file is accepted exactly when it can be read, decodes with every key
  placed, and its crontab parses, its delays are not negative and in order, and its timeout is
  positive, as the comparisons of \<open>float64\<close> have it. No unknown or removed key gets through.
\<close>

theorem configuration_is_accepted_iff:
  "LoadApp read decode cron path = Inr cfg \<longleftrightarrow>
     (\<exists>data. read path = Inr data \<and> decode data = Inr (cfg, [])) \<and>
     cron (sd_Crontab (ag_App cfg)) = None \<and> \<not> f_lt (sd_MinDelay (ag_App cfg)) (Fin 0) \<and>
     \<not> f_lt (sd_MaxDelay (ag_App cfg)) (Fin 0) \<and> \<not> f_lt (sd_MaxDelay (ag_App cfg)) (sd_MinDelay (ag_App cfg)) \<and>
     \<not> f_le (rc_Timeout (ag_Refresh cfg)) (Fin 0)"
  unfolding LoadApp_ok_iff conf_Validate_iff by (rule refl)

end
