(* ===== verification/Runtime.thy ===== *)
theory Runtime
  imports Service
begin

text \<open>
  \<open>internal/runtime/runtime.go\<close>: the lock that lets one refresh run at a time, and stopping.
  Any number of callers of \<open>TryRun\<close> and \<open>Stop\<close> interleave; a caller is a number, and the
  program point it has reached says what it does next. Each rule is one atomic access to the
  shared state: the stop flag, the mutex, the service pointer, the root context. \<open>TryRun\<close> as
  a function is the same code for one caller nobody interrupts; \<open>TryRun_is_a_path\<close> says that
  it is a path of the rules.
\<close>

section \<open>States\<close>

text \<open>
  The program points of \<open>TryRun\<close>: the stop flag passed, the contexts passed, the lock taken,
  running the service, returned. Those of \<open>Stop\<close>: the flag set by this call, the root context
  cancelled, the lock taken, returned.
\<close>

datatype run_point =
    TryIdle
  | TryPassedFlag
  | TryPassedContexts
  | TryLocked
  | TryRunning
  | TryReturned "goerror option"
  | StopIdle
  | StopMarked
  | StopCancelled
  | StopLocked
  | StopReturned

record 'svc runtime =
  rt_service :: "'svc option"
  rt_stopped :: bool
  rt_cancelled :: bool
  rt_lock :: "nat option"
  rt_at :: "nat \<Rightarrow> run_point"

definition go :: "nat \<Rightarrow> run_point \<Rightarrow> 'svc runtime \<Rightarrow> 'svc runtime" where
  "go i p s = s\<lparr>rt_at := (rt_at s)(i := p)\<rparr>"

definition ctx_canceled :: goerror where
  "ctx_canceled = Sentinel CtxCanceled"

definition Publish :: "'svc \<Rightarrow> 'svc runtime \<Rightarrow> 'svc runtime" where
  "Publish svc s = s\<lparr>rt_service := Some svc\<rparr>"

text \<open>
  \<open>TryRun\<close> for one caller: \<open>delay_err\<close> and \<open>root_err\<close> are what the two contexts answer when asked for
  their error, \<open>run\<close> the call of the service under a child of the root context.
\<close>

definition TryRun ::
  "goerror option \<Rightarrow> goerror option \<Rightarrow> ('svc \<Rightarrow> 'w \<Rightarrow> goerror option \<times> 'w) \<Rightarrow> 'svc runtime \<Rightarrow> 'w
     \<Rightarrow> goerror option \<times> 'w" where
  "TryRun delay_err root_err run s w =
     (if rt_stopped s then (Some ctx_canceled, w)
      else case delay_err of
        Some err \<Rightarrow> (Some err, w)
      | None \<Rightarrow> (case root_err of
          Some err \<Rightarrow> (Some err, w)
        | None \<Rightarrow>
            if rt_lock s \<noteq> None then (Some (DomainError SchedulerBusy), w)
            else if rt_stopped s then (Some ctx_canceled, w)
            else (case rt_service s of
              None \<Rightarrow> (Some (DomainError RuntimeServiceNotPublished), w)
            | Some svc \<Rightarrow> run svc w)))"

text \<open>\<open>Stop\<close> for one caller: it does not return (\<open>None\<close>) while somebody has the lock.\<close>

definition runtime_Stop :: "'svc runtime \<Rightarrow> 'svc runtime option" where
  "runtime_Stop s =
     (let s = (if rt_stopped s then s else s\<lparr>rt_stopped := True, rt_cancelled := True\<rparr>)
      in if rt_lock s = None then Some s else None)"

section \<open>Steps\<close>

text \<open>
  The delay context and the root context are asked for their error at one moment; the root
  context has one once \<open>Stop\<close> has cancelled it, and either may have one of its own (a signal
  to the process, a stopped scheduler).
\<close>

inductive runtime_step :: "'svc runtime \<Rightarrow> 'svc runtime \<Rightarrow> bool" where
  publish: "runtime_step s (Publish svc s)"
| flag_stopped: "rt_at s i = TryIdle \<Longrightarrow> rt_stopped s \<Longrightarrow>
     runtime_step s (go i (TryReturned (Some ctx_canceled)) s)"
| flag_clear: "rt_at s i = TryIdle \<Longrightarrow> \<not> rt_stopped s \<Longrightarrow> runtime_step s (go i TryPassedFlag s)"
| context_done: "rt_at s i = TryPassedFlag \<Longrightarrow> runtime_step s (go i (TryReturned (Some err)) s)"
| context_live: "rt_at s i = TryPassedFlag \<Longrightarrow> \<not> rt_cancelled s \<Longrightarrow> runtime_step s (go i TryPassedContexts s)"
| busy: "rt_at s i = TryPassedContexts \<Longrightarrow> rt_lock s \<noteq> None \<Longrightarrow>
     runtime_step s (go i (TryReturned (Some (DomainError SchedulerBusy))) s)"
| locked: "rt_at s i = TryPassedContexts \<Longrightarrow> rt_lock s = None \<Longrightarrow>
     runtime_step s (go i TryLocked (s\<lparr>rt_lock := Some i\<rparr>))"
| late_stop: "rt_at s i = TryLocked \<Longrightarrow> rt_stopped s \<Longrightarrow>
     runtime_step s (go i (TryReturned (Some ctx_canceled)) (s\<lparr>rt_lock := None\<rparr>))"
| unpublished: "rt_at s i = TryLocked \<Longrightarrow> \<not> rt_stopped s \<Longrightarrow> rt_service s = None \<Longrightarrow>
     runtime_step s (go i (TryReturned (Some (DomainError RuntimeServiceNotPublished))) (s\<lparr>rt_lock := None\<rparr>))"
| run: "rt_at s i = TryLocked \<Longrightarrow> \<not> rt_stopped s \<Longrightarrow> rt_service s = Some svc \<Longrightarrow>
     runtime_step s (go i TryRunning s)"
| finish: "rt_at s i = TryRunning \<Longrightarrow> runtime_step s (go i (TryReturned res) (s\<lparr>rt_lock := None\<rparr>))"
| stop_first: "rt_at s i = StopIdle \<Longrightarrow> \<not> rt_stopped s \<Longrightarrow>
     runtime_step s (go i StopMarked (s\<lparr>rt_stopped := True\<rparr>))"
| stop_again: "rt_at s i = StopIdle \<Longrightarrow> rt_stopped s \<Longrightarrow> runtime_step s (go i StopCancelled s)"
| stop_cancel: "rt_at s i = StopMarked \<Longrightarrow>
     runtime_step s (go i StopCancelled (s\<lparr>rt_cancelled := True\<rparr>))"
| stop_lock: "rt_at s i = StopCancelled \<Longrightarrow> rt_lock s = None \<Longrightarrow>
     runtime_step s (go i StopLocked (s\<lparr>rt_lock := Some i\<rparr>))"
| stop_return: "rt_at s i = StopLocked \<Longrightarrow> runtime_step s (go i StopReturned (s\<lparr>rt_lock := None\<rparr>))"

text \<open>
  At the start nobody has called; callers that will try a run are at \<open>TryIdle\<close>, callers that
  will stop at \<open>StopIdle\<close>.
\<close>

definition runtime_init :: "'svc runtime \<Rightarrow> bool" where
  "runtime_init s \<longleftrightarrow> \<not> rt_stopped s \<and> \<not> rt_cancelled s \<and> rt_lock s = None \<and> rt_service s = None \<and>
     (\<forall>i. rt_at s i = TryIdle \<or> rt_at s i = StopIdle)"

inductive runtime_reach :: "'svc runtime \<Rightarrow> bool" where
  init: "runtime_init s \<Longrightarrow> runtime_reach s"
| step: "runtime_reach s \<Longrightarrow> runtime_step s s' \<Longrightarrow> runtime_reach s'"

inductive_cases runtime_stepE: "runtime_step s s'"

inductive runtime_steps :: "'svc runtime \<Rightarrow> 'svc runtime \<Rightarrow> bool" where
  none: "runtime_steps s s"
| more: "runtime_step s s' \<Longrightarrow> runtime_steps s' s'' \<Longrightarrow> runtime_steps s s''"

section \<open>The invariant\<close>

definition holds_lock :: "run_point \<Rightarrow> bool" where
  "holds_lock p \<longleftrightarrow> p = TryLocked \<or> p = TryRunning \<or> p = StopLocked"

definition stop_began :: "run_point \<Rightarrow> bool" where
  "stop_began p \<longleftrightarrow> p = StopMarked \<or> p = StopCancelled \<or> p = StopLocked \<or> p = StopReturned"

definition stop_waited :: "run_point \<Rightarrow> bool" where
  "stop_waited p \<longleftrightarrow> p = StopLocked \<or> p = StopReturned"

text \<open>
  The lock is held by exactly the caller whose program point says so; once a call of \<open>Stop\<close> is
  past the flag, the flag is set; once it has had the lock, nothing is running.
\<close>

definition runtime_inv :: "'svc runtime \<Rightarrow> bool" where
  "runtime_inv s \<longleftrightarrow>
     (\<forall>i. rt_lock s = Some i \<longleftrightarrow> holds_lock (rt_at s i)) \<and>
     (\<forall>i. stop_began (rt_at s i) \<longrightarrow> rt_stopped s) \<and>
     (\<forall>i j. stop_waited (rt_at s i) \<longrightarrow> rt_at s j \<noteq> TryRunning)"

lemmas point_defs = holds_lock_def stop_began_def stop_waited_def

lemma go_sel [simp]:
  "rt_stopped (go i p s) = rt_stopped s" "rt_cancelled (go i p s) = rt_cancelled s"
  "rt_lock (go i p s) = rt_lock s" "rt_service (go i p s) = rt_service s"
  "rt_at (go i p s) = (rt_at s)(i := p)"
  by (simp_all add: go_def)

lemma Publish_sel [simp]:
  "rt_stopped (Publish svc s) = rt_stopped s" "rt_cancelled (Publish svc s) = rt_cancelled s"
  "rt_lock (Publish svc s) = rt_lock s" "rt_service (Publish svc s) = Some svc"
  "rt_at (Publish svc s) = rt_at s"
  by (simp_all add: Publish_def)

lemma runtime_init_inv:
  assumes "runtime_init s"
  shows "runtime_inv s"
proof -
  have "rt_at s i = TryIdle \<or> rt_at s i = StopIdle" for i
    using assms by (simp add: runtime_init_def)
  hence "\<not> holds_lock (rt_at s i) \<and> \<not> stop_began (rt_at s i) \<and> \<not> stop_waited (rt_at s i)" for i
    by (metis point_defs run_point.distinct)
  thus ?thesis
    using assms by (simp add: runtime_init_def runtime_inv_def)
qed

lemma inv_lock: "runtime_inv s \<Longrightarrow> rt_lock s = Some i \<longleftrightarrow> holds_lock (rt_at s i)"
  by (simp add: runtime_inv_def)

lemma runtime_step_inv:
  assumes "runtime_step s s'" and "runtime_inv s"
  shows "runtime_inv s'"
  using assms
  by (cases rule: runtime_step.cases; auto simp: runtime_inv_def point_defs; metis option.inject)

lemma runtime_reach_inv: "runtime_reach s \<Longrightarrow> runtime_inv s"
  by (induction rule: runtime_reach.induct) (auto intro: runtime_init_inv runtime_step_inv)

lemma steps_reach: "runtime_steps s s' \<Longrightarrow> runtime_reach s \<Longrightarrow> runtime_reach s'"
  by (induction rule: runtime_steps.induct) (auto intro: runtime_reach.step)

section \<open>One run at a time, and none after a stop\<close>

lemma holders_unique:
  assumes "runtime_inv s" and "holds_lock (rt_at s i)" and "holds_lock (rt_at s j)"
  shows "i = j"
  using assms inv_lock [OF assms(1)] by (metis option.inject)

lemma stopped_stays: "runtime_step s s' \<Longrightarrow> rt_stopped s \<Longrightarrow> rt_stopped s'"
  by (erule runtime_stepE) auto

lemma returned_stays: "runtime_step s s' \<Longrightarrow> rt_at s i = StopReturned \<Longrightarrow> rt_at s' i = StopReturned"
  by (erule runtime_stepE) auto

lemma returned_stays_steps: "runtime_steps s s' \<Longrightarrow> rt_at s i = StopReturned \<Longrightarrow> rt_at s' i = StopReturned"
  by (induction rule: runtime_steps.induct) (auto dest: returned_stays)

section \<open>The function is a path\<close>

lemma go_go [simp]: "go i p (go i q s) = go i p s"
  by (simp add: go_def)

lemma two_steps: "runtime_step s s' \<Longrightarrow> runtime_step s' s'' \<Longrightarrow> runtime_steps s s''"
  by (rule runtime_steps.more, assumption) (rule runtime_steps.more, assumption, rule runtime_steps.none)

lemma refused_path:
  assumes "rt_at s i = TryIdle" and "\<not> rt_stopped s"
  shows "runtime_steps s (go i (TryReturned (Some err)) s)"
proof -
  have "runtime_step s (go i TryPassedFlag s)"
    using assms by (rule flag_clear)
  moreover have "runtime_step (go i TryPassedFlag s) (go i (TryReturned (Some err)) (go i TryPassedFlag s))"
    by (rule context_done) simp
  ultimately show ?thesis
    using two_steps by fastforce
qed

lemma admitted_path:
  assumes "rt_at s i = TryIdle" and "\<not> rt_stopped s" and "\<not> rt_cancelled s"
    and "runtime_steps (go i TryPassedContexts s) s'"
  shows "runtime_steps s s'"
proof -
  have "runtime_step s (go i TryPassedFlag s)"
    using assms(1,2) by (rule flag_clear)
  moreover have "runtime_step (go i TryPassedFlag s) (go i TryPassedContexts (go i TryPassedFlag s))"
    by (rule context_live) (simp_all add: assms)
  ultimately show ?thesis
    using assms(4) runtime_steps.more by (metis go_go)
qed

lemma busy_path:
  assumes "rt_lock s \<noteq> None"
  shows "runtime_steps (go i TryPassedContexts s) (go i (TryReturned (Some (DomainError SchedulerBusy))) s)"
proof -
  have "runtime_step (go i TryPassedContexts s)
          (go i (TryReturned (Some (DomainError SchedulerBusy))) (go i TryPassedContexts s))"
    by (rule busy) (simp_all add: assms)
  thus ?thesis
    by (auto intro: runtime_steps.intros)
qed

text \<open>A caller that has the lock: from there to its return, the lock given back.\<close>

lemma locked_path:
  assumes free: "rt_lock s = None" and live: "\<not> rt_stopped s"
    and res: "rt_service s = None \<Longrightarrow> res = Some (DomainError RuntimeServiceNotPublished)"
  shows "\<exists>s'. runtime_steps (go i TryPassedContexts s) s' \<and> rt_at s' i = TryReturned res \<and> rt_lock s' = None"
proof -
  let ?l = "go i TryLocked ((go i TryPassedContexts s)\<lparr>rt_lock := Some i\<rparr>)"
  have l: "runtime_step (go i TryPassedContexts s) ?l"
    by (rule locked) (simp_all add: free)
  have at: "rt_at ?l i = TryLocked" "\<not> rt_stopped ?l" "rt_service ?l = rt_service s"
    by (simp_all add: live)
  show ?thesis
  proof (cases "rt_service s")
    case None
    hence "runtime_step ?l (go i (TryReturned res) (?l\<lparr>rt_lock := None\<rparr>))"
      using unpublished [OF at(1,2)] at(3) res by simp
    from two_steps [OF l this] show ?thesis
      by (intro exI [of _ "go i (TryReturned res) (?l\<lparr>rt_lock := None\<rparr>)"]) simp
  next
    case (Some svc)
    hence r: "runtime_step ?l (go i TryRunning ?l)"
      using run [OF at(1,2)] at(3) by simp
    let ?e = "go i (TryReturned res) ((go i TryRunning ?l)\<lparr>rt_lock := None\<rparr>)"
    have "runtime_step (go i TryRunning ?l) ?e"
      by (rule finish) simp
    hence "runtime_steps (go i TryPassedContexts s) ?e"
      using l r by (meson runtime_steps.intros)
    thus ?thesis
      by (intro exI [of _ ?e]) simp
  qed
qed

text \<open>
  A call of \<open>TryRun\<close> nobody interrupts is a path of the rules that ends with the caller
  returned with the function's result and the lock as it was.
\<close>

lemma TryRun_is_a_path:
  assumes idle: "rt_at s i = TryIdle" and root: "root_err = None \<Longrightarrow> \<not> rt_cancelled s"
  shows "\<exists>s'. runtime_steps s s' \<and>
    rt_at s' i = TryReturned (fst (TryRun delay_err root_err run s w)) \<and> rt_lock s' = rt_lock s"
proof (cases "rt_stopped s")
  case True
  with flag_stopped [OF idle] show ?thesis
    by (intro exI [of _ "go i (TryReturned (Some ctx_canceled)) s"])
       (auto simp: TryRun_def intro: runtime_steps.intros)
next
  case live: False
  show ?thesis
  proof (cases "\<exists>err. delay_err = Some err \<or> (delay_err = None \<and> root_err = Some err)")
    case True
    then obtain err where "fst (TryRun delay_err root_err run s w) = Some err"
      using live by (auto simp: TryRun_def)
    with refused_path [OF idle live, of err] show ?thesis
      by (intro exI [of _ "go i (TryReturned (Some err)) s"]) simp
  next
    case False
    hence none: "delay_err = None" "root_err = None"
      by (metis option.exhaust)+
    note admit = admitted_path [OF idle live root [OF none(2)]]
    show ?thesis
    proof (cases "rt_lock s")
      case (Some h)
      hence "fst (TryRun delay_err root_err run s w) = Some (DomainError SchedulerBusy)"
        using live none by (simp add: TryRun_def)
      with admit [OF busy_path [of s i]] Some show ?thesis
        by (intro exI [of _ "go i (TryReturned (Some (DomainError SchedulerBusy))) s"]) simp
    next
      case free: None
      have "rt_service s = None \<Longrightarrow>
          fst (TryRun delay_err root_err run s w) = Some (DomainError RuntimeServiceNotPublished)"
        using live none free by (simp add: TryRun_def)
      from locked_path [OF free live this, of i] show ?thesis
        using admit free by auto
    qed
  qed
qed

section \<open>Stopping never gets stuck\<close>

text \<open>Once the stop flag is set, whoever has the lock can give it back with one step.\<close>

lemma release_lock:
  assumes "runtime_inv s" and "rt_lock s = Some j" and "rt_stopped s"
  shows "\<exists>s'. runtime_step s s' \<and> rt_lock s' = None \<and> (\<forall>i. i \<noteq> j \<longrightarrow> rt_at s' i = rt_at s i)"
proof -
  from assms(1,2) consider "rt_at s j = TryLocked" | "rt_at s j = TryRunning" | "rt_at s j = StopLocked"
    using inv_lock holds_lock_def by metis
  then show ?thesis
  proof cases
    case 1
    from late_stop [OF this assms(3)] show ?thesis
      by (intro exI [of _ "go j (TryReturned (Some ctx_canceled)) (s\<lparr>rt_lock := None\<rparr>)"]) simp
  next
    case 2
    from finish [OF this, of None] show ?thesis
      by (intro exI [of _ "go j (TryReturned None) (s\<lparr>rt_lock := None\<rparr>)"]) simp
  next
    case 3
    from stop_return [OF this] show ?thesis
      by (intro exI [of _ "go j StopReturned (s\<lparr>rt_lock := None\<rparr>)"]) simp
  qed
qed

lemma stop_free_completes:
  assumes "rt_at s i = StopCancelled" and "rt_lock s = None"
  shows "\<exists>s'. runtime_steps s s' \<and> rt_at s' i = StopReturned"
proof -
  let ?l = "go i StopLocked (s\<lparr>rt_lock := Some i\<rparr>)"
  have l: "runtime_step s ?l" using assms by (rule stop_lock)
  have "runtime_step ?l (go i StopReturned (?l\<lparr>rt_lock := None\<rparr>))" by (rule stop_return) simp
  from two_steps [OF l this] show ?thesis
    by (intro exI [of _ "go i StopReturned (?l\<lparr>rt_lock := None\<rparr>)"]) simp
qed

lemma stop_cancelled_completes:
  assumes "runtime_inv s" and "rt_at s i = StopCancelled"
  shows "\<exists>s'. runtime_steps s s' \<and> rt_at s' i = StopReturned"
proof (cases "rt_lock s")
  case None
  with assms(2) show ?thesis by (rule stop_free_completes)
next
  case (Some j)
  have "rt_stopped s" using assms by (auto simp: runtime_inv_def stop_began_def)
  from release_lock [OF assms(1) Some this] obtain s1
    where s1: "runtime_step s s1" "rt_lock s1 = None" "\<forall>k. k \<noteq> j \<longrightarrow> rt_at s1 k = rt_at s k" by blast
  have "i \<noteq> j" using inv_lock [OF assms(1), of j] Some assms(2) by (auto simp: holds_lock_def)
  with s1(3) assms(2) have "rt_at s1 i = StopCancelled" by simp
  from stop_free_completes [OF this s1(2)] s1(1) show ?thesis
    by (blast intro: runtime_steps.more)
qed

lemma stop_completes:
  assumes "runtime_inv s" and "stop_began (rt_at s i)"
  shows "\<exists>s'. runtime_steps s s' \<and> rt_at s' i = StopReturned"
proof -
  from assms(2) consider "rt_at s i = StopMarked" | "rt_at s i = StopCancelled"
    | "rt_at s i = StopLocked" | "rt_at s i = StopReturned"
    by (auto simp: stop_began_def)
  then show ?thesis
  proof cases
    case 1
    let ?s = "go i StopCancelled (s\<lparr>rt_cancelled := True\<rparr>)"
    have step: "runtime_step s ?s" using 1 by (rule stop_cancel)
    have "rt_at ?s i = StopCancelled" by simp
    from stop_cancelled_completes [OF runtime_step_inv [OF step assms(1)] this] step show ?thesis
      by (blast intro: runtime_steps.more)
  next
    case 2
    with assms(1) show ?thesis by (rule stop_cancelled_completes)
  next
    case 3
    from stop_return [OF this] have "runtime_steps s (go i StopReturned (s\<lparr>rt_lock := None\<rparr>))"
      by (blast intro: runtime_steps.intros)
    then show ?thesis
      by (intro exI [of _ "go i StopReturned (s\<lparr>rt_lock := None\<rparr>)"]) simp
  next
    case 4
    then show ?thesis by (blast intro: runtime_steps.none)
  qed
qed

section \<open>Properties\<close>

lemma reach_go:
  "runtime_reach s \<Longrightarrow> runtime_step s s' \<Longrightarrow> runtime_reach s'"
  by (rule runtime_reach.step)

text \<open>A runtime of one caller of \<open>TryRun\<close>, number 0, and one of \<open>Stop\<close>, number 1.\<close>

definition two_callers :: "unit runtime" where
  "two_callers = \<lparr>rt_service = None, rt_stopped = False, rt_cancelled = False, rt_lock = None,
     rt_at = (\<lambda>i. if i = 1 then StopIdle else TryIdle)\<rparr>"

lemma two_callers_reach: "runtime_reach two_callers"
  by (rule runtime_reach.init) (simp add: runtime_init_def two_callers_def)

lemma two_callers_run: "\<exists>s :: unit runtime. runtime_reach s \<and> rt_at s 0 = TryRunning"
proof -
  define s1 where "s1 = Publish () two_callers"
  define s2 where "s2 = go 0 TryPassedFlag s1"
  define s3 where "s3 = go 0 TryPassedContexts s2"
  define s4 where "s4 = go 0 TryLocked (s3\<lparr>rt_lock := Some 0\<rparr>)"
  note d = s1_def s2_def s3_def s4_def two_callers_def
  have "runtime_reach s1" unfolding s1_def by (rule reach_go [OF two_callers_reach publish])
  moreover have "runtime_step s1 s2" unfolding s2_def by (rule flag_clear) (simp_all add: d)
  moreover have "runtime_step s2 s3" unfolding s3_def by (rule context_live) (simp_all add: d)
  moreover have "runtime_step s3 s4" unfolding s4_def by (rule locked) (simp_all add: d)
  moreover have "runtime_step s4 (go 0 TryRunning s4)" by (rule run [of _ _ "()"]) (simp_all add: d)
  ultimately have "runtime_reach (go 0 TryRunning s4)" by (blast intro: reach_go)
  then show ?thesis by (intro exI [of _ "go 0 TryRunning s4"]) simp
qed

lemma two_callers_stop: "\<exists>s :: unit runtime. runtime_reach s \<and> rt_at s 1 = StopReturned"
proof -
  define s1 where "s1 = go 1 StopMarked (two_callers\<lparr>rt_stopped := True\<rparr>)"
  define s2 where "s2 = go 1 StopCancelled (s1\<lparr>rt_cancelled := True\<rparr>)"
  define s3 where "s3 = go 1 StopLocked (s2\<lparr>rt_lock := Some 1\<rparr>)"
  define s4 where "s4 = go 1 StopReturned (s3\<lparr>rt_lock := None\<rparr>)"
  note d = s1_def s2_def s3_def s4_def two_callers_def
  have "runtime_step two_callers s1" unfolding s1_def by (rule stop_first) (simp_all add: d)
  moreover have "runtime_step s1 s2" unfolding s2_def by (rule stop_cancel) (simp add: d)
  moreover have "runtime_step s2 s3" unfolding s3_def by (rule stop_lock) (simp_all add: d)
  moreover have "runtime_step s3 s4" unfolding s4_def by (rule stop_return) (simp add: d)
  ultimately have "runtime_reach s4" using two_callers_reach by (blast intro: reach_go)
  then show ?thesis by (intro exI [of _ s4]) (simp add: s4_def)
qed

text \<open>
  C10. One refresh at a time: in every interleaving of any number of calls of \<open>TryRun\<close> and
  \<open>Stop\<close>, at most one caller is running the service.
\<close>

theorem one_run_at_a_time:
  assumes "runtime_reach s"
  shows "\<exists>i. {j. rt_at s j = TryRunning} \<subseteq> {i}"
proof (cases "\<exists>i. rt_at s i = TryRunning")
  case True
  then obtain i where i: "rt_at s i = TryRunning" by blast
  have "j = i" if "rt_at s j = TryRunning" for j
    using holders_unique [OF runtime_reach_inv [OF assms], of j i] that i by (simp add: holds_lock_def)
  then show ?thesis by blast
qed simp

lemma one_run_at_a_time_witness:
  "\<exists>s :: unit runtime. runtime_reach s \<and> rt_at s 0 = TryRunning \<and> (\<exists>i. {j. rt_at s j = TryRunning} \<subseteq> {i})"
  using two_callers_run one_run_at_a_time by blast

text \<open>
  C11. Once a call of \<open>Stop\<close> has returned, no refresh is running, and whatever steps any callers
  take from then on, none ever runs again.
\<close>

theorem nothing_runs_after_stop:
  assumes "runtime_reach s" and "rt_at s i = StopReturned" and "runtime_steps s s'"
  shows "rt_at s' j \<noteq> TryRunning"
  using runtime_reach_inv [OF steps_reach [OF assms(3,1)]] returned_stays_steps [OF assms(3,2)]
  by (auto simp: runtime_inv_def stop_waited_def)

lemma nothing_runs_after_stop_witness:
  "\<exists>s :: unit runtime. runtime_reach s \<and> rt_at s 1 = StopReturned \<and> rt_at s 0 \<noteq> TryRunning"
  using two_callers_stop nothing_runs_after_stop runtime_steps.none by blast



text \<open>
  \<open>Stop\<close> never gets stuck: from every reachable state in which a call of it has set the flag,
  there is a way for that call to return, whatever other calls of \<open>TryRun\<close> and \<open>Stop\<close> are
  under way; a run that holds the lock gives it back when it ends.
\<close>

theorem stop_can_always_return:
  assumes "runtime_reach s" and "stop_began (rt_at s i)"
  shows "\<exists>s'. runtime_steps s s' \<and> rt_at s' i = StopReturned"
  using runtime_reach_inv [OF assms(1)] assms(2) by (rule stop_completes)

lemma stop_can_always_return_witness:
  "\<exists>s s' :: unit runtime. runtime_reach s \<and> stop_began (rt_at s 1) \<and> runtime_steps s s' \<and> rt_at s' 1 = StopReturned"
  using two_callers_stop stop_can_always_return stop_began_def by metis

end
