(* ===== verification/Scheduler.thy ===== *)
theory Scheduler
  imports GoErrors GoNumbers
begin

text \<open>
  \<open>internal/scheduler/scheduler.go\<close>: the random delay of a run, starting and stopping the cron
  timer, and the job that waits and then runs. The cron package is an argument: \<open>cron_ops\<close>
  are its calls on an unknown state \<open>'c\<close>, with \<open>cr_fires\<close> telling whether it may start a job
  now. Its documentation promises that a new or a stopped timer starts none (\<open>cron_laws\<close>) and
  that the context \<open>Stop\<close> answers is done once no job it started is running.
\<close>

section \<open>The delay\<close>

record schedule_config =
  sx_Crontab :: string
  sx_MinDelay :: duration
  sx_MaxDelay :: duration

text \<open>Arithmetic on \<open>time.Duration\<close> is \<open>int64\<close> arithmetic: it wraps around.\<close>

definition int64_wrap :: "int \<Rightarrow> int" where
  "int64_wrap i = (i + 2 ^ 63) mod 2 ^ 64 - 2 ^ 63"

text \<open>
  \<open>sample\<close> is the first \<open>Float64\<close> of a generator with the given seed, a number in \<open>[0, 1)\<close>;
  \<open>oob\<close> is what the conversion of a number outside \<open>int64\<close> gives.
\<close>

definition SampleDelay ::
  "(float64 \<Rightarrow> int) \<Rightarrow> (int \<Rightarrow> float64) \<Rightarrow> int \<Rightarrow> schedule_config \<Rightarrow> duration" where
  "SampleDelay oob sample seed cfg =
     (let minDelay = sx_MinDelay cfg; maxDelay = sx_MaxDelay cfg in
      if minDelay = 0 \<and> maxDelay = 0 then 0
      else if maxDelay \<le> minDelay then minDelay
      else int64_wrap (minDelay +
             f_to_int64 oob (f_mul (sample seed) (f_of_int (int64_wrap (maxDelay - minDelay))))))"

lemma int64_wrap_id: "- (2 ^ 63) \<le> i \<Longrightarrow> i < 2 ^ 63 \<Longrightarrow> int64_wrap i = i"
  by (simp add: int64_wrap_def)

lemma SampleDelay_in_range:
  assumes "0 \<le> sx_MinDelay cfg" and "sx_MinDelay cfg \<le> sx_MaxDelay cfg" and "sx_MaxDelay cfg < 2 ^ 53"
    and "sample seed = Fin u" and "0 \<le> u" and "u < 1"
  shows "sx_MinDelay cfg \<le> SampleDelay oob sample seed cfg \<and> SampleDelay oob sample seed cfg \<le> sx_MaxDelay cfg"
proof (cases "sx_MaxDelay cfg \<le> sx_MinDelay cfg")
  case True
  with assms(1,2) show ?thesis by (simp add: SampleDelay_def Let_def)
next
  case False
  define d where "d = sx_MaxDelay cfg - sx_MinDelay cfg"
  have d: "0 < d" "d < 2 ^ 53" using False assms(1,3) by (simp_all add: d_def)
  have w: "int64_wrap d = d" using d by (intro int64_wrap_id) simp_all
  have f: "f_of_int d = Fin (of_int d)" using d by (intro f_of_int_small) simp_all
  define k where "k = f_to_int64 oob (f_mul (Fin u) (Fin (of_int d)))"
  have "u * of_int d \<le> of_int d"
    using assms(6) d(1) mult_right_mono [of u 1 "of_int d"] by simp
  then have k: "0 \<le> k" "k \<le> d"
    unfolding k_def using f_mul_to_int64_bounds [OF assms(5), of "of_int d" d oob] d by simp_all
  have "int64_wrap (sx_MinDelay cfg + k) = sx_MinDelay cfg + k"
    using k assms(1,3) by (intro int64_wrap_id) (simp_all add: d_def)
  with False assms(1) k show ?thesis
    by (simp add: SampleDelay_def Let_def d_def [symmetric] w f assms(4) k_def [symmetric]) (simp add: d_def)
qed

section \<open>Starting and stopping\<close>

record 'c cron_ops =
  cr_AddFunc :: "string \<Rightarrow> 'c \<Rightarrow> goerror + 'c"
  cr_Start :: "'c \<Rightarrow> 'c"
  cr_Stop :: "'c \<Rightarrow> 'c"
  cr_fires :: "'c \<Rightarrow> bool"

definition cron_laws :: "'c cron_ops \<Rightarrow> bool" where
  "cron_laws C \<longleftrightarrow> (\<forall>c. \<not> cr_fires C (cr_Stop C c)) \<and>
     (\<forall>tab c c'. cr_AddFunc C tab c = Inr c' \<longrightarrow> cr_fires C c' = cr_fires C c)"

text \<open>
  The scheduler: the timer, whether the context of its jobs exists and has been cancelled, the
  flags, whether the channel \<open>stopDone\<close> is closed; and, beside the fields of the code, the
  number of its jobs that run and how often \<open>AddFunc\<close> has registered one.
\<close>

record 'c scheduler =
  sch_cfg :: schedule_config
  sch_cron :: 'c
  sch_cancel :: "bool option"
  sch_started :: bool
  sch_stopping :: bool
  sch_done :: bool
  sch_jobs :: nat
  sch_entries :: nat

definition scheduler_New ::
  "(string \<Rightarrow> goerror option) \<Rightarrow> schedule_config \<Rightarrow> 'c \<Rightarrow> goerror + 'c scheduler" where
  "scheduler_New parse cfg c =
     (case parse (sx_Crontab cfg) of
        Some err \<Rightarrow> Inl err
      | None \<Rightarrow> Inr \<lparr>sch_cfg = cfg, sch_cron = c, sch_cancel = None, sch_started = False, sch_stopping = False,
                   sch_done = False, sch_jobs = 0, sch_entries = 0\<rparr>)"

definition Start :: "'c cron_ops \<Rightarrow> 'c scheduler \<Rightarrow> goerror option \<times> 'c scheduler" where
  "Start C s =
     (if sch_started s then (None, s)
      else if sch_stopping s then (Some (ErrText ''scheduler is stopped''), s)
      else let s = s\<lparr>sch_cancel := Some False\<rparr> in
        case cr_AddFunc C (sx_Crontab (sch_cfg s)) (sch_cron s) of
          Inl err \<Rightarrow> (Some err, s\<lparr>sch_cancel := Some True\<rparr>)
        | Inr c \<Rightarrow> (None, s\<lparr>sch_cron := cr_Start C c, sch_started := True, sch_entries := sch_entries s + 1\<rparr>))"

text \<open>
  \<open>Stop\<close> holds the mutex twice: \<open>stop_begin\<close> is the first critical section when no other call
  is there yet, \<open>stop_end\<close> the second, entered when the jobs are done. A later call waits for
  the channel.
\<close>

definition stop_begin :: "'c cron_ops \<Rightarrow> 'c scheduler \<Rightarrow> 'c scheduler" where
  "stop_begin C s = s\<lparr>sch_stopping := True, sch_cancel := map_option (\<lambda>_. True) (sch_cancel s),
     sch_cron := cr_Stop C (sch_cron s)\<rparr>"

definition stop_end :: "'c scheduler \<Rightarrow> 'c scheduler" where
  "stop_end s = s\<lparr>sch_started := False, sch_done := True\<rparr>"

text \<open>One call of \<open>Stop\<close> that nobody interrupts; it does not return (\<open>None\<close>) while a job runs.\<close>

definition scheduler_Stop :: "'c cron_ops \<Rightarrow> 'c scheduler \<Rightarrow> 'c scheduler option" where
  "scheduler_Stop C s =
     (if sch_stopping s then (if sch_done s then Some s else None)
      else let s = stop_begin C s in if sch_jobs s = 0 then Some (stop_end s) else None)"

section \<open>The job\<close>

text \<open>
  \<open>runWithDelay\<close>. When there is a delay, the wait ends with the timer or, first, with the
  context (\<open>cancelled\<close>). The lines it logs come back with the world of the run.
\<close>

definition runWithDelay ::
  "duration \<Rightarrow> bool \<Rightarrow> ('w \<Rightarrow> goerror option \<times> 'w) \<Rightarrow> 'w \<Rightarrow> (string \<times> string) list \<times> 'w" where
  "runWithDelay delay cancelled tryRun w =
     (if 0 < delay \<and> cancelled then ([], w)
      else let started = (''INFO'', ''scheduler: delay expired, starting refresh run'') in
        case tryRun w of
          (None, w) \<Rightarrow> ([started], w)
        | (Some err, w) \<Rightarrow>
            (if errors_is err (DomainError SchedulerBusy)
             then ([started, (''INFO'', ''scheduler: previous run still in progress, skipping'')], w)
             else if errors_is err (Sentinel CtxCanceled)
             then ([started, (''INFO'', ''scheduler: run canceled during shutdown'')], w)
             else ([started, (''WARN'', ''scheduler: refresh run failed: '' @ Error_text err)], w)))"

text \<open>A cancelled wait runs nothing; otherwise there is one run, whatever it answers.\<close>

lemma runWithDelay_once:
  "snd (runWithDelay delay cancelled tryRun w) = (if 0 < delay \<and> cancelled then w else snd (tryRun w))"
  by (simp add: runWithDelay_def Let_def split: prod.split option.split)

section \<open>Steps\<close>

text \<open>
  Calls of \<open>Start\<close> and \<open>Stop\<close> from any goroutine, the timer starting a job, a job ending. The
  second part of \<open>Stop\<close> waits for the jobs; it happens once, for the one call that set the flag.
\<close>

inductive scheduler_step :: "'c cron_ops \<Rightarrow> 'c scheduler \<Rightarrow> 'c scheduler \<Rightarrow> bool" for C where
  start: "Start C s = (err, s') \<Longrightarrow> scheduler_step C s s'"
| fire: "cr_fires C (sch_cron s) \<Longrightarrow> scheduler_step C s (s\<lparr>sch_jobs := sch_jobs s + 1\<rparr>)"
| job_end: "0 < sch_jobs s \<Longrightarrow> scheduler_step C s (s\<lparr>sch_jobs := sch_jobs s - 1\<rparr>)"
| stop_first: "\<not> sch_stopping s \<Longrightarrow> scheduler_step C s (stop_begin C s)"
| stop_second: "sch_stopping s \<Longrightarrow> \<not> sch_done s \<Longrightarrow> sch_jobs s = 0 \<Longrightarrow> scheduler_step C s (stop_end s)"

inductive scheduler_reach :: "'c cron_ops \<Rightarrow> 'c scheduler \<Rightarrow> bool" for C where
  new: "scheduler_New parse cfg c = Inr s \<Longrightarrow> \<not> cr_fires C c \<Longrightarrow> scheduler_reach C s"
| step: "scheduler_reach C s \<Longrightarrow> scheduler_step C s s' \<Longrightarrow> scheduler_reach C s'"

inductive_cases scheduler_stepE: "scheduler_step C s s'"

text \<open>
  A job is registered only by the call that starts the scheduler; once stopping, the timer
  starts nothing more and the jobs' context is cancelled; once a \<open>Stop\<close> has returned, no job
  runs.
\<close>

definition scheduler_inv :: "'c cron_ops \<Rightarrow> 'c scheduler \<Rightarrow> bool" where
  "scheduler_inv C s \<longleftrightarrow>
     (sch_started s \<longrightarrow> sch_entries s = 1) \<and>
     (\<not> sch_started s \<and> \<not> sch_stopping s \<longrightarrow> sch_entries s = 0 \<and> \<not> cr_fires C (sch_cron s)) \<and>
     sch_entries s \<le> 1 \<and>
     (sch_stopping s \<longrightarrow> \<not> cr_fires C (sch_cron s) \<and> sch_cancel s \<noteq> Some False) \<and>
     (sch_done s \<longrightarrow> sch_stopping s \<and> sch_jobs s = 0 \<and> \<not> sch_started s)"

lemma Start_inv:
  assumes "cron_laws C" and "scheduler_inv C s" and "Start C s = (err, s')"
  shows "scheduler_inv C s'"
proof (cases "sch_started s \<or> sch_stopping s")
  case True
  with assms(3) have "s' = s" by (auto simp: Start_def split: if_splits)
  with assms(2) show ?thesis by simp
next
  case False
  show ?thesis
  proof (cases "cr_AddFunc C (sx_Crontab (sch_cfg s)) (sch_cron s)")
    case (Inl e)
    with False assms show ?thesis by (auto simp: Start_def scheduler_inv_def)
  next
    case (Inr c)
    with False assms(3) have "s' = s\<lparr>sch_cancel := Some False, sch_cron := cr_Start C c,
        sch_started := True, sch_entries := sch_entries s + 1\<rparr>"
      by (auto simp: Start_def Let_def)
    with False assms(2) show ?thesis by (simp add: scheduler_inv_def)
  qed
qed

lemma scheduler_step_inv:
  assumes "cron_laws C" and "scheduler_step C s s'" and "scheduler_inv C s"
  shows "scheduler_inv C s'"
  using assms(2)
proof (cases rule: scheduler_step.cases)
  case (start err)
  with assms(1,3) show ?thesis by (blast intro: Start_inv)
next
  case stop_first
  with assms(1,3) show ?thesis
    by (auto simp: scheduler_inv_def stop_begin_def cron_laws_def)
qed (use assms(3) in \<open>auto simp: scheduler_inv_def stop_end_def\<close>)

lemma scheduler_reach_inv:
  assumes "cron_laws C" and "scheduler_reach C s"
  shows "scheduler_inv C s"
  using assms(2)
proof (induction rule: scheduler_reach.induct)
  case (new parse cfg c s)
  then show ?case
    by (auto simp: scheduler_New_def scheduler_inv_def split: option.splits)
next
  case (step s s')
  with assms(1) show ?case by (blast intro: scheduler_step_inv)
qed

text \<open>What a stop establishes stays.\<close>

lemma done_stays: "scheduler_step C s s' \<Longrightarrow> sch_done s \<Longrightarrow> sch_done s'"
  by (erule scheduler_stepE)
     (auto simp: Start_def Let_def stop_begin_def stop_end_def split: if_splits sum.splits)

text \<open>Starting twice is starting once.\<close>

lemma Start_again: "Start C s = (None, s') \<Longrightarrow> Start C s' = (None, s')"
  by (auto simp: Start_def Let_def split: if_splits sum.splits)

text \<open>A timer with a running flag, which keeps the laws.\<close>

definition flag_cron :: "bool cron_ops" where
  "flag_cron = \<lparr>cr_AddFunc = (\<lambda>_ c. Inr c), cr_Start = (\<lambda>_. True), cr_Stop = (\<lambda>_. False), cr_fires = (\<lambda>c. c)\<rparr>"

lemma flag_cron_laws: "cron_laws flag_cron"
  by (simp add: cron_laws_def flag_cron_def)

section \<open>Properties\<close>

text \<open>
  C28. The random delay of a run lies between the configured bounds, whatever the generator
  draws: for durations below \<open>2 ^ 53\<close> nanoseconds (104 days), where the conversion to a
  floating point number is exact.
\<close>

theorem delay_is_within_bounds:
  assumes "0 \<le> sx_MinDelay cfg" and "sx_MinDelay cfg \<le> sx_MaxDelay cfg" and "sx_MaxDelay cfg < 2 ^ 53"
    and "sample seed = Fin u" and "0 \<le> u" and "u < 1"
  shows "sx_MinDelay cfg \<le> SampleDelay oob sample seed cfg \<and> SampleDelay oob sample seed cfg \<le> sx_MaxDelay cfg"
  using assms by (rule SampleDelay_in_range)

lemma delay_is_within_bounds_witness:
  "5 \<le> SampleDelay (\<lambda>_. 0) (\<lambda>_. Fin (1 / 2)) 7 \<lparr>sx_Crontab = '''', sx_MinDelay = 5, sx_MaxDelay = 20\<rparr> \<and>
   SampleDelay (\<lambda>_. 0) (\<lambda>_. Fin (1 / 2)) 7 \<lparr>sx_Crontab = '''', sx_MinDelay = 5, sx_MaxDelay = 20\<rparr> \<le> 20"
  using delay_is_within_bounds [of "\<lparr>sx_Crontab = '''', sx_MinDelay = 5, sx_MaxDelay = 20\<rparr>" "\<lambda>_. Fin (1 / 2)" 7 "1 / 2"]
  by simp

lemma quiet_steps:
  assumes "cron_laws C" and "(scheduler_step C)\<^sup>*\<^sup>* s s'" and "scheduler_reach C s" and "sch_done s"
  shows "scheduler_reach C s' \<and> sch_done s'"
  using assms(2-4) by (induction rule: rtranclp_induct) (auto intro: scheduler_reach.step dest: done_stays)

text \<open>A scheduler over the flag timer that was stopped.\<close>

lemma stopped_example:
  "scheduler_reach flag_cron (stop_end (stop_begin flag_cron \<lparr>sch_cfg = \<lparr>sx_Crontab = '''', sx_MinDelay = 0, sx_MaxDelay = 0\<rparr>,
     sch_cron = False, sch_cancel = None, sch_started = False, sch_stopping = False, sch_done = False,
     sch_jobs = 0, sch_entries = 0\<rparr>))" (is "scheduler_reach _ (stop_end (stop_begin _ ?s))")
proof -
  have "scheduler_reach flag_cron ?s"
    by (rule scheduler_reach.new [of "\<lambda>_. None" "\<lparr>sx_Crontab = '''', sx_MinDelay = 0, sx_MaxDelay = 0\<rparr>" False])
       (simp_all add: scheduler_New_def flag_cron_def)
  moreover have "scheduler_step flag_cron ?s (stop_begin flag_cron ?s)" by (rule stop_first) simp
  moreover have "scheduler_step flag_cron (stop_begin flag_cron ?s) (stop_end (stop_begin flag_cron ?s))"
    by (rule stop_second) (simp_all add: stop_begin_def)
  ultimately show ?thesis by (blast intro: scheduler_reach.step)
qed

text \<open>
  C26. Once \<open>Stop\<close> has returned, no job of the scheduler runs, the timer starts none and the
  scheduler is not started, whatever calls and ticks follow: it cannot be started again.
\<close>

theorem stopped_scheduler_is_quiet:
  assumes "cron_laws C" and "scheduler_reach C s" and "sch_done s" and "(scheduler_step C)\<^sup>*\<^sup>* s s'"
  shows "sch_jobs s' = 0 \<and> \<not> cr_fires C (sch_cron s') \<and> \<not> sch_started s'"
  using scheduler_reach_inv [OF assms(1)] quiet_steps [OF assms(1,4,2,3)] by (auto simp: scheduler_inv_def)

lemma stopped_scheduler_is_quiet_witness:
  "\<exists>s. scheduler_reach flag_cron s \<and> sch_done s \<and>
     sch_jobs s = 0 \<and> \<not> cr_fires flag_cron (sch_cron s) \<and> \<not> sch_started s"
proof -
  obtain s where s: "scheduler_reach flag_cron s" "sch_done s"
    using stopped_example by (auto simp: stop_end_def)
  with stopped_scheduler_is_quiet [OF flag_cron_laws s rtranclp.rtrancl_refl] show ?thesis by blast
qed

text \<open>
  Starting is idempotent: however often \<open>Start\<close> is called, and whenever \<open>Stop\<close> comes in
  between, the refresh job is registered with the timer at most once.
\<close>

theorem one_job_is_registered:
  assumes "cron_laws C" and "scheduler_reach C s"
  shows "sch_entries s \<le> 1"
  using scheduler_reach_inv [OF assms] by (simp add: scheduler_inv_def)

lemma one_job_is_registered_witness:
  "\<exists>s. scheduler_reach flag_cron s \<and> sch_entries s \<le> 1"
  using one_job_is_registered [OF flag_cron_laws stopped_example] stopped_example by blast

end
