(* ===== verification/App.thy ===== *)
theory App
  imports Notify Conf Runtime Scheduler
begin

text \<open>
  The assembled program: \<open>internal/app/config.go\<close> (the configurations of the M-Team clients and
  the codes of configuration errors), \<open>internal/app/app.go\<close> (\<open>New\<close>, \<open>RunOnce\<close>, \<open>Start\<close>, \<open>Close\<close>),
  the loading of \<open>conf/notify.toml\<close> from \<open>apinotify/config.go\<close>, \<open>store.Open\<close>, and \<open>execute\<close> of
  \<open>main.go\<close>. What the process meets when it starts (the files, the decoders, the database, the
  cron package) is the record \<open>startup\<close>. Resources are opened and closed in an event log.
\<close>

section \<open>Configuration\<close>

definition mapConfigError :: "goerror \<Rightarrow> goerror" where
  "mapConfigError err =
     (if errors_is err (Sentinel ConfErrRead) then domain_error ConfigReadFailed err
      else if errors_is err (Sentinel ConfErrParse) then domain_error ConfigParseFailed err
      else if errors_is err (Sentinel ConfErrInvalid) then domain_error ConfigInvalid err
      else err)"

definition auth_config_of :: "(float64 \<Rightarrow> int) \<Rightarrow> mteam_config \<Rightarrow> mt_auth_config" where
  "auth_config_of oob raw = \<lparr>
     mac_APIHost = mt_APIHost raw, mac_Referer = mt_Referer raw, mac_UserAgent = mh_UserAgent (mt_Header raw),
     mac_Version = mh_Version (mt_Header raw), mac_WebVersion = mh_WebVersion (mt_Header raw),
     mac_Proxy = mt_Proxy raw, mac_Timeout = SecondsDuration oob (mt_Timeout raw),
     mac_PasswordAuth = \<lparr>pw_Username = cpa_Username (mt_PasswordAuth raw),
        pw_Password = cpa_Password (mt_PasswordAuth raw), pw_TotpSecret = cpa_TotpSecret (mt_PasswordAuth raw)\<rparr>,
     mac_TokenAuth = \<lparr>ta_Auth = cta_Auth (mt_TokenAuth raw), ta_DID = cta_DID (mt_TokenAuth raw),
        ta_VisitorID = cta_VisitorID (mt_TokenAuth raw)\<rparr>\<rparr>"

definition browse_config_of :: "(float64 \<Rightarrow> int) \<Rightarrow> mteam_config \<Rightarrow> mt_browse_config" where
  "browse_config_of oob raw = \<lparr>
     mbc_APIHost = mt_APIHost raw, mbc_Referer = mt_Referer raw, mbc_UserAgent = mh_UserAgent (mt_Header raw),
     mbc_Version = mh_Version (mt_Header raw), mbc_WebVersion = mh_WebVersion (mt_Header raw),
     mbc_Proxy = mt_Proxy raw, mbc_Timeout = SecondsDuration oob (mt_Timeout raw)\<rparr>"

definition buildMTeamConfigs :: "(float64 \<Rightarrow> int) \<Rightarrow> mteam_config \<Rightarrow> goerror + mt_auth_config \<times> mt_browse_config" where
  "buildMTeamConfigs oob raw =
     (let auth = auth_config_of oob raw; browse = browse_config_of oob raw in
      case mt_auth_Validate auth of
        Some err \<Rightarrow> Inl (domain_error ConfigInvalid (wrap_prefix ''validate mt auth config'' err))
      | None \<Rightarrow>
          (case mt_browse_Validate browse of
             Some err \<Rightarrow> Inl (domain_error ConfigInvalid (wrap_prefix ''validate mt browse config'' err))
           | None \<Rightarrow> Inr (auth, browse)))"

text \<open>
  The notification configuration starts from a timeout of ten seconds. \<open>Clone\<close> copies the list
  of mobile numbers when there are some.
\<close>

definition zero_notify_config :: notify_config where
  "zero_notify_config = \<lparr>nc_Timeout = Fin 0,
     nc_QQPush = \<lparr>qq_Enabled = False, qq_UseSystemProxy = False, qq_Timeout = Fin 0, qq_QQ = '''', qq_Token = ''''\<rparr>,
     nc_Weixin = \<lparr>wx_Enabled = False, wx_UseSystemProxy = False, wx_Timeout = Fin 0, wx_CorpID = '''',
        wx_AgentSecret = '''', wx_AgentID = 0, wx_UserID = ''''\<rparr>,
     nc_DingTalk = \<lparr>dd_Enabled = False, dd_UseSystemProxy = False, dd_Timeout = Fin 0, dd_WebhookToken = '''',
        dd_Secret = '''', dd_AtMobiles = None\<rparr>,
     nc_Telegram = \<lparr>tg_Enabled = False, tg_UseSystemProxy = False, tg_Timeout = Fin 0, tg_BotToken = '''',
        tg_ChatID = 0, tg_Proxy = ''''\<rparr>,
     nc_Feishu = \<lparr>fs_Enabled = False, fs_UseSystemProxy = False, fs_Timeout = Fin 0, fs_WebhookURL = '''', fs_Secret = ''''\<rparr>,
     nc_Ntfy = \<lparr>nt_Enabled = False, nt_UseSystemProxy = False, nt_Timeout = Fin 0, nt_URL = '''', nt_Topic = '''',
        nt_Username = '''', nt_Password = '''', nt_Token = ''''\<rparr>\<rparr>"

definition notify_Clone :: "notify_config \<Rightarrow> notify_config" where
  "notify_Clone c =
     (case dd_AtMobiles (nc_DingTalk c) of
        None \<Rightarrow> c
      | Some ms \<Rightarrow> if ms \<noteq> [] then c\<lparr>nc_DingTalk := (nc_DingTalk c)\<lparr>dd_AtMobiles := Some ([] @ ms)\<rparr>\<rparr> else c)"

definition LoadConfig ::
  "file_reader \<Rightarrow> (notify_config \<Rightarrow> notify_config toml_decoder) \<Rightarrow> string \<Rightarrow> goerror + notify_config" where
  "LoadConfig read decode path =
     (case LoadTOML read (decode (zero_notify_config\<lparr>nc_Timeout := Fin 10\<rparr>)) path of
        Inl err \<Rightarrow> Inl err
      | Inr cfg \<Rightarrow>
          (case notify_Validate cfg of
             Some err \<Rightarrow> Inl (wrap_prefix ''validate notify config'' err)
           | None \<Rightarrow> Inr (notify_Clone cfg)))"

section \<open>Resources\<close>

datatype resource = ResStore | ResTransport | ResNotify

datatype resource_event =
    Opened resource
  | Closed resource
  | RuntimeStopped
  | SchedulerStopped

fun after_event :: "resource_event \<Rightarrow> resource list \<Rightarrow> resource list" where
  "after_event (Opened r) rs = r # rs"
| "after_event (Closed r) rs = remove1 r rs"
| "after_event _ rs = rs"

definition left_open :: "resource_event list \<Rightarrow> resource list" where
  "left_open evs = fold after_event evs []"

section \<open>The application\<close>

record ('c, 'x, 'd, 'k) startup =
  su_env :: "('c, 'x) env"
  su_oob :: "float64 \<Rightarrow> int"
  su_sample :: "int \<Rightarrow> float64"
  su_read :: file_reader
  su_decode_app :: "app_config toml_decoder"
  su_decode_notify :: "notify_config \<Rightarrow> notify_config toml_decoder"
  su_crontab :: "string \<Rightarrow> goerror option"
  su_cron :: "'k cron_ops"
  su_new_cron :: 'k
  su_db :: "'d leveldb"
  su_OpenFile :: "string \<Rightarrow> goerror + 'd"
  su_Walk :: "string \<Rightarrow> (string \<times> (goerror + bool)) list"
  su_Chmod :: "string \<Rightarrow> nat \<Rightarrow> goerror option"
  su_order :: "'d level_store \<Rightarrow> id_field list"
  su_sched :: "managed_notifier list \<Rightarrow> managed_notifier list"

record ('c, 'x, 'd, 'k) app =
  ap_runtime :: "('d level_store, ('c, 'x) world, identity) service runtime"
  ap_scheduler :: "'k scheduler"
  ap_notify :: "('c, 'x) manager"
  ap_closed :: bool
  ap_closeErr :: "goerror option"

record ('c, 'x, 'd) app_world =
  aw_run :: "('d level_store, ('c, 'x) world) run_state"
  aw_events :: "resource_event list"
  aw_modes :: "(string \<times> nat) list"

definition event :: "resource_event list \<Rightarrow> ('c, 'x, 'd) app_world \<Rightarrow> ('c, 'x, 'd) app_world" where
  "event evs w = w\<lparr>aw_events := aw_events w @ evs\<rparr>"

definition CookieDBPath :: string where
  "CookieDBPath = ''data/cookie.db''"

definition AppConfigPath :: string where
  "AppConfigPath = ''conf/app.toml''"

definition NotifyConfigPath :: string where
  "NotifyConfigPath = ''conf/notify.toml''"

text \<open>\<open>store.Open\<close>: a database whose permissions cannot be set is closed again.\<close>

definition Open ::
  "('c, 'x, 'd, 'k) startup \<Rightarrow> string \<Rightarrow> ('c, 'x, 'd) app_world \<Rightarrow> (goerror + 'd level_store) \<times> ('c, 'x, 'd) app_world" where
  "Open su path w =
     (case su_OpenFile su path of
        Inl err \<Rightarrow> (Inl err, w)
      | Inr db \<Rightarrow>
          (case restrictPermissions (su_Chmod su) (su_Walk su path) of
             (Some err, modes) \<Rightarrow>
               (Inl err, event [Opened ResStore, Closed ResStore] (w\<lparr>aw_modes := aw_modes w @ modes\<rparr>))
           | (None, modes) \<Rightarrow>
               (Inr \<lparr>ls_db = db, ls_epoch = 0\<rparr>, event [Opened ResStore] (w\<lparr>aw_modes := aw_modes w @ modes\<rparr>))))"

definition OpenDefault ::
  "('c, 'x, 'd, 'k) startup \<Rightarrow> ('c, 'x, 'd) app_world \<Rightarrow> (goerror + 'd level_store) \<times> ('c, 'x, 'd) app_world" where
  "OpenDefault su w = Open su CookieDBPath w"

definition schedule_of :: "(float64 \<Rightarrow> int) \<Rightarrow> scheduler_config \<Rightarrow> schedule_config" where
  "schedule_of oob c = \<lparr>sx_Crontab = sd_Crontab c, sx_MinDelay = SecondsDuration oob (sd_MinDelay c),
     sx_MaxDelay = SecondsDuration oob (sd_MaxDelay c)\<rparr>"

definition new_runtime :: "'svc runtime" where
  "new_runtime = \<lparr>rt_service = None, rt_stopped = False, rt_cancelled = False, rt_lock = None, rt_at = (\<lambda>_. TryIdle)\<rparr>"

text \<open>
  \<open>New\<close>. A notification file that does not load leaves the zero configuration, which enables
  the base channel only.
\<close>

definition app_New ::
  "('c, 'x, 'd, 'k) startup \<Rightarrow> ('c, 'x, 'd) app_world
     \<Rightarrow> (goerror + ('c, 'x, 'd, 'k) app) \<times> ('c, 'x, 'd) app_world" where
  "app_New su w =
     (let E = su_env su; oob = su_oob su in
      case LoadApp (su_read su) (su_decode_app su) (su_crontab su) AppConfigPath of
        Inl err \<Rightarrow> (Inl (mapConfigError err), w)
      | Inr cfg \<Rightarrow>
      (case buildMTeamConfigs oob (ag_MT cfg) of
        Inl err \<Rightarrow> (Inl err, w)
      | Inr (authCfg, browseCfg) \<Rightarrow>
      (let notifyCfg = (case LoadConfig (su_read su) (su_decode_notify su) NotifyConfigPath of
                          Inl err \<Rightarrow> zero_notify_config | Inr loaded \<Rightarrow> loaded) in
      case OpenDefault su w of
        (Inl err, w) \<Rightarrow> (Inl err, w)
      | (Inr st, w) \<Rightarrow>
      (case NewTLSClient of
        Inl err \<Rightarrow> (Inl err, event [Closed ResStore] w)
      | Inr tls \<Rightarrow>
      (let w = event [Opened ResTransport] w; transport = Some (tls_RoundTrip E) in
      case auth_NewClient E authCfg transport of
        Inl err \<Rightarrow> (Inl err, event [Closed ResTransport, Closed ResStore] w)
      | Inr authClient \<Rightarrow>
      (case browse_NewClient E browseCfg transport of
        Inl err \<Rightarrow> (Inl err, event [Closed ResTransport, Closed ResStore] w)
      | Inr browseClient \<Rightarrow>
      (let w = event [Opened ResNotify] w;
           nm = NewManager E oob notifyCfg transport [SystemProxy (sc_Proxy (ag_System cfg))];
           svc = app_service E (leveldb_store (su_db su) (su_order su))
             \<lparr>pt_auth = authClient, pt_browse = browseClient, pt_retry = rc_RetryOnAuthFailure (ag_Refresh cfg),
              pt_timeout = SecondsDuration oob (rc_Timeout (ag_Refresh cfg)),
              pt_notifier = notify_adapter E (su_sched su) nm\<rparr> in
      case scheduler_New (su_crontab su) (schedule_of oob (ag_App cfg)) (su_new_cron su) of
        Inl err \<Rightarrow> (Inl err, event [Closed ResNotify, Closed ResTransport, Closed ResStore] w)
      | Inr sched \<Rightarrow>
          (Inr \<lparr>ap_runtime = Publish svc new_runtime, ap_scheduler = sched, ap_notify = nm,
                ap_closed = False, ap_closeErr = None\<rparr>,
           w\<lparr>aw_run := (aw_run w)\<lparr>rs_store := st, rs_net := (rs_net (aw_run w))\<lparr>w_tls := tls\<rparr>\<rparr>\<rparr>))))))))"

section \<open>Running\<close>

text \<open>
  The context of a run: a new log chain under the runtime's root context, which is a child of
  the context of the process. The notifier of the service is the adapter of the app's manager
  as it is at that moment.
\<close>

definition run_context :: "gocontext \<Rightarrow> string \<Rightarrow> logctx" where
  "run_context ctx logid = ctx_WithCancel (ctx_NewContext logid (Some (CancelCtx ctx)))"

definition app_TryRun ::
  "('c, 'x, 'd, 'k) startup \<Rightarrow> gocontext \<Rightarrow> string \<Rightarrow> goerror option \<Rightarrow> goerror option
     \<Rightarrow> ('c, 'x, 'd, 'k) app \<Rightarrow> ('c, 'x, 'd) app_world \<Rightarrow> goerror option \<times> ('c, 'x, 'd) app_world" where
  "app_TryRun su ctx logid delay_err root_err a w =
     (case TryRun delay_err root_err
             (\<lambda>svc. Run (svc\<lparr>sv_notifier := Some (notify_adapter (su_env su) (su_sched su) (ap_notify a))\<rparr>)
                      (run_context ctx logid))
             (ap_runtime a) (aw_run w) of
        (err, r) \<Rightarrow> (err, w\<lparr>aw_run := r\<rparr>))"

text \<open>
  What one call meets: the log id, the errors the two contexts answer; for a job of the timer
  also the seed of its delay and whether the wait is cut short.
\<close>

record tick =
  tk_logid :: string
  tk_root_err :: "goerror option"
  tk_delay_err :: "goerror option"
  tk_seed :: int
  tk_cancelled :: bool

definition RunOnce ::
  "('c, 'x, 'd, 'k) startup \<Rightarrow> gocontext \<Rightarrow> tick \<Rightarrow> ('c, 'x, 'd, 'k) app \<Rightarrow> ('c, 'x, 'd) app_world
     \<Rightarrow> goerror option \<times> ('c, 'x, 'd) app_world" where
  "RunOnce su ctx t a w = app_TryRun su ctx (tk_logid t) (tk_delay_err t) (tk_root_err t) a w"

definition run_job ::
  "('c, 'x, 'd, 'k) startup \<Rightarrow> gocontext \<Rightarrow> ('c, 'x, 'd, 'k) app \<Rightarrow> tick \<Rightarrow> ('c, 'x, 'd) app_world
     \<Rightarrow> ('c, 'x, 'd) app_world" where
  "run_job su ctx a t w =
     snd (runWithDelay (SampleDelay (su_oob su) (su_sample su) (tk_seed t) (sch_cfg (ap_scheduler a))) (tk_cancelled t)
            (app_TryRun su ctx (tk_logid t) (tk_delay_err t) (tk_root_err t) a) w)"

text \<open>\<open>Start\<close> starts the timer and waits for the process's context; \<open>ticks\<close> are the jobs until then.\<close>

definition app_Start ::
  "('c, 'x, 'd, 'k) startup \<Rightarrow> gocontext \<Rightarrow> tick list \<Rightarrow> ('c, 'x, 'd, 'k) app \<Rightarrow> ('c, 'x, 'd) app_world
     \<Rightarrow> goerror option \<times> ('c, 'x, 'd, 'k) app \<times> ('c, 'x, 'd) app_world" where
  "app_Start su ctx ticks a w =
     (case Start (su_cron su) (ap_scheduler a) of
        (Some err, s) \<Rightarrow> (Some err, a\<lparr>ap_scheduler := s\<rparr>, w)
      | (None, s) \<Rightarrow>
          (let a = a\<lparr>ap_scheduler := s\<rparr> in (None, a, fold (run_job su ctx a) ticks w)))"

text \<open>
  \<open>Close\<close>, which does its work once. \<open>None\<close> says that it waits: for a run, a job, a
  notification or a request in flight.
\<close>

definition app_Close ::
  "('c, 'x, 'd, 'k) startup \<Rightarrow> ('c, 'x, 'd, 'k) app \<Rightarrow> ('c, 'x, 'd) app_world
     \<Rightarrow> (goerror option \<times> ('c, 'x, 'd, 'k) app \<times> ('c, 'x, 'd) app_world) option" where
  "app_Close su a w =
     (if ap_closed a then Some (ap_closeErr a, a, w)
      else case runtime_Stop (ap_runtime a) of None \<Rightarrow> None | Some rt \<Rightarrow>
     (case scheduler_Stop (su_cron su) (ap_scheduler a) of None \<Rightarrow> None | Some sched \<Rightarrow>
     (case manager_Close (ap_notify a) of None \<Rightarrow> None | Some (notifyErr, nm) \<Rightarrow>
     (case tls_Close (su_env su) (rs_net (aw_run w)) of None \<Rightarrow> None | Some net \<Rightarrow>
     (case CloseStore (su_db su) (rs_store (aw_run w)) of (storeErr, st) \<Rightarrow>
      let err = errors_join [notifyErr, None, storeErr] in
      Some (err,
        a\<lparr>ap_runtime := rt, ap_scheduler := sched, ap_notify := nm, ap_closed := True, ap_closeErr := err\<rparr>,
        event [RuntimeStopped, SchedulerStopped, Closed ResNotify, Closed ResTransport, Closed ResStore]
          (w\<lparr>aw_run := (aw_run w)\<lparr>rs_store := st, rs_net := net\<rparr>\<rparr>)))))))"

section \<open>The process\<close>

text \<open>
  \<open>execute\<close> over any application: the exit code, the error lines it logs and the world. The
  deferred \<open>Close\<close> runs after the run; its failure makes the code one.
\<close>

record ('a, 'w) application =
  af_Start :: "'a \<Rightarrow> 'w \<Rightarrow> goerror option \<times> 'a \<times> 'w"
  af_RunOnce :: "'a \<Rightarrow> 'w \<Rightarrow> goerror option \<times> 'a \<times> 'w"
  af_Close :: "'a \<Rightarrow> 'w \<Rightarrow> (goerror option \<times> 'a \<times> 'w) option"

definition execute ::
  "bool \<Rightarrow> ('w \<Rightarrow> (goerror + 'a) \<times> 'w) \<Rightarrow> ('a, 'w) application \<Rightarrow> 'w \<Rightarrow> (int \<times> string list \<times> 'w) option" where
  "execute localRun factory ops w =
     (case factory w of
        (Inl err, w) \<Rightarrow> Some (1, [''init app failed: '' @ Error_text err], w)
      | (Inr application, w) \<Rightarrow>
      (case (if localRun
             then case af_RunOnce ops application w of
                    (Some err, application, w) \<Rightarrow> (1, [''local test run failed: '' @ Error_text err], application, w)
                  | (None, application, w) \<Rightarrow> (0, [], application, w)
             else case af_Start ops application w of
                    (Some err, application, w) \<Rightarrow> (1, [''app stopped with error: '' @ Error_text err], application, w)
                  | (None, application, w) \<Rightarrow> (0, [], application, w)) of
        (code, lines, application, w) \<Rightarrow>
      (case af_Close ops application w of
        None \<Rightarrow> None
      | Some (None, application, w) \<Rightarrow> Some (code, lines, w)
      | Some (Some err, application, w) \<Rightarrow> Some (1, lines @ [''close app failed: '' @ Error_text err], w))))"

definition app_ops ::
  "('c, 'x, 'd, 'k) startup \<Rightarrow> gocontext \<Rightarrow> tick \<Rightarrow> tick list
     \<Rightarrow> (('c, 'x, 'd, 'k) app, ('c, 'x, 'd) app_world) application" where
  "app_ops su ctx once ticks = \<lparr>
     af_Start = app_Start su ctx ticks,
     af_RunOnce = (\<lambda>a w. case RunOnce su ctx once a w of (err, w) \<Rightarrow> (err, a, w)),
     af_Close = app_Close su\<rparr>"

text \<open>
  \<open>run\<close> of \<open>main.go\<close>: the context of the process ends with a signal, and the environment
  variable chooses between one run and the timer.
\<close>

definition signal_context :: gocontext where
  "signal_context = CancelCtx Background"

definition main_run ::
  "('c, 'x, 'd, 'k) startup \<Rightarrow> (string \<Rightarrow> string) \<Rightarrow> tick \<Rightarrow> tick list \<Rightarrow> ('c, 'x, 'd) app_world
     \<Rightarrow> (int \<times> string list \<times> ('c, 'x, 'd) app_world) option" where
  "main_run su Getenv once ticks w =
     execute (Getenv ''LOCAL_TEST_RUN'' = ''true'') (app_New su) (app_ops su signal_context once ticks) w"

section \<open>An application that is ready\<close>

lemma app_service_notifier:
  "(app_service E S p)\<lparr>sv_notifier := Some n\<rparr> = app_service E S (p\<lparr>pt_notifier := n\<rparr>)"
  by (simp add: app_service_def app_manager_def NewService_def)

text \<open>The parts of a service over the TLS client, talking to one host.\<close>

definition app_parts_ok :: "string \<Rightarrow> ('c, 'x) app_parts \<Rightarrow> bool" where
  "app_parts_ok host p \<longleftrightarrow> logged (mc_rt (pt_auth p)) \<and> logged (bc_rt (pt_browse p)) \<and>
     mbc_APIHost (bc_cfg (pt_browse p)) = host"

definition runtime_ready ::
  "('c, 'x, 'd, 'k) startup \<Rightarrow> string \<Rightarrow> ('d level_store, ('c, 'x) world, identity) service runtime \<Rightarrow> bool" where
  "runtime_ready su host rt \<longleftrightarrow> \<not> rt_stopped rt \<and> rt_lock rt = None \<and>
     (\<exists>p. rt_service rt = Some (app_service (su_env su) (leveldb_store (su_db su) (su_order su)) p) \<and>
          app_parts_ok host p)"

definition app_ready :: "('c, 'x, 'd, 'k) startup \<Rightarrow> string \<Rightarrow> ('c, 'x, 'd, 'k) app \<Rightarrow> bool" where
  "app_ready su host a \<longleftrightarrow> \<not> ap_closed a \<and> runtime_ready su host (ap_runtime a) \<and>
     \<not> sch_stopping (ap_scheduler a) \<and> sch_jobs (ap_scheduler a) = 0 \<and>
     mg_active (ap_notify a) = 0 \<and> notifier_grows (notify_adapter (su_env su) (su_sched su) (ap_notify a))"

definition idle :: "('c, 'x, 'd) app_world \<Rightarrow> bool" where
  "idle w \<longleftrightarrow> tc_inflight (w_tls (rs_net (aw_run w))) = 0 \<and> \<not> tc_closed (w_tls (rs_net (aw_run w)))"

lemma event_sel [simp]:
  "aw_run (event evs w) = aw_run w" "aw_events (event evs w) = aw_events w @ evs"
  by (simp_all add: event_def)

lemma left_open_append [simp]: "left_open (xs @ ys) = fold after_event ys (left_open xs)"
  by (simp add: left_open_def)

text \<open>A run through the runtime: the world only grows, and a success was confirmed by the site.\<close>

lemma app_TryRun_frame:
  assumes "app_ready su host a" and "app_TryRun su ctx i de re a w = (err, w')"
  shows "grows (rs_net (aw_run w)) (rs_net (aw_run w')) \<and> aw_events w' = aw_events w \<and>
    (err = None \<longrightarrow> confirmed host (rs_net (aw_run w)) (rs_net (aw_run w')))"
proof -
  let ?E = "su_env su" and ?S = "leveldb_store (su_db su) (su_order su)"
  let ?ntf = "notify_adapter ?E (su_sched su) (ap_notify a)"
  from assms(1) obtain p where p: "rt_service (ap_runtime a) = Some (app_service ?E ?S p)"
    and ok: "logged (mc_rt (pt_auth p))" "logged (bc_rt (pt_browse p))" "mbc_APIHost (bc_cfg (pt_browse p)) = host"
      "notifier_grows ?ntf"
    and live: "\<not> rt_stopped (ap_runtime a)" "rt_lock (ap_runtime a) = None"
    by (auto simp: app_ready_def runtime_ready_def app_parts_ok_def)
  let ?p = "p\<lparr>pt_notifier := ?ntf\<rparr>"
  have ok': "logged (mc_rt (pt_auth ?p))" "logged (bc_rt (pt_browse ?p))" "notifier_grows (pt_notifier ?p)"
    using ok by simp_all
  obtain e r where run: "Run (app_service ?E ?S ?p) (run_context ctx i) (aw_run w) = (e, r)"
    by (rule prod.exhaust)
  have g: "grows (rs_net (aw_run w)) (rs_net r)"
    using run_frame.Run_frame [OF app_frame [OF ok'] run] by simp
  show ?thesis
  proof (cases "de = None \<and> re = None")
    case True
    with assms(2) live p run have "err = e" "w' = w\<lparr>aw_run := r\<rparr>"
      by (simp_all add: app_TryRun_def TryRun_def app_service_notifier)
    with g show ?thesis
      using Run_confirms [OF ok', of ?E ?S "run_context ctx i" "aw_run w" r] run ok(3) by simp
  next
    case False
    with assms(2) live show ?thesis
      by (auto simp: app_TryRun_def TryRun_def split: option.splits)
  qed
qed

lemma run_job_frame:
  assumes "app_ready su host a"
  shows "grows (rs_net (aw_run w)) (rs_net (aw_run (run_job su ctx a t w))) \<and> aw_events (run_job su ctx a t w) = aw_events w"
  using app_TryRun_frame [OF assms prod.collapse [symmetric], where w = w and ctx = ctx and i = "tk_logid t" and de = "tk_delay_err t" and re = "tk_root_err t"]
  by (simp add: run_job_def runWithDelay_once)

lemma run_jobs_frame:
  assumes "app_ready su host a"
  shows "grows (rs_net (aw_run w)) (rs_net (aw_run (fold (run_job su ctx a) ts w))) \<and>
    aw_events (fold (run_job su ctx a) ts w) = aw_events w"
proof (induction ts arbitrary: w)
  case (Cons t ts)
  from run_job_frame [OF assms, where w = w and ctx = ctx and t = t] Cons.IH [of "run_job su ctx a t w"] show ?case
    by (auto intro: grows_trans)
qed simp

lemma Start_keeps:
  assumes "Start C s = (e, s')"
  shows "sch_stopping s' = sch_stopping s \<and> sch_jobs s' = sch_jobs s"
  using assms by (auto simp: Start_def Let_def split: if_splits sum.splits)

lemma app_Start_frame:
  assumes "app_ready su host a" and "app_Start su ctx ts a w = (e, a', w')"
  shows "app_ready su host a' \<and> grows (rs_net (aw_run w)) (rs_net (aw_run w')) \<and> aw_events w' = aw_events w"
proof -
  obtain x s where st: "Start (su_cron su) (ap_scheduler a) = (x, s)" by (rule prod.exhaust)
  let ?a = "a\<lparr>ap_scheduler := s\<rparr>"
  have r: "app_ready su host ?a"
    using assms(1) Start_keeps [OF st] by (simp add: app_ready_def)
  with assms(2) st run_jobs_frame [OF r, where w = w and ctx = ctx and ts = ts] show ?thesis
    by (auto simp: app_Start_def Let_def split: option.splits)
qed

lemma idle_grows:
  "idle w \<Longrightarrow> grows (rs_net (aw_run w)) (rs_net (aw_run w')) \<Longrightarrow> idle w'"
  by (auto simp: idle_def grows_def)

text \<open>Closing a ready, idle application returns, closes the three resources and logs no exchange.\<close>

lemma app_Close_returns:
  assumes "app_ready su host a" and "idle w"
  shows "\<exists>e a' w'. app_Close su a w = Some (e, a', w') \<and> ap_closed a' \<and> ap_closeErr a' = e \<and>
    aw_events w' = aw_events w @
      [RuntimeStopped, SchedulerStopped, Closed ResNotify, Closed ResTransport, Closed ResStore] \<and>
    w_httplog (rs_net (aw_run w')) = w_httplog (rs_net (aw_run w))"
  using assms
  by (auto simp: app_Close_def app_ready_def runtime_ready_def idle_def runtime_Stop_def scheduler_Stop_def
      stop_begin_def manager_Close_def close_mark_def tls_Close_def Let_def split: prod.split)

section \<open>What New gives\<close>

lemma buildMTeamConfigs_host:
  "buildMTeamConfigs oob raw = Inr (auth, browse) \<Longrightarrow> mbc_APIHost browse = mt_APIHost raw"
  by (auto simp: buildMTeamConfigs_def Let_def browse_config_of_def split: option.splits)

lemma Open_cases:
  "Open su path w = (r, w') \<Longrightarrow> aw_run w' = aw_run w \<and>
     (case r of Inl e \<Rightarrow> left_open (aw_events w') = left_open (aw_events w)
      | Inr st \<Rightarrow> aw_events w' = aw_events w @ [Opened ResStore])"
  by (auto simp: Open_def split: sum.splits option.splits prod.splits)

text \<open>The crontab was parsed when the configuration was loaded, so the scheduler can be made.\<close>

lemma LoadApp_crontab:
  "LoadApp read decode cron path = Inr cfg \<Longrightarrow> cron (sd_Crontab (ag_App cfg)) = None"
  by (auto simp: LoadApp_ok_iff conf_Validate_def split: option.splits)

definition new_ok ::
  "('c, 'x, 'd, 'k) startup \<Rightarrow> ('c, 'x, 'd) app_world \<Rightarrow> goerror + ('c, 'x, 'd, 'k) app \<Rightarrow> ('c, 'x, 'd) app_world \<Rightarrow> bool" where
  "new_ok su w r w' \<longleftrightarrow>
     (case r of
        Inl err \<Rightarrow> left_open (aw_events w') = left_open (aw_events w)
      | Inr a \<Rightarrow> (\<exists>cfg. LoadApp (su_read su) (su_decode_app su) (su_crontab su) AppConfigPath = Inr cfg \<and>
            app_ready su (mt_APIHost (ag_MT cfg)) a) \<and> idle w' \<and>
          aw_events w' = aw_events w @ [Opened ResStore, Opened ResTransport, Opened ResNotify] \<and>
          w_httplog (rs_net (aw_run w')) = w_httplog (rs_net (aw_run w)))"

lemma runtime_ready_new:
  "app_parts_ok host p \<Longrightarrow>
     runtime_ready su host (Publish (app_service (su_env su) (leveldb_store (su_db su) (su_order su)) p) new_runtime)"
  by (auto simp: runtime_ready_def Publish_def new_runtime_def)

lemma app_New_ok:
  assumes "app_New su w = (r, w')"
  shows "new_ok su w r w'"
proof (cases "LoadApp (su_read su) (su_decode_app su) (su_crontab su) AppConfigPath")
  case (Inl err)
  with assms show ?thesis by (auto simp: app_New_def new_ok_def)
next
  case load: (Inr cfg)
  let ?E = "su_env su" and ?oob = "su_oob su"
  show ?thesis
  proof (cases "buildMTeamConfigs ?oob (ag_MT cfg)")
    case (Inl err)
    with load assms show ?thesis by (auto simp: app_New_def Let_def new_ok_def)
  next
    case build: (Inr ab)
    obtain auth browse where ab: "ab = (auth, browse)" by (rule prod.exhaust)
    obtain o1 w1 where op: "Open su CookieDBPath w = (o1, w1)" by (rule prod.exhaust)
    then have opd: "OpenDefault su w = (o1, w1)" by (simp add: OpenDefault_def)
    note op' = Open_cases [OF op]
    show ?thesis
    proof (cases "(\<exists>e. o1 = Inl e) \<or> (\<exists>e. auth_NewClient ?E auth (Some (tls_RoundTrip ?E)) = Inl e)
        \<or> (\<exists>e. browse_NewClient ?E browse (Some (tls_RoundTrip ?E)) = Inl e)")
      case True
      with load build ab opd op' assms show ?thesis
        by (auto simp: app_New_def NewTLSClient_def Let_def new_ok_def split: sum.splits)
    next
      case False
      then obtain st ac bc where o1: "o1 = Inr st"
        and ac: "auth_NewClient ?E auth (Some (tls_RoundTrip ?E)) = Inr ac"
        and bc: "browse_NewClient ?E browse (Some (tls_RoundTrip ?E)) = Inr bc"
        by (metis sum.exhaust)
      from auth_NewClient_tls [OF ac] browse_NewClient_tls [OF bc] obtain u v
        where acu: "ac = tls_auth_client ?E auth u" and bcv: "bc = tls_browse_client ?E browse v" by blast
      have host: "mbc_APIHost (bc_cfg bc) = mt_APIHost (ag_MT cfg)"
        using buildMTeamConfigs_host [of ?oob "ag_MT cfg" auth browse] build ab by (simp add: bcv tls_browse_client_def)
      have cron: "su_crontab su (sx_Crontab (schedule_of ?oob (ag_App cfg))) = None"
        using LoadApp_crontab [OF load] by (simp add: schedule_of_def)
      show ?thesis
        using assms op' load build ab opd o1 ac bc cron host
        by (auto simp: app_New_def NewTLSClient_def Let_def new_ok_def scheduler_New_def app_ready_def
            app_parts_ok_def acu bcv idle_def newTLSClient_def notify_adapter_grows intro!: runtime_ready_new)
    qed
  qed
qed

section \<open>What the process does\<close>

lemma app_ops_sel [simp]:
  "af_Start (app_ops su ctx once ticks) = app_Start su ctx ticks"
  "af_RunOnce (app_ops su ctx once ticks) a w = (fst (RunOnce su ctx once a w), a, snd (RunOnce su ctx once a w))"
  "af_Close (app_ops su ctx once ticks) = app_Close su"
  by (simp_all add: app_ops_def split: prod.split)

text \<open>The end of \<open>execute\<close>: what is left to close of an application that \<open>New\<close> has made.\<close>

lemma close_after_new:
  assumes "app_ready su host a" and "idle w1" and "grows (rs_net (aw_run w1)) (rs_net (aw_run w2))"
    and "aw_events w2 = aw_events w @ [Opened ResStore, Opened ResTransport, Opened ResNotify]"
  shows "\<exists>e a' w3. app_Close su a w2 = Some (e, a', w3) \<and> left_open (aw_events w3) = left_open (aw_events w) \<and>
    w_httplog (rs_net (aw_run w3)) = w_httplog (rs_net (aw_run w2))"
  using app_Close_returns [OF assms(1) idle_grows [OF assms(2,3)]] assms(4) by auto

text \<open>The process always ends, with nothing left open, and a local run that exits with zero was confirmed.\<close>

lemma execute_app:
  "\<exists>code lines w'. execute localRun (app_New su) (app_ops su ctx once ticks) w = Some (code, lines, w') \<and>
     left_open (aw_events w') = left_open (aw_events w) \<and> (code = 0 \<or> code = 1) \<and> (code = 0 \<longleftrightarrow> lines = []) \<and>
     (localRun \<and> code = 0 \<longrightarrow>
        (\<exists>cfg. LoadApp (su_read su) (su_decode_app su) (su_crontab su) AppConfigPath = Inr cfg \<and>
           confirmed (mt_APIHost (ag_MT cfg)) (rs_net (aw_run w)) (rs_net (aw_run w'))))"
proof -
  obtain r w1 where new: "app_New su w = (r, w1)" by (rule prod.exhaust)
  note ok = app_New_ok [OF new]
  show ?thesis
  proof (cases r)
    case (Inl err)
    with new ok show ?thesis by (simp add: execute_def new_ok_def)
  next
    case (Inr a)
    with ok obtain cfg where load: "LoadApp (su_read su) (su_decode_app su) (su_crontab su) AppConfigPath = Inr cfg"
      and ready: "app_ready su (mt_APIHost (ag_MT cfg)) a" and idle: "idle w1"
      and evs: "aw_events w1 = aw_events w @ [Opened ResStore, Opened ResTransport, Opened ResNotify]"
      and log: "w_httplog (rs_net (aw_run w1)) = w_httplog (rs_net (aw_run w))"
      by (auto simp: new_ok_def)
    show ?thesis
    proof (cases localRun)
      case True
      obtain e w2 where run: "RunOnce su ctx once a w1 = (e, w2)" by (rule prod.exhaust)
      from app_TryRun_frame [OF ready run [unfolded RunOnce_def]]
      have g: "grows (rs_net (aw_run w1)) (rs_net (aw_run w2))" "aw_events w2 = aw_events w1"
        and c: "e = None \<Longrightarrow> confirmed (mt_APIHost (ag_MT cfg)) (rs_net (aw_run w1)) (rs_net (aw_run w2))" by auto
      from close_after_new [OF ready idle g(1), of w] g(2) evs obtain ce a' w3
        where close: "app_Close su a w2 = Some (ce, a', w3)"
          and left: "left_open (aw_events w3) = left_open (aw_events w)"
          and log3: "w_httplog (rs_net (aw_run w3)) = w_httplog (rs_net (aw_run w2))" by auto
      have "confirmed (mt_APIHost (ag_MT cfg)) (rs_net (aw_run w)) (rs_net (aw_run w3))" if "e = None"
        using c [OF that] log log3 by (simp add: confirmed_def)
      with new Inr True run close left load show ?thesis
        by (auto simp: execute_def split: option.splits)
    next
      case False
      obtain e a1 w2 where run: "app_Start su ctx ticks a w1 = (e, a1, w2)" by (metis prod.exhaust)
      from app_Start_frame [OF ready run]
      have r1: "app_ready su (mt_APIHost (ag_MT cfg)) a1" and g: "grows (rs_net (aw_run w1)) (rs_net (aw_run w2))"
        "aw_events w2 = aw_events w1" by auto
      from close_after_new [OF r1 idle g(1), of w] g(2) evs obtain ce a' w3
        where close: "app_Close su a1 w2 = Some (ce, a', w3)"
          and left: "left_open (aw_events w3) = left_open (aw_events w)" by auto
      with new Inr False run show ?thesis
        by (auto simp: execute_def split: option.splits)
    qed
  qed
qed

section \<open>Properties\<close>



text \<open>
  A start that fails is reported with the right code: the code of a configuration error says
  whether the file could not be read, did not decode, or decoded to something invalid.
\<close>

lemma configuration_error_has_its_code:
  "case LoadApp read decode cron path of
     Inr cfg \<Rightarrow> True
   | Inl err \<Rightarrow> CodeOf (Some (mapConfigError err)) =
       (case read path of
          Inl e \<Rightarrow> 100000
        | Inr data \<Rightarrow> (case decode data of Inl e \<Rightarrow> 100001 | Inr r \<Rightarrow> 100002))"
proof (cases "LoadApp read decode cron path")
  case (Inl err)
  from LoadApp_error_class [OF this] Inl show ?thesis
    by (auto simp: mapConfigError_def CodeOf_def domain_error_def split: sum.splits)
qed simp

text \<open>
  The clients are only built from a configuration they can work with: a host, a positive
  timeout, and a complete user name and password or a complete token identity; anything else
  is refused with the code of an invalid configuration.
\<close>

lemma clients_have_credentials:
  "case buildMTeamConfigs oob raw of
     Inl err \<Rightarrow> CodeOf (Some err) = 100002
   | Inr (auth, browse) \<Rightarrow>
       mac_APIHost auth \<noteq> '''' \<and> 0 < mac_Timeout auth \<and> mbc_APIHost browse = mac_APIHost auth \<and>
       mbc_Timeout browse = mac_Timeout auth \<and>
       ((pw_Username (mac_PasswordAuth auth) \<noteq> '''' \<and> pw_Password (mac_PasswordAuth auth) \<noteq> '''') \<or>
        (ta_Auth (mac_TokenAuth auth) \<noteq> '''' \<and> ta_DID (mac_TokenAuth auth) \<noteq> '''' \<and> ta_VisitorID (mac_TokenAuth auth) \<noteq> ''''))"
proof -
  have "mbc_APIHost (browse_config_of oob raw) = mac_APIHost (auth_config_of oob raw)"
    "mbc_Timeout (browse_config_of oob raw) = mac_Timeout (auth_config_of oob raw)"
    by (simp_all add: browse_config_of_def auth_config_of_def)
  then show ?thesis
    using mt_auth_Validate_ok [of "auth_config_of oob raw"]
    by (auto simp: buildMTeamConfigs_def Let_def CodeOf_def domain_error_def split: option.splits)
qed


end
