(* ===== verification/HttpLog.thy ===== *)
theory HttpLog
  imports TlsClient Sanitize GoText
begin

text \<open>
  The line of the HTTP log: the second half of \<open>Logging\<close> (\<open>pkg/apicore/tripper_logging.go\<close>),
  which renders an exchange after redacting its URL, headers, bodies and error with
  \<open>SanitizeURL\<close> and \<open>SanitizeBody\<close> of \<open>pkg/log/sanitize.go\<close>. Three functions of Go's library
  are arguments, in the record \<open>log_lib\<close>: \<open>url.Parse\<close> and \<open>URL.String\<close>, over a URL whose
  parts the code does not look at are one opaque field, and the text that \<open>encoding/json\<close>
  writes for the \<open>float64\<close> that it read from a number, \<open>None\<close> where the number is out of range.
\<close>

section \<open>Redacting URLs and bodies\<close>

record parsed_url =
  pu_User :: "(string \<times> string option) option"
  pu_Path :: string
  pu_RawQuery :: string
  pu_rest :: string

record log_lib =
  ll_url_Parse :: "string \<Rightarrow> goerror + parsed_url"
  ll_url_String :: "parsed_url \<Rightarrow> string"
  ll_float_text :: "string \<Rightarrow> string option"

definition redact_query :: "(string \<times> string list) list \<Rightarrow> (string \<times> string list) list" where
  "redact_query query = map (\<lambda>(key, values). (key, if isSensitiveKey key then map (\<lambda>_. redacted) values else values)) query"

definition redact_url :: "parsed_url \<Rightarrow> parsed_url" where
  "redact_url u =
     u\<lparr>pu_User := map_option (\<lambda>_. (redacted, None)) (pu_User u),
       pu_Path := redact_bot (pu_Path u),
       pu_RawQuery := encode_values (redact_query (values_of (snd (ParseQuery (pu_RawQuery u)))))\<rparr>"

definition SanitizeURL :: "log_lib \<Rightarrow> string \<Rightarrow> string" where
  "SanitizeURL L raw =
     (if raw = '''' then raw
      else case ll_url_Parse L raw of
             Inl err \<Rightarrow> redact_bot raw
           | Inr parsed \<Rightarrow> ll_url_String L (redact_url parsed))"

text \<open>
  A document read into a value of type \<open>any\<close> and written again: numbers go through \<open>float64\<close>,
  an object is a map, where the last of several members with one name counts, and is written
  in the order of its keys.
\<close>

fun json_numbers :: "json \<Rightarrow> string list" where
  "json_numbers (JNum t) = [t]"
| "json_numbers (JArr vs) = concat (map json_numbers vs)"
| "json_numbers (JObj ms) = concat (map (\<lambda>(k, v). json_numbers v) ms)"
| "json_numbers _ = []"

fun any_json :: "(string \<Rightarrow> string option) \<Rightarrow> json \<Rightarrow> gojson" where
  "any_json num JNull = GNull"
| "any_json num (JBool b) = GBool b"
| "any_json num (JNum t) = GNum (case num t of Some u \<Rightarrow> u | None \<Rightarrow> t)"
| "any_json num (JStr s) = GStr s"
| "any_json num (JArr vs) = GArr (map (any_json num) vs)"
| "any_json num (JObj ms) =
     go_map (foldl (\<lambda>m (k, v). upsert k v m) [] (map (\<lambda>(k, v). (k, any_json num v)) ms))"

definition sanitize_json_text :: "log_lib \<Rightarrow> string \<Rightarrow> string option" where
  "sanitize_json_text L body =
     (case json_parse body of
        None \<Rightarrow> None
      | Some doc \<Rightarrow>
          if list_all (\<lambda>t. ll_float_text L t \<noteq> None) (json_numbers doc)
          then Some (marshal (any_json (ll_float_text L) (sanitizeJSONValue doc))) else None)"

definition SanitizeBody :: "log_lib \<Rightarrow> string \<Rightarrow> string \<Rightarrow> string" where
  "SanitizeBody L contentType body =
     (if body = '''' then body
      else case (if contains (to_lower contentType) ''json'' then sanitize_json_text L body else None) of
             Some data \<Rightarrow> data
           | None \<Rightarrow>
               (case ParseQuery body of (ok, pairs) \<Rightarrow>
                  if ok \<and> list_ex (\<lambda>(key, _). isSensitiveKey key) pairs
                  then encode_values (redact_query (values_of pairs)) else SanitizeText body))"

section \<open>Message fields of any type\<close>

datatype field_value = FieldText string | FieldError goerror | FieldJSON gojson

text \<open>Any value that is no text and no error is written by a JSON encoder that leaves HTML alone.\<close>

definition field2String :: "field_value \<Rightarrow> string" where
  "field2String val = (case val of
      FieldText s \<Rightarrow> s
    | FieldError e \<Rightarrow> Error_text e
    | FieldJSON v \<Rightarrow> trim_space (encode_json False v @ [CHR 0x0A]))"

definition add_field :: "string \<Rightarrow> field_value \<Rightarrow> log_message \<Rightarrow> log_message" where
  "add_field key val m = AddField key (field2String val) m"

section \<open>The line\<close>

definition ToHTTPHeader :: "strmap \<Rightarrow> (string \<times> string list) list" where
  "ToHTTPHeader headers = map (\<lambda>(key, v). (key, [v])) (foldl (\<lambda>h (key, val). header_set key val h) [] headers)"

definition errorString :: "goerror option \<Rightarrow> string" where
  "errorString err = (case err of None \<Rightarrow> '''' | Some e \<Rightarrow> SanitizeText (Error_text e))"

text \<open>\<open>strings.Title\<close>: a letter after a byte that is no letter, digit or underscore is a title letter.\<close>

fun title_from :: "bool \<Rightarrow> string \<Rightarrow> string" where
  "title_from start [] = []"
| "title_from start (c # s) =
     (if start then upper_char c else c) # title_from (\<not> (alnum c \<or> c = CHR ''_'' \<or> 128 \<le> (of_char c :: nat))) s"

definition header_json :: "(string \<times> string list) list \<Rightarrow> gojson" where
  "header_json h = go_map (map (\<lambda>(k, vs). (k, GArr (map GStr vs))) h)"

definition event_json :: "log_lib \<Rightarrow> log_event \<Rightarrow> gojson" where
  "event_json L ev = go_map
     [(''server'', GStr (le_Server ev)),
      (''path'', GStr (SanitizeURL L (le_URL ev))),
      (''method'', GStr (le_Method ev)),
      (''status'', GInt (le_Status ev)),
      (''IHeader'', header_json (SanitizeHeaders (ToHTTPHeader (le_Headers ev)))),
      (''OHeader'', header_json (SanitizeHeaders (ToHTTPHeader (le_ResponseHeaders ev)))),
      (''input'', GStr (SanitizeBody L (HeaderValue (le_Headers ev) ''Content-Type'') (le_Input ev))),
      (''output'', GStr (SanitizeBody L (HeaderValue (le_ResponseHeaders ev) ''Content-Type'') (le_Output ev))),
      (''cost'', go_map [(''millisecond'', GInt (go_div (le_Cost ev) 1000000)), (''duration'', GInt (le_Cost ev))]),
      (''error'', GStr (errorString (le_Err ev)))]"

definition http_log_line :: "log_lib \<Rightarrow> string \<times> log_event \<Rightarrow> string" where
  "http_log_line L entry =
     (case entry of (logid, ev) \<Rightarrow>
        let msg = (if logid = '''' then new_log_message else add_field ''logid'' (FieldText logid) new_log_message);
            msg = add_field ''did'' (FieldText (MaskSecret (HeaderValue (le_Headers ev) ''Did''))) msg;
            msg = add_field ''visitor_id''
                    (FieldText (MaskSecret (FirstHeaderValue (le_Headers ev) [''Visitor-ID'', ''visitorid'']))) msg;
            msg = add_field (''HTTP_'' @ title_from True (le_Server ev)) (FieldJSON (event_json L ev)) msg
        in message_String msg)"

section \<open>Credentials leave no trace in the line\<close>

text \<open>The headers with every value of a sensitive name replaced by the marker.\<close>

definition mask_headers :: "strmap \<Rightarrow> strmap" where
  "mask_headers h = map (\<lambda>(k, v). (k, if isSensitiveKey k \<and> v \<noteq> '''' then redacted else v)) h"

lemma mask_headers_simps [simp]:
  "mask_headers [] = []"
  "mask_headers ((k, v) # h) = (k, if isSensitiveKey k \<and> v \<noteq> '''' then redacted else v) # mask_headers h"
  by (simp_all add: mask_headers_def)

lemma redacted_nonempty [simp]: "redacted \<noteq> ''''"
  by (simp add: redacted_def)

lemma isSensitiveKey_fold: "to_lower k = to_lower k' \<Longrightarrow> isSensitiveKey k = isSensitiveKey k'"
  by (simp add: isSensitiveKey_def normalize_key_def)

lemma lower_idem [simp]: "lower_char (lower_char c) = lower_char c" "lower_char (upper_char c) = lower_char c"
  by (auto simp: lower_char_def upper_char_def Let_def of_char_of)

lemma to_lower_canonical_key [simp]: "to_lower (canonical_key k) = to_lower k"
proof -
  have "map lower_char (canonical_from up k) = map lower_char k" for up
    by (induction up k rule: canonical_from.induct) auto
  then show ?thesis by (simp add: canonical_key_def to_lower_def)
qed

lemma HeaderValue_mask:
  "HeaderValue (mask_headers h) key =
     (if isSensitiveKey key \<and> HeaderValue h key \<noteq> '''' then redacted else HeaderValue h key)"
proof (induction h)
  case (Cons p h)
  obtain k v where p: "p = (k, v)" by (cases p)
  show ?case
  proof (cases "equal_fold k key")
    case True
    then have "isSensitiveKey k = isSensitiveKey key"
      unfolding equal_fold_def by (rule isSensitiveKey_fold)
    with True p show ?thesis by simp
  next
    case False
    with Cons p show ?thesis by simp
  qed
qed simp

lemma content_type_plain: "\<not> isSensitiveKey ''Content-Type''"
  by code_simp

lemma identity_keys_sensitive: "isSensitiveKey ''Did'' \<and> isSensitiveKey ''Visitor-ID'' \<and> isSensitiveKey ''visitorid''"
  by code_simp

lemma sanitized_headers_set:
  "SanitizeHeaders (map (\<lambda>(k, v). (k, [v])) a) = SanitizeHeaders (map (\<lambda>(k, v). (k, [v])) b) \<Longrightarrow>
   isSensitiveKey key \<or> v = v' \<Longrightarrow>
   SanitizeHeaders (map (\<lambda>(k, v). (k, [v])) (mset_key a key v)) =
   SanitizeHeaders (map (\<lambda>(k, v). (k, [v])) (mset_key b key v'))"
proof (induction a arbitrary: b)
  case Nil
  then show ?case by (auto simp: SanitizeHeaders_def)
next
  case (Cons p a)
  then obtain q b' where b: "b = q # b'" by (cases b) (auto simp: SanitizeHeaders_def)
  obtain k x y where pq: "p = (k, x)" "q = (k, y)"
    using Cons.prems(1) b by (cases p; cases q) (auto simp: SanitizeHeaders_def)
  have "SanitizeHeaders (map (\<lambda>(k, v). (k, [v])) a) = SanitizeHeaders (map (\<lambda>(k, v). (k, [v])) b')"
    using Cons.prems(1) b by (simp add: SanitizeHeaders_def)
  from Cons.IH [OF this Cons.prems(2)] Cons.prems b pq show ?case
    by (auto simp: SanitizeHeaders_def)
qed

lemma SanitizeHeaders_mask: "SanitizeHeaders (ToHTTPHeader (mask_headers h)) = SanitizeHeaders (ToHTTPHeader h)"
proof -
  have "SanitizeHeaders (map (\<lambda>(k, v). (k, [v])) a) = SanitizeHeaders (map (\<lambda>(k, v). (k, [v])) b) \<Longrightarrow>
      SanitizeHeaders (map (\<lambda>(k, v). (k, [v])) (foldl (\<lambda>h (key, val). header_set key val h) a (mask_headers h))) =
      SanitizeHeaders (map (\<lambda>(k, v). (k, [v])) (foldl (\<lambda>h (key, val). header_set key val h) b h))" for a b
  proof (induction h arbitrary: a b)
    case Nil
    then show ?case by simp
  next
    case (Cons p h)
    obtain k v where p: "p = (k, v)" by (cases p)
    let ?v = "if isSensitiveKey k \<and> v \<noteq> '''' then redacted else v"
    have "isSensitiveKey (canonical_key k) = isSensitiveKey k" by (rule isSensitiveKey_fold) simp
    then have "isSensitiveKey (canonical_key k) \<or> ?v = v" by auto
    from sanitized_headers_set [OF Cons.prems this]
    have "SanitizeHeaders (map (\<lambda>(k, v). (k, [v])) (header_set k ?v a)) =
          SanitizeHeaders (map (\<lambda>(k, v). (k, [v])) (header_set k v b))"
      by (simp add: header_set_def)
    from Cons.IH [OF this] p show ?case by simp
  qed
  from this [of "[]" "[]"] show ?thesis by (simp add: ToHTTPHeader_def)
qed

section \<open>Redacted forms\<close>

lemma flat_redact_query:
  "flat_values (redact_query m) = map (\<lambda>(k, v). (k, if isSensitiveKey k then redacted else v)) (flat_values m)"
  by (induction m) (auto simp: redact_query_def flat_values_def)

text \<open>
  A JSON document that comes without its content type is no form, but it is read as one: its
  one key is the whole document. When that contains the word token, the missing value is
  redacted, and the document is written to the log as the key, the token with it.
\<close>

lemma untyped_json_is_kept:
  assumes "body = ''{'' @ [CHR 0x22] @ ''token'' @ [CHR 0x22] @ '':'' @ [CHR 0x22] @ ''x'' @ [CHR 0x22] @ ''}''"
  shows "SanitizeBody L ''text/plain'' body = QueryEscape body @ ''='' @ QueryEscape redacted"
proof -
  have "\<not> contains (to_lower ''text/plain'') ''json''" by code_simp
  moreover have "ParseQuery body = (True, [(body, '''')]) \<and> isSensitiveKey body"
    unfolding assms by code_simp
  moreover have "body \<noteq> ''''" unfolding assms by simp
  ultimately show ?thesis
    by (simp add: SanitizeBody_def values_of_def redact_query_def encode_values_def sort_keys_def)
qed

section \<open>Properties\<close>




end
