(* ===== verification/NotifyRules.thy ===== *)
theory NotifyRules
  imports Notify "HOL-Library.Multiset"
begin

text \<open>
  Notifications and closing under any interleaving (\<open>pkg/apikit/apinotify/manager.go\<close>). Any number
  of callers of \<open>Notify\<close> and \<open>Close\<close> share one manager; a caller is a number, and the point it has
  reached says what it does next. A caller of \<open>Notify\<close> enters under the mutex, its goroutines send
  one after the other in any order and between those of other callers, and it leaves when all have
  sent. \<open>Notify_follows_the_rules\<close> says that the function \<open>manager_Notify\<close> is a path of these rules, for
  every order of the goroutines; \<open>close_completes\<close> that a \<open>Close\<close> that waits can always return.
\<close>

section \<open>States and steps\<close>

text \<open>
  A caller that sends has the channels whose goroutines have not sent yet, and the errors of
  those that have (\<open>errCh\<close>). What a caller sends, \<open>call i\<close>, is the context and the message.
\<close>

datatype manager_point =
    NotifyIdle
  | NotifySending "managed_notifier list" "goerror option list"
  | NotifyReturned "goerror option"
  | CloseIdle
  | CloseWaiting
  | CloseReturned "goerror option"

record ('c, 'x) manager_state =
  ms_manager :: "('c, 'x) manager"
  ms_world :: "('c, 'x) world"
  ms_at :: "nat \<Rightarrow> manager_point"

definition at_point :: "nat \<Rightarrow> manager_point \<Rightarrow> ('c, 'x) manager_state \<Rightarrow> ('c, 'x) manager_state" where
  "at_point i p s = s\<lparr>ms_at := (ms_at s)(i := p)\<rparr>"

lemma at_point_sel [simp]:
  "ms_manager (at_point i p s) = ms_manager s" "ms_world (at_point i p s) = ms_world s"
  "ms_at (at_point i p s) = (ms_at s)(i := p)"
  by (simp_all add: at_point_def)

inductive manager_step ::
  "('c, 'x) env \<Rightarrow> (nat \<Rightarrow> logctx \<times> notify_message) \<Rightarrow> ('c, 'x) manager_state \<Rightarrow> ('c, 'x) manager_state \<Rightarrow> bool"
  for E call where
  refused: "ms_at s i = NotifyIdle \<Longrightarrow> notify_enter (ms_manager s) = None \<Longrightarrow>
     manager_step E call s (at_point i (NotifyReturned (Some (Sentinel NotifyErrManagerClosed))) s)"
| enter: "ms_at s i = NotifyIdle \<Longrightarrow> notify_enter (ms_manager s) = Some m \<Longrightarrow>
     manager_step E call s (at_point i (NotifySending (mg_notifiers m) []) (s\<lparr>ms_manager := m\<rparr>))"
| send: "ms_at s i = NotifySending (xs @ item # ys) errs \<Longrightarrow>
     send_item E (mg_sender (ms_manager s)) (fst (call i)) (snd (call i)) item (ms_world s) = (err, w) \<Longrightarrow>
     manager_step E call s (at_point i (NotifySending (xs @ ys) (errs @ [err])) (s\<lparr>ms_world := w\<rparr>))"
| leave: "ms_at s i = NotifySending [] errs \<Longrightarrow>
     manager_step E call s
       (at_point i (NotifyReturned (errors_join errs)) (s\<lparr>ms_manager := notify_leave (ms_manager s)\<rparr>))"
| mark: "ms_at s i = CloseIdle \<Longrightarrow>
     manager_step E call s (at_point i CloseWaiting (s\<lparr>ms_manager := close_mark (ms_manager s)\<rparr>))"
| close: "ms_at s i = CloseWaiting \<Longrightarrow> mg_active (ms_manager s) = 0 \<Longrightarrow>
     manager_step E call s
       (at_point i (CloseReturned (errors_join (close_channels (mg_notifiers (ms_manager s))))) s)"

inductive_cases manager_stepE: "manager_step E call s s'"

text \<open>At the start the manager is fresh and nobody has called.\<close>

definition manager_init :: "('c, 'x) manager_state \<Rightarrow> bool" where
  "manager_init s \<longleftrightarrow> \<not> mg_closing (ms_manager s) \<and> mg_active (ms_manager s) = 0 \<and>
     (\<forall>i. ms_at s i = NotifyIdle \<or> ms_at s i = CloseIdle)"

inductive manager_steps ::
  "('c, 'x) env \<Rightarrow> (nat \<Rightarrow> logctx \<times> notify_message) \<Rightarrow> ('c, 'x) manager_state \<Rightarrow> ('c, 'x) manager_state \<Rightarrow> bool"
  for E call where
  none: "manager_steps E call s s"
| more: "manager_step E call s s' \<Longrightarrow> manager_steps E call s' s'' \<Longrightarrow> manager_steps E call s s''"

definition manager_reach ::
  "('c, 'x) env \<Rightarrow> (nat \<Rightarrow> logctx \<times> notify_message) \<Rightarrow> ('c, 'x) manager_state \<Rightarrow> bool" where
  "manager_reach E call s \<longleftrightarrow> (\<exists>s0. manager_init s0 \<and> manager_steps E call s0 s)"

lemma manager_steps_trans: "manager_steps E call s s' \<Longrightarrow> manager_steps E call s' s'' \<Longrightarrow> manager_steps E call s s''"
  by (induction rule: manager_steps.induct) (auto intro: manager_steps.more)

lemma manager_one_step: "manager_step E call s s' \<Longrightarrow> manager_steps E call s s'"
  by (auto intro: manager_steps.intros)

section \<open>The invariant\<close>

definition is_sending :: "manager_point \<Rightarrow> bool" where
  "is_sending p \<longleftrightarrow> (\<exists>items errs. p = NotifySending items errs)"

definition senders :: "('c, 'x) manager_state \<Rightarrow> nat set" where
  "senders s = {i. is_sending (ms_at s i)}"

lemma is_sending_simps [simp]:
  "\<not> is_sending NotifyIdle" "is_sending (NotifySending items errs)" "\<not> is_sending (NotifyReturned r)"
  "\<not> is_sending CloseIdle" "\<not> is_sending CloseWaiting" "\<not> is_sending (CloseReturned r)"
  by (simp_all add: is_sending_def)

lemma senders_at_point:
  "senders (at_point i p s) = (if is_sending p then insert i (senders s) else senders s - {i})"
  by (auto simp: senders_def)

lemma senders_frame [simp]:
  "senders (s\<lparr>ms_manager := m\<rparr>) = senders s" "senders (s\<lparr>ms_world := w\<rparr>) = senders s"
  by (simp_all add: senders_def)

text \<open>
  The wait group counts the callers that send; a caller of \<open>Close\<close> that has begun has marked the
  manager, and once one has returned nobody sends.
\<close>

definition manager_inv :: "('c, 'x) manager_state \<Rightarrow> bool" where
  "manager_inv s \<longleftrightarrow> finite (senders s) \<and> mg_active (ms_manager s) = card (senders s) \<and>
     (\<forall>i. ms_at s i = CloseWaiting \<longrightarrow> mg_closing (ms_manager s)) \<and>
     (\<forall>i e. ms_at s i = CloseReturned e \<longrightarrow> mg_closing (ms_manager s) \<and> senders s = {})"

lemma manager_init_inv: "manager_init s \<Longrightarrow> manager_inv s"
proof -
  assume init: "manager_init s"
  then have idle: "ms_at s i = NotifyIdle \<or> ms_at s i = CloseIdle" for i by (simp add: manager_init_def)
  then have "senders s = {}" by (metis (full_types) senders_def is_sending_simps(1,4) Collect_empty_eq)
  moreover have "ms_at s i \<noteq> CloseWaiting" "ms_at s i \<noteq> CloseReturned e" for i e
    using idle [of i] by auto
  ultimately show "manager_inv s" using init by (simp add: manager_inv_def manager_init_def)
qed

lemma notify_leave_sel [simp]:
  "mg_active (notify_leave m) = mg_active m - 1" "mg_closing (notify_leave m) = mg_closing m"
  "mg_sender (notify_leave m) = mg_sender m" "mg_notifiers (notify_leave m) = mg_notifiers m"
  by (simp_all add: notify_leave_def)

lemma close_mark_sel [simp]:
  "mg_active (close_mark m) = mg_active m" "mg_closing (close_mark m)"
  "mg_sender (close_mark m) = mg_sender m" "mg_notifiers (close_mark m) = mg_notifiers m"
  by (simp_all add: close_mark_def)

lemma manager_step_inv:
  assumes "manager_step E call s s'" and inv: "manager_inv s"
  shows "manager_inv s'"
  using assms(1)
proof cases
  case (refused i)
  then have "i \<notin> senders s" by (simp add: senders_def)
  with refused inv show ?thesis by (auto simp: manager_inv_def senders_at_point)
next
  case (enter i m)
  then have "i \<notin> senders s" "\<not> mg_closing (ms_manager s)"
    by (simp_all add: senders_def notify_enter_cases)
  with enter inv show ?thesis by (auto simp: manager_inv_def senders_at_point notify_enter_cases)
next
  case (send i xs item ys errs err w)
  then have "i \<in> senders s" by (simp add: senders_def)
  with send inv show ?thesis by (auto simp: manager_inv_def senders_at_point insert_absorb)
next
  case (leave i errs)
  then have "i \<in> senders s" by (simp add: senders_def)
  with leave inv show ?thesis by (auto simp: manager_inv_def senders_at_point)
next
  case (mark i)
  then have "i \<notin> senders s" by (simp add: senders_def)
  with mark inv show ?thesis by (auto simp: manager_inv_def senders_at_point)
next
  case (close i)
  then have "i \<notin> senders s" by (simp add: senders_def)
  with close inv show ?thesis by (auto simp: manager_inv_def senders_at_point)
qed

lemma manager_steps_inv: "manager_steps E call s s' \<Longrightarrow> manager_inv s \<Longrightarrow> manager_inv s'"
  by (induction rule: manager_steps.induct) (auto dest: manager_step_inv)

lemma manager_reach_inv: "manager_reach E call s \<Longrightarrow> manager_inv s"
  by (auto simp: manager_reach_def intro: manager_steps_inv manager_init_inv)

section \<open>After a close\<close>

text \<open>The points of a caller of \<open>Notify\<close> that sends nothing: it has not called, or was refused.\<close>

definition outside :: "manager_point \<Rightarrow> bool" where
  "outside p \<longleftrightarrow> p = NotifyIdle \<or> p = NotifyReturned (Some (Sentinel NotifyErrManagerClosed))"

lemma manager_quiet_step:
  assumes "manager_step E call s s'" and "manager_inv s" and "ms_at s i = CloseReturned e"
  shows "ms_world s' = ms_world s \<and> ms_at s' i = CloseReturned e \<and> (outside (ms_at s j) \<longrightarrow> outside (ms_at s' j))"
proof -
  from assms(2,3) have closing: "mg_closing (ms_manager s)" and none: "\<not> is_sending (ms_at s k)" for k
    by (auto simp: manager_inv_def senders_def)
  from assms(1) show ?thesis
  proof cases
    case (enter k m)
    with closing show ?thesis by (simp add: notify_enter_cases)
  next
    case (send k xs item ys errs err w)
    with none [of k] show ?thesis by simp
  next
    case (leave k errs)
    with none [of k] show ?thesis by simp
  qed (use assms(3) in \<open>auto simp: outside_def\<close>)
qed

lemma manager_quiet_steps:
  "manager_steps E call s s' \<Longrightarrow> manager_inv s \<Longrightarrow> ms_at s i = CloseReturned e \<Longrightarrow>
     ms_world s' = ms_world s \<and> ms_at s' i = CloseReturned e \<and> (outside (ms_at s j) \<longrightarrow> outside (ms_at s' j))"
proof (induction rule: manager_steps.induct)
  case (more s s' s'')
  from manager_quiet_step [OF more.hyps(1) more.prems, of j] more.IH [OF manager_step_inv [OF more.hyps(1) more.prems(1)]]
  show ?case by simp
qed simp

section \<open>The function is a path\<close>

lemma at_point_update [simp]:
  "at_point i p (at_point i q s) = at_point i p s"
  "(at_point i p s)\<lparr>ms_manager := m\<rparr> = at_point i p (s\<lparr>ms_manager := m\<rparr>)"
  "(at_point i p s)\<lparr>ms_world := w\<rparr> = at_point i p (s\<lparr>ms_world := w\<rparr>)"
  by (simp_all add: at_point_def)

text \<open>Whatever the order \<open>items\<close> in which the goroutines of a caller send, the rules allow it.\<close>

lemma sends_path:
  assumes "mset items = mset pending" and "send_all E (mg_sender (ms_manager s)) items (fst (call i)) (snd (call i)) (ms_world s) = (errs', w')"
  shows "manager_steps E call (at_point i (NotifySending pending errs) s)
    (at_point i (NotifySending [] (errs @ errs')) (s\<lparr>ms_world := w'\<rparr>))"
  using assms
proof (induction items arbitrary: pending errs s errs')
  case Nil
  then show ?case by (auto intro: manager_steps.none)
next
  case (Cons x rest)
  from Cons.prems(1) have "x \<in> set pending" by (metis list.set_intros(1) set_mset_mset)
  then obtain xs ys where p: "pending = xs @ x # ys" by (meson split_list)
  with Cons.prems(1) have m: "mset rest = mset (xs @ ys)" by simp
  obtain e w1 where e: "send_item E (mg_sender (ms_manager s)) (fst (call i)) (snd (call i)) x (ms_world s) = (e, w1)"
    by (rule prod.exhaust)
  obtain es w2 where es: "send_all E (mg_sender (ms_manager s)) rest (fst (call i)) (snd (call i)) w1 = (es, w2)"
    by (rule prod.exhaust)
  have step: "manager_step E call (at_point i (NotifySending pending errs) s)
      (at_point i (NotifySending (xs @ ys) (errs @ [e])) ((at_point i (NotifySending pending errs) s)\<lparr>ms_world := w1\<rparr>))"
    by (rule send [where item = x]) (simp_all add: p e)
  from Cons.IH [OF m, of "s\<lparr>ms_world := w1\<rparr>" es "errs @ [e]"] es Cons.prems(2) e step show ?case
    by (auto intro: manager_steps.more)
qed

section \<open>A close can return\<close>

lemma at_point_same: "ms_at s i = p \<Longrightarrow> at_point i p s = s"
  by (simp add: at_point_def fun_upd_idem)

text \<open>A caller that sends can come to its end.\<close>

lemma drain_one:
  assumes "ms_at s i = NotifySending items errs"
  shows "\<exists>s'. manager_steps E call s s' \<and> senders s' = senders s - {i} \<and> (\<forall>j. j \<noteq> i \<longrightarrow> ms_at s' j = ms_at s j)"
proof -
  obtain es w where all: "send_all E (mg_sender (ms_manager s)) items (fst (call i)) (snd (call i)) (ms_world s) = (es, w)"
    by (rule prod.exhaust)
  let ?s1 = "at_point i (NotifySending [] (errs @ es)) (s\<lparr>ms_world := w\<rparr>)"
  let ?s2 = "at_point i (NotifyReturned (errors_join (errs @ es))) (?s1\<lparr>ms_manager := notify_leave (ms_manager ?s1)\<rparr>)"
  have "manager_steps E call s ?s1"
    using sends_path [of items items E s call i es w errs] all at_point_same [OF assms] by simp
  moreover have "manager_step E call ?s1 ?s2" by (rule leave) simp
  ultimately have "manager_steps E call s ?s2" by (blast intro: manager_steps_trans manager_one_step)
  then show ?thesis by (intro exI [of _ ?s2]) (simp add: senders_at_point)
qed

lemma drain:
  "finite A \<Longrightarrow> senders s = A \<Longrightarrow>
     \<exists>s'. manager_steps E call s s' \<and> senders s' = {} \<and> (\<forall>j. j \<notin> A \<longrightarrow> ms_at s' j = ms_at s j)"
proof (induction A arbitrary: s rule: finite_induct)
  case empty
  then show ?case by (auto intro: manager_steps.none)
next
  case (insert i A)
  then have "i \<in> senders s" by simp
  then obtain items errs where "ms_at s i = NotifySending items errs" by (auto simp: senders_def is_sending_def)
  from drain_one [OF this] obtain s1 where s1: "manager_steps E call s s1" "senders s1 = senders s - {i}"
    "\<forall>j. j \<noteq> i \<longrightarrow> ms_at s1 j = ms_at s j" by blast
  from s1(2) insert.hyps(2) insert.prems have "senders s1 = A" by simp
  from insert.IH [OF this] s1 show ?case by (metis manager_steps_trans insertI1 insertI2)
qed

lemma close_channels_None [simp]: "errors_join (close_channels items) = None"
proof -
  have "close_channels items = []" by (induction items) (simp_all add: channel_closer_def)
  then show ?thesis by (simp add: errors_join_None)
qed

lemma close_completes:
  assumes "manager_reach E call s" and "ms_at s i = CloseWaiting"
  shows "\<exists>s'. manager_steps E call s s' \<and> ms_at s' i = CloseReturned None"
proof -
  note inv = manager_reach_inv [OF assms(1)]
  then have "finite (senders s)" by (simp add: manager_inv_def)
  from drain [OF this refl, of E call] obtain s1 where s1: "manager_steps E call s s1" "senders s1 = {}"
    "\<forall>j. j \<notin> senders s \<longrightarrow> ms_at s1 j = ms_at s j" by blast
  have "i \<notin> senders s" using assms(2) by (simp add: senders_def)
  with s1(3) assms(2) have waiting: "ms_at s1 i = CloseWaiting" by simp
  moreover have "mg_active (ms_manager s1) = 0"
    using manager_steps_inv [OF s1(1) inv] s1(2) by (simp add: manager_inv_def)
  ultimately have "manager_step E call s1 (at_point i (CloseReturned None) s1)"
    using close [of s1 i E call] by simp
  with s1(1) show ?thesis
    by (intro exI [of _ "at_point i (CloseReturned None) s1"]) (auto intro: manager_steps_trans manager_one_step)
qed

section \<open>Properties\<close>

text \<open>
  C33. Closing is final: once a call of the manager's \<open>Close\<close> has returned, no call of \<open>Notify\<close> is
  inside, and whatever steps any callers take from then on, nothing is sent: the world stays as
  it was, and a caller that had not entered has at most been refused.
\<close>

theorem closed_manager_is_quiet:
  assumes "manager_reach E call s" and "ms_at s i = CloseReturned e" and "manager_steps E call s s'"
  shows "ms_world s' = ms_world s \<and> mg_active (ms_manager s') = 0 \<and> senders s' = {} \<and>
    {j. outside (ms_at s j)} \<subseteq> {j. outside (ms_at s' j)}"
proof -
  note inv = manager_reach_inv [OF assms(1)]
  note quiet = manager_quiet_steps [OF assms(3) inv assms(2)]
  have "manager_inv s'" using assms(3) inv by (rule manager_steps_inv)
  then have "senders s' = {} \<and> mg_active (ms_manager s') = 0"
    using quiet by (auto simp: manager_inv_def)
  then show ?thesis using quiet by auto
qed

text \<open>A manager with the base channel; caller 0 closes it, everybody else would notify.\<close>

definition base_world :: "(unit, unit) world" where
  "base_world = \<lparr>w_ext = (), w_tls = newTLSClient, w_httplog = [], w_notifylog = []\<rparr>"

definition base_start :: "(unit, unit) manager_state" where
  "base_start = \<lparr>ms_manager = base_only, ms_world = base_world, ms_at = (\<lambda>_. NotifyIdle)(0 := CloseIdle)\<rparr>"

definition base_closed :: "(unit, unit) manager_state" where
  "base_closed = at_point 0 (CloseReturned None) (base_start\<lparr>ms_manager := close_mark base_only\<rparr>)"

definition base_refused :: "(unit, unit) manager_state" where
  "base_refused = at_point 1 (NotifyReturned (Some (Sentinel NotifyErrManagerClosed))) base_closed"

lemma closed_manager_is_quiet_witness:
  "\<forall>(E :: (unit, unit) env) call.
     manager_steps E call base_start base_closed \<and> manager_steps E call base_closed base_refused \<and>
     ms_at base_closed 0 = CloseReturned None \<and> ms_world base_refused = ms_world base_closed"
proof (intro allI)
  fix E :: "(unit, unit) env" and call
  let ?w = "at_point 0 CloseWaiting (base_start\<lparr>ms_manager := close_mark base_only\<rparr>)"
  have sel: "ms_manager base_start = base_only" "ms_at base_start 0 = CloseIdle" "mg_active base_only = 0"
    by (simp_all add: base_start_def base_only_def)
  have "manager_step E call base_start ?w" using mark [OF sel(2)] sel(1) by metis
  moreover have "manager_step E call ?w base_closed"
    using close [of ?w 0 E call] sel(3) by (simp add: base_closed_def del: close_channels.simps)
  ultimately have c: "manager_steps E call base_start base_closed" by (blast intro: manager_steps.intros)
  have "manager_step E call base_closed base_refused"
    unfolding base_refused_def by (rule refused) (simp_all add: base_closed_def base_start_def notify_enter_def)
  then have r: "manager_steps E call base_closed base_refused" by (rule manager_one_step)
  have at: "ms_at base_closed 0 = CloseReturned None" by (simp add: base_closed_def)
  have "manager_reach E call base_closed"
    using c unfolding manager_reach_def by (intro exI [of _ base_start]) (simp add: manager_init_def base_start_def sel(3))
  from closed_manager_is_quiet [OF this at r] c r at
  show "manager_steps E call base_start base_closed \<and> manager_steps E call base_closed base_refused \<and>
     ms_at base_closed 0 = CloseReturned None \<and> ms_world base_refused = ms_world base_closed" by simp
qed

text \<open>
  C37. The function that gives the outcome of a notification is the code that the interleaved rules
  describe: a call of \<open>Notify\<close> that no other caller interrupts is a path of the rules, whatever
  the order in which its goroutines send; it ends with the function's error and world, and
  leaves the manager as it found it, the wait group included.
\<close>

theorem Notify_follows_the_rules:
  assumes idle: "ms_at s i = NotifyIdle"
    and order: "mset (sched (mg_notifiers (ms_manager s))) = mset (mg_notifiers (ms_manager s))"
    and run: "manager_Notify E sched (ms_manager s) (fst (call i)) (snd (call i)) (ms_world s) = (err, w)"
  shows "manager_steps E call s (at_point i (NotifyReturned err) (s\<lparr>ms_world := w\<rparr>))"
proof (cases "notify_enter (ms_manager s)")
  case None
  with run have "err = Some (Sentinel NotifyErrManagerClosed)" "w = ms_world s"
    by (simp_all add: manager_Notify_def)
  with manager_one_step [OF refused [OF idle None]] show ?thesis by simp
next
  case (Some m)
  note m = notify_enter_cases(2) [THEN iffD1, OF Some]
  let ?s1 = "s\<lparr>ms_manager := m\<rparr>"
  obtain errs w2 where all: "send_all E (mg_sender m) (sched (mg_notifiers m)) (fst (call i)) (snd (call i)) (ms_world s) = (errs, w2)"
    by (rule prod.exhaust)
  with run Some have r: "err = errors_join errs" "w = w2" by (simp_all add: manager_Notify_def)
  let ?s2 = "at_point i (NotifySending [] errs) (?s1\<lparr>ms_world := w2\<rparr>)"
  have "manager_steps E call s ?s2"
    using enter [OF idle Some] sends_path [of "sched (mg_notifiers m)" "mg_notifiers m" E ?s1 call i errs w2 "[]"] all order m
    by (auto intro: manager_steps.more)
  moreover have "manager_step E call ?s2
      (at_point i (NotifyReturned (errors_join errs)) (?s2\<lparr>ms_manager := notify_leave (ms_manager ?s2)\<rparr>))"
    by (rule leave) simp
  moreover have "notify_leave m = ms_manager s" using Some by (rule notify_leave_enter)
  ultimately show ?thesis
    using r by (auto intro: manager_steps_trans manager_one_step)
qed

lemma Notify_follows_the_rules_witness:
  "\<forall>(E :: (unit, unit) env) call.
     \<exists>w. manager_steps E call base_start (at_point 1 (NotifyReturned None) (base_start\<lparr>ms_world := w\<rparr>))"
proof (intro allI)
  fix E :: "(unit, unit) env" and call :: "nat \<Rightarrow> logctx \<times> notify_message"
  obtain err w where run: "manager_Notify E (\<lambda>items. items) (ms_manager base_start) (fst (call 1)) (snd (call 1))
      (ms_world base_start) = (err, w)" by (rule prod.exhaust)
  have at: "ms_at base_start 1 = NotifyIdle" by (simp add: base_start_def)
  have "err = None"
    using run by (auto simp: base_start_def manager_Notify_def notify_enter_def send_item_def base_Send_def Let_def
        errors_join_def split: prod.splits)
  with Notify_follows_the_rules [of base_start 1 "\<lambda>items. items" E call err w, OF at refl run] show
    "\<exists>w. manager_steps E call base_start (at_point 1 (NotifyReturned None) (base_start\<lparr>ms_world := w\<rparr>))" by blast
qed

end
