(* ===== verification/TlsCache.thy ===== *)
theory TlsCache
  imports TlsClient
begin

text \<open>
  The cache of \<open>pkg/apicore/tlsclient.go\<close> under any interleaving of callers: the state of a
  client is well formed, so that two cookie scopes never share a jar, and a client that
  \<open>acquire\<close> finds in the map is the one it would have made for the request at hand, though the
  key holds less than the request.
\<close>

section \<open>Well-formed states\<close>

text \<open>Every key and every scope occurs once, no jar belongs to two scopes, and jars are numbered as made.\<close>

definition tls_wf :: "'c tls_client \<Rightarrow> bool" where
  "tls_wf c \<longleftrightarrow> distinct (map fst (tc_clients c)) \<and> distinct (map fst (tc_jars c)) \<and>
     distinct (map snd (tc_jars c)) \<and> (\<forall>j\<in>set (map snd (tc_jars c)). j < tc_next_jar c) \<and>
     '''' \<notin> set (map fst (tc_jars c))"

lemma tls_wf_new: "tls_wf newTLSClient"
  by (simp add: tls_wf_def newTLSClient_def)

lemma map_of_fresh: "map_of xs k = None \<longleftrightarrow> k \<notin> set (map fst xs)"
  by (simp add: map_of_eq_None_iff)

lemma tls_wf_scope: "tls_wf c \<Longrightarrow> map_of (tc_jars c) '''' = None"
  by (simp add: tls_wf_def map_of_fresh)

lemma jar_for_wf:
  assumes "tls_wf c" and "jar_for scope c = (jar, c')"
  shows "tls_wf c' \<and> jar = map_of (tc_jars c') scope"
proof (cases "scope = '''' \<or> map_of (tc_jars c) scope \<noteq> None")
  case True
  with assms tls_wf_scope [OF assms(1)] show ?thesis
    by (auto simp: jar_for_def split: if_splits)
next
  case False
  then have new: "scope \<notin> set (map fst (tc_jars c))" by (simp add: map_of_fresh)
  from False assms(2) have eq: "jar = Some (tc_next_jar c)"
    "c' = c\<lparr>tc_jars := tc_jars c @ [(scope, tc_next_jar c)], tc_next_jar := Suc (tc_next_jar c)\<rparr>"
    by (simp_all add: jar_for_def)
  have "tc_next_jar c \<notin> set (map snd (tc_jars c))" using assms(1) by (auto simp: tls_wf_def)
  moreover have "map_of (tc_jars c') scope = Some (tc_next_jar c)"
    using new by (simp add: eq(2) map_add_def map_of_fresh [THEN iffD2])
  ultimately show ?thesis
    using assms(1) new False by (auto simp: tls_wf_def eq less_SucI)
qed

lemma acquire_wf:
  assumes "tls_wf c" and "acquire f r ua (c, x) = (res, c', x')"
  shows "tls_wf c'"
proof -
  obtain jar c1 where j: "jar_for (rq_CookieScope r) c = (jar, c1)" by (rule prod.exhaust)
  have wf: "tls_wf c1" using jar_for_wf [OF assms(1) j] by simp
  have "tc_clients c1 = tc_clients c" using jar_for_frame(3) [of "rq_CookieScope r" c] j by simp
  then have "tls_wf (c1\<lparr>tc_clients := (client_key_of r ua, client) # tc_clients c1, tc_inflight := n\<rparr>)"
    if "map_of (tc_clients c) (client_key_of r ua) = None" for client n
    using wf that by (simp add: tls_wf_def map_of_fresh)
  moreover have "tls_wf (c\<lparr>tc_inflight := n\<rparr>)" for n using assms(1) by (simp add: tls_wf_def)
  ultimately show ?thesis
    using assms j wf by (auto simp: acquire_def Let_def split: if_splits option.splits prod.splits sum.splits)
qed

lemma wf_frame [simp]:
  "tls_wf (release c) = tls_wf c" "tls_wf (close_begin c) = tls_wf c" "tls_wf (close_finish c)"
  by (simp_all add: tls_wf_def release_def close_begin_def close_finish_def)

lemma conc_step_wf: "conc_step f s s' \<Longrightarrow> tls_wf (cs_tls s) \<Longrightarrow> tls_wf (cs_tls s')"
  by (induction rule: conc_step.induct) (auto dest: acquire_wf)

lemma conc_reach_wf: "conc_reach f s \<Longrightarrow> tls_wf (cs_tls s)"
  by (induction rule: conc_reach.induct) (auto simp: tls_wf_new dest: conc_step_wf)

section \<open>What the key leaves out\<close>

text \<open>
  The key has the name of the browser profile and the timeout in milliseconds, and no jar. The
  options of a client are still determined by the key and the jar.
\<close>

lemma profile_of_name:
  "fst (profileForUserAgent a) = fst (profileForUserAgent b) \<Longrightarrow> profileForUserAgent a = profileForUserAgent b"
  by (auto simp: profileForUserAgent_def Let_def split: if_splits)

lemma config_for_sel [simp]:
  "cc_profile (config_for r ua j) = snd (profileForUserAgent ua)" "cc_proxy (config_for r ua j) = rq_Proxy r"
  "cc_timeout (config_for r ua j) = rq_Timeout r" "cc_disableRedirect (config_for r ua j) = rq_DisableRedirect r"
  "cc_jar (config_for r ua j) = j"
  by (simp_all add: config_for_def split: prod.splits)

lemma timeout_of_millis:
  assumes "timeoutMilliseconds s = timeoutMilliseconds t" and "int64_range s" and "int64_range t"
  shows "0 < s \<longleftrightarrow> 0 < t"
proof -
  have "0 < timeoutMilliseconds u \<longleftrightarrow> 0 < u" if "int64_range u" for u
    using timeoutMilliseconds_pos [OF _ that] by (cases "0 < u") (simp_all add: timeoutMilliseconds_def)
  with assms show ?thesis by metis
qed

lemma options_of_key:
  assumes "client_key_of r ua = client_key_of r' ua'" and "int64_range (rq_Timeout r)" and "int64_range (rq_Timeout r')"
  shows "client_options (config_for r ua j) = client_options (config_for r' ua' j)"
proof -
  have k: "fst (profileForUserAgent ua) = fst (profileForUserAgent ua')" "rq_Proxy r = rq_Proxy r'"
    "timeoutMilliseconds (rq_Timeout r) = timeoutMilliseconds (rq_Timeout r')"
    "rq_DisableRedirect r = rq_DisableRedirect r'"
    using assms(1) by (simp_all add: client_key_of_def)
  from timeout_of_millis [OF k(3) assms(2,3)] profile_of_name [OF k(1)] k show ?thesis
    by (simp add: client_options_def)
qed

section \<open>The cache is transparent\<close>

text \<open>
  What is assumed of the third-party client: two clients made with the same options are equal,
  \<open>made opts\<close> being the client of the options.
\<close>

definition makes :: "(client_option list \<Rightarrow> 'x \<Rightarrow> (goerror + 'c) \<times> 'x) \<Rightarrow> (client_option list \<Rightarrow> 'c) \<Rightarrow> bool" where
  "makes N made \<longleftrightarrow> (\<forall>opts x client x'. N opts x = (Inr client, x') \<longrightarrow> client = made opts)"

text \<open>The client that a request would be given if nothing were cached.\<close>

definition fresh_client :: "(client_option list \<Rightarrow> 'c) \<Rightarrow> request \<Rightarrow> string \<Rightarrow> 'c tls_client \<Rightarrow> 'c" where
  "fresh_client made r ua c = made (client_options (config_for r ua (map_of (tc_jars c) (rq_CookieScope r))))"

text \<open>Every cached client was made for a request with its key, with the jar its scope still has.\<close>

definition cached_ok :: "(client_option list \<Rightarrow> 'c) \<Rightarrow> 'c tls_client \<Rightarrow> bool" where
  "cached_ok made c \<longleftrightarrow> (\<forall>(key, client) \<in> set (tc_clients c). \<exists>r ua. int64_range (rq_Timeout r) \<and>
     key = client_key_of r ua \<and> client = fresh_client made r ua c \<and>
     (rq_CookieScope r = '''' \<or> map_of (tc_jars c) (rq_CookieScope r) \<noteq> None))"

lemma fresh_client_key:
  assumes "client_key_of r ua = client_key_of r' ua'" and "int64_range (rq_Timeout r)" and "int64_range (rq_Timeout r')"
  shows "fresh_client made r ua c = fresh_client made r' ua' c"
proof -
  have "rq_CookieScope r = rq_CookieScope r'" using assms(1) by (simp add: client_key_of_def)
  with options_of_key [OF assms] show ?thesis by (simp add: fresh_client_def)
qed

lemma jar_for_keeps:
  assumes "tls_wf c" and "jar_for scope c = (jar, c')" and "s = '''' \<or> map_of (tc_jars c) s \<noteq> None"
  shows "map_of (tc_jars c') s = map_of (tc_jars c) s"
  using assms(3)
proof
  assume "s = ''''"
  with tls_wf_scope jar_for_wf [OF assms(1,2)] assms(1) show ?thesis by metis
next
  assume "map_of (tc_jars c) s \<noteq> None"
  then obtain j where "map_of (tc_jars c) s = Some j" by blast
  with jar_for_stable [of c s j scope] assms(2) show ?thesis by simp
qed

lemma jar_for_cached:
  assumes "tls_wf c" and "cached_ok made c" and "jar_for scope c = (jar, c')"
  shows "cached_ok made c'"
proof -
  have same: "tc_clients c' = tc_clients c" using jar_for_frame(3) [of scope c] assms(3) by simp
  note keeps = jar_for_keeps [OF assms(1,3)]
  have "\<exists>r ua. int64_range (rq_Timeout r) \<and> key = client_key_of r ua \<and> client = fresh_client made r ua c' \<and>
      (rq_CookieScope r = '''' \<or> map_of (tc_jars c') (rq_CookieScope r) \<noteq> None)"
    if m: "(key, client) \<in> set (tc_clients c)" for key client
  proof -
    from assms(2) m obtain r ua where r: "int64_range (rq_Timeout r)" "key = client_key_of r ua"
      "client = fresh_client made r ua c" "rq_CookieScope r = '''' \<or> map_of (tc_jars c) (rq_CookieScope r) \<noteq> None"
      unfolding cached_ok_def by blast
    from keeps [OF r(4)] r show ?thesis
      by (intro exI [of _ r] exI [of _ ua]) (simp add: fresh_client_def)
  qed
  then show ?thesis unfolding cached_ok_def same by blast
qed

lemma cached_ok_inflight [simp]: "cached_ok made (c\<lparr>tc_inflight := n\<rparr>) = cached_ok made c"
  by (simp add: cached_ok_def fresh_client_def)

lemma jar_for_some:
  assumes "jar_for scope c = (jar, c')"
  shows "scope = '''' \<or> jar \<noteq> None"
proof (cases "scope = ''''")
  case False
  have "fst (jar_for scope c) \<noteq> None" using False by (simp add: jar_for_def split: option.split)
  then show ?thesis by (simp add: assms)
qed simp

lemma cached_ok_insert:
  assumes "cached_ok made c" and "client = fresh_client made r ua c"
    and "rq_CookieScope r = '''' \<or> map_of (tc_jars c) (rq_CookieScope r) \<noteq> None" and "int64_range (rq_Timeout r)"
  shows "cached_ok made (c\<lparr>tc_clients := (client_key_of r ua, client) # tc_clients c, tc_inflight := n\<rparr>)"
proof -
  have same: "fresh_client made r' ua' (c\<lparr>tc_clients := cs, tc_inflight := n\<rparr>) = fresh_client made r' ua' c"
    for r' ua' cs by (simp add: fresh_client_def)
  from assms show ?thesis unfolding cached_ok_def same by (simp add: Ball_def) blast
qed

lemma acquire_cached:
  assumes wf: "tls_wf c" and ok: "cached_ok made c" and N: "makes N made" and t: "int64_range (rq_Timeout r)"
    and a: "acquire (defaultNewClient N) r ua (c, x) = (res, c', x')"
  shows "cached_ok made c' \<and> (case res of Inl e \<Rightarrow> True | Inr client \<Rightarrow> client = fresh_client made r ua c')"
proof (cases "tc_closed c")
  case True
  with a ok show ?thesis by (auto simp: acquire_closed)
next
  case live: False
  show ?thesis
  proof (cases "map_of (tc_clients c) (client_key_of r ua)")
    case (Some client)
    then have "(client_key_of r ua, client) \<in> set (tc_clients c)" by (rule map_of_SomeD)
    with ok obtain r0 ua0 where r0: "int64_range (rq_Timeout r0)" "client_key_of r ua = client_key_of r0 ua0"
      "client = fresh_client made r0 ua0 c" by (auto simp: cached_ok_def)
    from fresh_client_key [OF r0(2) t r0(1), of made c] r0(3) have "client = fresh_client made r ua c" by simp
    with a ok live Some show ?thesis by (auto simp: acquire_def Let_def fresh_client_def)
  next
    case None
    obtain jar c1 where j: "jar_for (rq_CookieScope r) c = (jar, c1)" by (rule prod.exhaust)
    note wf1 = jar_for_wf [OF wf j] and ok1 = jar_for_cached [OF wf ok j]
    obtain made1 x1 where f: "defaultNewClient N (config_for r ua jar) x = (made1, x1)" by (rule prod.exhaust)
    show ?thesis
    proof (cases made1)
      case (Inl e)
      with a live None j f ok1 show ?thesis by (auto simp: acquire_def Let_def)
    next
      case (Inr client)
      with a live None j f have c': "res = Inr client"
        "c' = c1\<lparr>tc_clients := (client_key_of r ua, client) # tc_clients c1, tc_inflight := tc_inflight c1 + 1\<rparr>"
        by (auto simp: acquire_def Let_def)
      have client: "client = fresh_client made r ua c1"
        using N [unfolded makes_def, rule_format, of "client_options (config_for r ua jar)" x client x1] f Inr wf1
        by (simp add: defaultNewClient_def fresh_client_def)
      have scope: "rq_CookieScope r = '''' \<or> map_of (tc_jars c1) (rq_CookieScope r) \<noteq> None"
        using jar_for_some [OF j] wf1 by auto
      show ?thesis
        using cached_ok_insert [OF ok1 client scope t] client by (simp add: c' fresh_client_def)
    qed
  qed
qed

lemma conc_step_cached:
  assumes "conc_step (defaultNewClient N) s s'" and "makes N made" and "tls_wf (cs_tls s)" and "cached_ok made (cs_tls s)"
  shows "cached_ok made (cs_tls s')"
  using assms(1)
proof cases
  case (got r ua client c x)
  with acquire_cached [OF assms(3,4,2)] show ?thesis by fastforce
next
  case (refused r ua err c x)
  with acquire_cached [OF assms(3,4,2)] show ?thesis by fastforce
qed (use assms(4) in \<open>auto simp: cached_ok_def fresh_client_def release_def close_begin_def close_finish_def\<close>)

lemma conc_reach_cached:
  assumes "conc_reach (defaultNewClient N) s" and "makes N made"
  shows "cached_ok made (cs_tls s)"
  using assms(1)
proof (induction rule: conc_reach.induct)
  case (start x)
  then show ?case by (simp add: cached_ok_def newTLSClient_def)
next
  case (step s s')
  from conc_step_cached [OF step.hyps(2) assms(2) conc_reach_wf [OF step.hyps(1)] step.IH] show ?case .
qed

section \<open>Properties\<close>


text \<open>A caller that was given a client of the scope \<open>m\<close>.\<close>

definition scope_request :: request where
  "scope_request = zero_request\<lparr>rq_CookieScope := ''m''\<rparr>"

definition first_state :: "(client_option list, unit) conc_state" where
  "first_state = \<lparr>cs_tls = newTLSClient, cs_ext = (), cs_active = [], cs_done = False\<rparr>"

definition scope_options :: "client_option list" where
  "scope_options = client_options (config_for scope_request '''' (Some 0))"

definition scope_client :: "client_option list tls_client" where
  "scope_client = \<lparr>tc_clients = [(client_key_of scope_request '''', scope_options)], tc_jars = [(''m'', 0)],
     tc_next_jar = 1, tc_closed = False, tc_inflight = 1\<rparr>"

definition scope_state :: "(client_option list, unit) conc_state" where
  "scope_state = first_state\<lparr>cs_tls := scope_client, cs_active := [scope_options]\<rparr>"

definition options_client :: "client_option list \<Rightarrow> unit \<Rightarrow> (goerror + client_option list) \<times> unit" where
  "options_client opts x = (Inr opts, x)"

lemma scope_state_reach: "conc_reach (defaultNewClient options_client) scope_state"
proof -
  have "acquire (defaultNewClient options_client) scope_request '''' (cs_tls first_state, cs_ext first_state)
      = (Inr scope_options, scope_client, ())"
    by (simp add: acquire_def Let_def first_state_def newTLSClient_def jar_for_def scope_request_def zero_request_def
        defaultNewClient_def options_client_def scope_client_def scope_options_def)
  moreover have "int64_range (rq_Timeout scope_request)"
    by (simp add: scope_request_def zero_request_def int64_range_def)
  ultimately have "conc_step (defaultNewClient options_client) first_state
      (first_state\<lparr>cs_tls := scope_client, cs_ext := (), cs_active := scope_options # cs_active first_state\<rparr>)"
    by (rule got)
  then have "conc_step (defaultNewClient options_client) first_state scope_state"
    by (simp add: scope_state_def first_state_def)
  moreover have "conc_reach (defaultNewClient options_client) first_state"
    unfolding first_state_def by (rule conc_reach.start)
  ultimately show ?thesis by (rule conc_reach.step [rotated])
qed




end
