(* ===== verification/LogOutput.thy ===== *)
theory LogOutput
  imports HttpLog
begin

text \<open>
  Where log lines go: the format of a line (\<open>pkg/log/formatter.go\<close>), the hooks that write it to
  files (\<open>hook.go\<close>), the three loggers (\<open>logger.go\<close>, \<open>message.go\<close>), the methods of a log
  context (\<open>context.go\<close>), and the log ids (\<open>pkg/util/log_id.go\<close>). The logging library and the
  rotating files behind it are arguments: what an entry knows of its time and caller, the name
  of a level, which hooks an entry reaches, and writing to a file.
\<close>

section \<open>Lines\<close>

datatype log_level = PanicLevel | FatalLevel | ErrorLevel | WarnLevel | InfoLevel | DebugLevel | TraceLevel

text \<open>
  The time of an entry is kept as the text that \<open>Time.Format\<close> gives; an entry may have a buffer,
  which a formatter appends to. A rotating file is known by its settings.
\<close>

record log_entry =
  en_Level :: log_level
  en_Time :: string
  en_Caller :: "(string \<times> int \<times> string) option"
  en_Message :: string
  en_Buffer :: "string option"

record rotating_file =
  rl_Filename :: string
  rl_MaxSize :: int
  rl_MaxBackups :: int
  rl_MaxAge :: int
  rl_LocalTime :: bool

text \<open>
  What is used of the logging library: the name of a level, the entry that a logger makes (with
  its caller, if the logger reports it), writing to a rotating file, and running the hooks.
\<close>

record 'f logrus =
  lr_LevelText :: "log_level \<Rightarrow> string"
  lr_Entry :: "bool \<Rightarrow> log_level \<Rightarrow> string \<Rightarrow> 'f \<Rightarrow> log_entry"
  lr_Write :: "rotating_file \<Rightarrow> string \<Rightarrow> 'f \<Rightarrow> goerror option \<times> 'f"
  lr_Log :: "log_level \<Rightarrow> (log_level list \<times> (log_entry \<Rightarrow> 'f \<Rightarrow> goerror option \<times> 'f)) list \<Rightarrow> log_entry \<Rightarrow> 'f \<Rightarrow> 'f"

definition Format :: "'f logrus \<Rightarrow> log_entry \<Rightarrow> string" where
  "Format L e =
     (case en_Buffer e of None \<Rightarrow> '''' | Some b \<Rightarrow> b) @
     (case en_Caller e of
        Some (file, line, func) \<Rightarrow>
          to_upper (lr_LevelText L (en_Level e)) @ '' '' @ en_Time e @ '' '' @ file @ '':'' @ int_dec line @
            '' func['' @ func @ ''] '' @ en_Message e @ [CHR 0x0A]
      | None \<Rightarrow> to_upper (lr_LevelText L (en_Level e)) @ '' '' @ en_Time e @ '' '' @ en_Message e @ [CHR 0x0A])"

section \<open>Hooks and loggers\<close>

text \<open>A hook has the writer it writes to, here always a rotating file.\<close>

datatype log_hook = AppHook rotating_file | WarnHook rotating_file

fun Levels :: "log_hook \<Rightarrow> log_level list" where
  "Levels (AppHook file) = [PanicLevel, FatalLevel, ErrorLevel, WarnLevel, InfoLevel, DebugLevel, TraceLevel]"
| "Levels (WarnHook file) = [WarnLevel, ErrorLevel, FatalLevel, PanicLevel]"

fun Fire :: "'f logrus \<Rightarrow> log_hook \<Rightarrow> log_entry \<Rightarrow> 'f \<Rightarrow> goerror option \<times> 'f" where
  "Fire L (AppHook file) e f = lr_Write L file (Format L e) f"
| "Fire L (WarnHook file) e f = lr_Write L file (Format L e) f"

definition log_file :: "string \<Rightarrow> string" where
  "log_file name = ''logs'' @ ''/'' @ name"

definition appLogFile :: string where
  "appLogFile = log_file ''app.log''"

definition warnLogFile :: string where
  "warnLogFile = log_file ''app.logging.wf''"

definition httpLogFile :: string where
  "httpLogFile = log_file ''http.log''"

definition notifyLogFile :: string where
  "notifyLogFile = log_file ''notify.log''"

definition rotatingLog :: "string \<Rightarrow> rotating_file" where
  "rotatingLog filename = \<lparr>rl_Filename = filename, rl_MaxSize = 100, rl_MaxBackups = 30, rl_MaxAge = 30,
     rl_LocalTime = True\<rparr>"

record app_logger =
  lo_ReportCaller :: bool
  lo_Level :: log_level
  lo_Hooks :: "log_hook list"

record loggers =
  lg_app :: app_logger
  lg_http :: app_logger
  lg_notify :: app_logger

text \<open>
  \<open>newDiscardLogger\<close> reports callers, has the program's formatter and the level \<open>DebugLevel\<close>, and
  throws its own output away, so that only its hooks write. \<open>init\<close> adds the hooks, unless the
  directory of the logs cannot be made; then nothing is ever written (the line about it goes to
  a logger without hooks).
\<close>

definition newDiscardLogger :: app_logger where
  "newDiscardLogger = \<lparr>lo_ReportCaller = True, lo_Level = DebugLevel, lo_Hooks = []\<rparr>"

definition AddHook :: "log_hook \<Rightarrow> app_logger \<Rightarrow> app_logger" where
  "AddHook h lo = lo\<lparr>lo_Hooks := lo_Hooks lo @ [h]\<rparr>"

definition log_init :: "goerror option \<Rightarrow> loggers" where
  "log_init mkdir_err =
     (let lg = \<lparr>lg_app = newDiscardLogger, lg_http = newDiscardLogger, lg_notify = newDiscardLogger\<rparr>
      in case mkdir_err of
           Some err \<Rightarrow> lg
         | None \<Rightarrow> lg\<lparr>lg_app := AddHook (WarnHook (rotatingLog warnLogFile))
                                 (AddHook (AppHook (rotatingLog appLogFile)) (lg_app lg)),
                      lg_http := AddHook (AppHook (rotatingLog httpLogFile)) (lg_http lg),
                      lg_notify := AddHook (AppHook (rotatingLog notifyLogFile)) (lg_notify lg)\<rparr>)"

text \<open>Logging at a level hands the library the level and the hooks of the logger, and the entry.\<close>

definition log_at :: "'f logrus \<Rightarrow> app_logger \<Rightarrow> log_level \<Rightarrow> string \<Rightarrow> 'f \<Rightarrow> 'f" where
  "log_at L lo level msg f =
     lr_Log L (lo_Level lo) (map (\<lambda>h. (Levels h, Fire L h)) (lo_Hooks lo)) (lr_Entry L (lo_ReportCaller lo) level msg f) f"

definition log_Debug :: "'f logrus \<Rightarrow> loggers \<Rightarrow> string \<Rightarrow> 'f \<Rightarrow> 'f" where
  "log_Debug L lg msg f = log_at L (lg_app lg) DebugLevel msg f"

definition log_Info :: "'f logrus \<Rightarrow> loggers \<Rightarrow> string \<Rightarrow> 'f \<Rightarrow> 'f" where
  "log_Info L lg msg f = log_at L (lg_app lg) InfoLevel msg f"

definition log_Warn :: "'f logrus \<Rightarrow> loggers \<Rightarrow> string \<Rightarrow> 'f \<Rightarrow> 'f" where
  "log_Warn L lg msg f = log_at L (lg_app lg) WarnLevel msg f"

definition log_Error :: "'f logrus \<Rightarrow> loggers \<Rightarrow> string \<Rightarrow> 'f \<Rightarrow> 'f" where
  "log_Error L lg msg f = log_at L (lg_app lg) ErrorLevel msg f"

text \<open>The printf variants, \<open>Sprintf\<close> being the formatting of the standard library.\<close>

definition log_Debugf ::
  "'f logrus \<Rightarrow> loggers \<Rightarrow> (string \<Rightarrow> 'a list \<Rightarrow> string) \<Rightarrow> string \<Rightarrow> 'a list \<Rightarrow> 'f \<Rightarrow> 'f" where
  "log_Debugf L lg Sprintf format args f = log_Debug L lg (Sprintf format args) f"

definition log_Infof ::
  "'f logrus \<Rightarrow> loggers \<Rightarrow> (string \<Rightarrow> 'a list \<Rightarrow> string) \<Rightarrow> string \<Rightarrow> 'a list \<Rightarrow> 'f \<Rightarrow> 'f" where
  "log_Infof L lg Sprintf format args f = log_Info L lg (Sprintf format args) f"

definition log_Warnf ::
  "'f logrus \<Rightarrow> loggers \<Rightarrow> (string \<Rightarrow> 'a list \<Rightarrow> string) \<Rightarrow> string \<Rightarrow> 'a list \<Rightarrow> 'f \<Rightarrow> 'f" where
  "log_Warnf L lg Sprintf format args f = log_Warn L lg (Sprintf format args) f"

definition log_Errorf ::
  "'f logrus \<Rightarrow> loggers \<Rightarrow> (string \<Rightarrow> 'a list \<Rightarrow> string) \<Rightarrow> string \<Rightarrow> 'a list \<Rightarrow> 'f \<Rightarrow> 'f" where
  "log_Errorf L lg Sprintf format args f = log_Error L lg (Sprintf format args) f"

definition HttpInfo :: "'f logrus \<Rightarrow> loggers \<Rightarrow> string \<Rightarrow> 'f \<Rightarrow> 'f" where
  "HttpInfo L lg msg f = log_at L (lg_http lg) InfoLevel msg f"

definition NotifyInfo :: "'f logrus \<Rightarrow> loggers \<Rightarrow> string \<Rightarrow> 'f \<Rightarrow> 'f" where
  "NotifyInfo L lg msg f = log_at L (lg_notify lg) InfoLevel msg f"

text \<open>The methods of a log context put its log id in front, if it has one.\<close>

definition formatPrefix :: "logctx option \<Rightarrow> string" where
  "formatPrefix c =
     (let logID = LogID c;
          msg = (if logID \<noteq> '''' then AddField ''logid'' logID new_log_message else new_log_message)
      in message_String msg)"

definition ctx_Debug :: "'f logrus \<Rightarrow> loggers \<Rightarrow> logctx option \<Rightarrow> string \<Rightarrow> 'f \<Rightarrow> 'f" where
  "ctx_Debug L lg c msg f = log_Debug L lg (formatPrefix c @ msg) f"

definition ctx_Info :: "'f logrus \<Rightarrow> loggers \<Rightarrow> logctx option \<Rightarrow> string \<Rightarrow> 'f \<Rightarrow> 'f" where
  "ctx_Info L lg c msg f = log_Info L lg (formatPrefix c @ msg) f"

definition ctx_Warn :: "'f logrus \<Rightarrow> loggers \<Rightarrow> logctx option \<Rightarrow> string \<Rightarrow> 'f \<Rightarrow> 'f" where
  "ctx_Warn L lg c msg f = log_Warn L lg (formatPrefix c @ msg) f"

definition ctx_Error :: "'f logrus \<Rightarrow> loggers \<Rightarrow> logctx option \<Rightarrow> string \<Rightarrow> 'f \<Rightarrow> 'f" where
  "ctx_Error L lg c msg f = log_Error L lg (formatPrefix c @ msg) f"

text \<open>
  The printf variants put the log id in front of the format, not of the text: a percent sign in
  the log id would be read as a verb. \<open>log_id_has_no_percent\<close> below says that it has none.
\<close>

definition ctx_Debugf ::
  "'f logrus \<Rightarrow> loggers \<Rightarrow> (string \<Rightarrow> 'a list \<Rightarrow> string) \<Rightarrow> logctx option \<Rightarrow> string \<Rightarrow> 'a list \<Rightarrow> 'f \<Rightarrow> 'f" where
  "ctx_Debugf L lg Sprintf c format args f = log_Debugf L lg Sprintf (formatPrefix c @ format) args f"

definition ctx_Infof ::
  "'f logrus \<Rightarrow> loggers \<Rightarrow> (string \<Rightarrow> 'a list \<Rightarrow> string) \<Rightarrow> logctx option \<Rightarrow> string \<Rightarrow> 'a list \<Rightarrow> 'f \<Rightarrow> 'f" where
  "ctx_Infof L lg Sprintf c format args f = log_Infof L lg Sprintf (formatPrefix c @ format) args f"

definition ctx_Warnf ::
  "'f logrus \<Rightarrow> loggers \<Rightarrow> (string \<Rightarrow> 'a list \<Rightarrow> string) \<Rightarrow> logctx option \<Rightarrow> string \<Rightarrow> 'a list \<Rightarrow> 'f \<Rightarrow> 'f" where
  "ctx_Warnf L lg Sprintf c format args f = log_Warnf L lg Sprintf (formatPrefix c @ format) args f"

definition ctx_Errorf ::
  "'f logrus \<Rightarrow> loggers \<Rightarrow> (string \<Rightarrow> 'a list \<Rightarrow> string) \<Rightarrow> logctx option \<Rightarrow> string \<Rightarrow> 'a list \<Rightarrow> 'f \<Rightarrow> 'f" where
  "ctx_Errorf L lg Sprintf c format args f = log_Errorf L lg Sprintf (formatPrefix c @ format) args f"

section \<open>Log ids\<close>

text \<open>The verb \<open>%x\<close> on an \<open>int64\<close>.\<close>

fun nat_hex :: "nat \<Rightarrow> string" where
  "nat_hex n = (if n < 16 then [hex_lower n] else nat_hex (n div 16) @ [hex_lower (n mod 16)])"

declare nat_hex.simps [simp del]

definition int_hex :: "int \<Rightarrow> string" where
  "int_hex i = (if i < 0 then CHR ''-'' # nat_hex (nat (- i)) else nat_hex (nat i))"

text \<open>
  \<open>NewLogID\<close>: the generator, third-party code, is made once, by the first caller; when it could
  not be made, the id is the time in nanoseconds.
\<close>

definition snowflakeNodeID :: int where
  "snowflakeNodeID = 102"

definition NewLogID ::
  "(int \<Rightarrow> goerror + 'n) \<Rightarrow> ('n \<Rightarrow> 'x \<Rightarrow> int \<times> 'x) \<Rightarrow> ('x \<Rightarrow> int \<times> 'x) \<Rightarrow> (goerror + 'n) option \<times> 'x
     \<Rightarrow> string \<times> (goerror + 'n) option \<times> 'x" where
  "NewLogID NewNode Generate UnixNano st =
     (case st of (once, x) \<Rightarrow>
      let node = (case once of None \<Rightarrow> NewNode snowflakeNodeID | Some n \<Rightarrow> n)
      in case node of
           Inl err \<Rightarrow> (case UnixNano x of (t, x) \<Rightarrow> (int_hex t, Some node, x))
         | Inr n \<Rightarrow> (case Generate n x of (i, x) \<Rightarrow> (int_hex i, Some node, x)))"

section \<open>Which file a line reaches\<close>

text \<open>
  What the library documents, \<open>view\<close> being the lines of every file: a write without an error
  appends the line; an entry has the level and the message it was made for; and when the level of the
  logger is at least as verbose as that of the entry and no hook fails, the hooks that list the
  level of the entry are fired, in the order they were added.
\<close>

fun level_number :: "log_level \<Rightarrow> nat" where
  "level_number PanicLevel = 0"
| "level_number FatalLevel = 1"
| "level_number ErrorLevel = 2"
| "level_number WarnLevel = 3"
| "level_number InfoLevel = 4"
| "level_number DebugLevel = 5"
| "level_number TraceLevel = 6"

definition logrus_laws :: "'f logrus \<Rightarrow> ('f \<Rightarrow> string \<Rightarrow> string list) \<Rightarrow> bool" where
  "logrus_laws L view \<longleftrightarrow>
     (\<forall>file line f. fst (lr_Write L file line f) = None \<longrightarrow>
        view (snd (lr_Write L file line f)) = (view f)(rl_Filename file := view f (rl_Filename file) @ [line])) \<and>
     (\<forall>rc level msg f. en_Level (lr_Entry L rc level msg f) = level \<and> en_Message (lr_Entry L rc level msg f) = msg) \<and>
     (\<forall>lvl hs e f. level_number (en_Level e) \<le> level_number lvl \<and>
          (\<forall>(ls, fire) \<in> set hs. \<forall>f. fst (fire e f) = None) \<longrightarrow>
        lr_Log L lvl hs e f = fold (\<lambda>(ls, fire) f. if en_Level e \<in> set ls then snd (fire e f) else f) hs f)"

definition writes_succeed :: "'f logrus \<Rightarrow> bool" where
  "writes_succeed L \<longleftrightarrow> (\<forall>file line f. fst (lr_Write L file line f) = None)"

text \<open>Files kept in memory obey these laws.\<close>

definition mem_logrus :: "(string \<Rightarrow> string list) logrus" where
  "mem_logrus = \<lparr>lr_LevelText = (\<lambda>_. ''info''),
     lr_Entry = (\<lambda>rc level msg f. \<lparr>en_Level = level, en_Time = ''now'', en_Caller = None, en_Message = msg, en_Buffer = None\<rparr>),
     lr_Write = (\<lambda>file line f. (None, f(rl_Filename file := f (rl_Filename file) @ [line]))),
     lr_Log = (\<lambda>lvl hs e f. if level_number (en_Level e) \<le> level_number lvl
        then fold (\<lambda>(ls, fire) f. if en_Level e \<in> set ls then snd (fire e f) else f) hs f else f)\<rparr>"

lemma mem_logrus_laws: "logrus_laws mem_logrus (\<lambda>f. f)" "writes_succeed mem_logrus"
  by (simp_all add: logrus_laws_def writes_succeed_def mem_logrus_def)

fun hook_file :: "log_hook \<Rightarrow> rotating_file" where
  "hook_file (AppHook file) = file"
| "hook_file (WarnHook file) = file"

lemma Fire_writes: "Fire L h e f = lr_Write L (hook_file h) (Format L e) f"
  by (cases h) simp_all

text \<open>The files after an entry: each hook that lists the level appends the line to its file.\<close>

definition appended :: "log_hook list \<Rightarrow> log_level \<Rightarrow> string \<Rightarrow> (string \<Rightarrow> string list) \<Rightarrow> string \<Rightarrow> string list" where
  "appended hooks level line v =
     fold (\<lambda>h v. if level \<in> set (Levels h) then v(rl_Filename (hook_file h) := v (rl_Filename (hook_file h)) @ [line]) else v)
       hooks v"

lemma log_at_view:
  assumes "logrus_laws L view" and "writes_succeed L"
    and "level_number level \<le> level_number (lo_Level lo)"
  shows "view (log_at L lo level msg f) =
    appended (lo_Hooks lo) level (Format L (lr_Entry L (lo_ReportCaller lo) level msg f)) (view f)"
proof -
  let ?e = "lr_Entry L (lo_ReportCaller lo) level msg f" and ?hooks = "lo_Hooks lo"
  have lvl: "en_Level ?e = level" using assms(1) by (simp add: logrus_laws_def)
  have w: "view (snd (Fire L h ?e g)) =
      (view g)(rl_Filename (hook_file h) := view g (rl_Filename (hook_file h)) @ [Format L ?e])" for h g
    using assms by (simp add: Fire_writes logrus_laws_def writes_succeed_def)
  have "\<forall>(ls, fire) \<in> set (map (\<lambda>h. (Levels h, Fire L h)) ?hooks). \<forall>g. fst (fire ?e g) = None"
    using assms(2) by (auto simp: Fire_writes writes_succeed_def)
  then have d: "log_at L lo level msg f =
      fold (\<lambda>(ls, fire) g. if level \<in> set ls then snd (fire ?e g) else g) (map (\<lambda>h. (Levels h, Fire L h)) ?hooks) f"
    using assms(1,3) lvl unfolding log_at_def logrus_laws_def by simp
  have "view (fold (\<lambda>(ls, fire) g. if level \<in> set ls then snd (fire ?e g) else g) (map (\<lambda>h. (Levels h, Fire L h)) hs) g)
      = appended hs level (Format L ?e) (view g)" for hs g
    by (induction hs arbitrary: g) (simp_all add: appended_def w)
  with d show ?thesis by simp
qed

lemma log_files_distinct [simp]:
  "appLogFile \<noteq> warnLogFile" "appLogFile \<noteq> httpLogFile" "appLogFile \<noteq> notifyLogFile"
  "warnLogFile \<noteq> httpLogFile" "warnLogFile \<noteq> notifyLogFile" "httpLogFile \<noteq> notifyLogFile"
  "warnLogFile \<noteq> appLogFile"
  by (simp_all add: appLogFile_def warnLogFile_def httpLogFile_def notifyLogFile_def log_file_def)

lemma log_init_sel [simp]:
  "lo_Hooks (lg_app (log_init None)) = [AppHook (rotatingLog appLogFile), WarnHook (rotatingLog warnLogFile)]"
  "lo_Hooks (lg_http (log_init None)) = [AppHook (rotatingLog httpLogFile)]"
  "lo_Hooks (lg_notify (log_init None)) = [AppHook (rotatingLog notifyLogFile)]"
  "lo_Hooks (lg_app (log_init (Some e))) = []" "lo_Hooks (lg_http (log_init (Some e))) = []"
  "lo_Hooks (lg_notify (log_init (Some e))) = []"
  "lo_Level (lg_app (log_init m)) = DebugLevel" "lo_Level (lg_http (log_init m)) = DebugLevel"
  "lo_Level (lg_notify (log_init m)) = DebugLevel"
  "lo_ReportCaller (lg_app (log_init m))" "lo_ReportCaller (lg_http (log_init m))"
  "lo_ReportCaller (lg_notify (log_init m))"
  by (simp_all add: log_init_def newDiscardLogger_def AddHook_def Let_def split: option.split)

lemma rotatingLog_file [simp]: "rl_Filename (rotatingLog name) = name"
  by (simp add: rotatingLog_def)

lemma Levels_app [simp]: "level \<in> set (Levels (AppHook file))"
  by (cases level) simp_all

text \<open>
  A line of the application's log is in its file, and in the file of warnings exactly when it is
  at least a warning; exchanges and notifications have a file of their own and are in no other.
\<close>

lemma log_lines_routed:
  assumes "logrus_laws L view" and "writes_succeed L" and "level \<noteq> TraceLevel"
  shows "view (log_at L (lg_app (log_init None)) level msg f) =
      (let line = Format L (lr_Entry L True level msg f);
           v = (view f)(appLogFile := view f appLogFile @ [line])
       in if level \<in> {WarnLevel, ErrorLevel, FatalLevel, PanicLevel}
          then v(warnLogFile := view f warnLogFile @ [line]) else v)"
    and "view (HttpInfo L (log_init None) msg f) =
      (view f)(httpLogFile := view f httpLogFile @ [Format L (lr_Entry L True InfoLevel msg f)])"
    and "view (NotifyInfo L (log_init None) msg f) =
      (view f)(notifyLogFile := view f notifyLogFile @ [Format L (lr_Entry L True InfoLevel msg f)])"
proof -
  have "level_number level \<le> 5" using assms(3) by (cases level) simp_all
  then show "view (log_at L (lg_app (log_init None)) level msg f) =
      (let line = Format L (lr_Entry L True level msg f);
           v = (view f)(appLogFile := view f appLogFile @ [line])
       in if level \<in> {WarnLevel, ErrorLevel, FatalLevel, PanicLevel}
          then v(warnLogFile := view f warnLogFile @ [line]) else v)"
    by (simp add: log_at_view [OF assms(1,2)] appended_def Let_def del: Levels.simps(1))
  show "view (HttpInfo L (log_init None) msg f) =
      (view f)(httpLogFile := view f httpLogFile @ [Format L (lr_Entry L True InfoLevel msg f)])"
    and "view (NotifyInfo L (log_init None) msg f) =
      (view f)(notifyLogFile := view f notifyLogFile @ [Format L (lr_Entry L True InfoLevel msg f)])"
    by (simp_all add: HttpInfo_def NotifyInfo_def log_at_view [OF assms(1,2)] appended_def Let_def del: Levels.simps(1))
qed

text \<open>Without the directory of the logs nothing is written.\<close>

lemma no_log_directory:
  assumes "logrus_laws L view" and "writes_succeed L" and "level \<noteq> TraceLevel"
  shows "view (log_at L (lg_app (log_init (Some e))) level msg f) = view f"
    and "view (HttpInfo L (log_init (Some e)) msg f) = view f"
  by (cases level) (use assms in \<open>simp_all add: HttpInfo_def log_at_view appended_def\<close>)

section \<open>Log ids tell runs apart\<close>

definition hex_value :: "string \<Rightarrow> nat" where
  "hex_value s = foldl (\<lambda>acc c. 16 * acc + the (hex_digit c)) 0 s"

lemma hex_digit_hex_lower: "k < 16 \<Longrightarrow> hex_digit (hex_lower k) = Some k"
  by (auto simp: hex_digit_def hex_lower_def digit_char_def Let_def)

lemma hex_value_nat_hex: "hex_value (nat_hex n) = n"
proof (induction n rule: nat_hex.induct)
  case (1 n)
  show ?case
  proof (cases "n < 16")
    case True
    then show ?thesis by (subst nat_hex.simps) (simp add: hex_value_def hex_digit_hex_lower)
  next
    case False
    with 1 show ?thesis by (subst nat_hex.simps) (simp add: hex_value_def hex_digit_hex_lower)
  qed
qed

lemma nat_hex_digits: "c \<in> set (nat_hex n) \<Longrightarrow> hex_digit c \<noteq> None"
proof (induction n rule: nat_hex.induct)
  case (1 n)
  show ?case
  proof (cases "n < 16")
    case True
    then have "nat_hex n = [hex_lower n]" by (simp add: nat_hex.simps [of n])
    with 1(2) hex_digit_hex_lower [OF True] show ?thesis by simp
  next
    case False
    then have n: "nat_hex n = nat_hex (n div 16) @ [hex_lower (n mod 16)]" by (simp add: nat_hex.simps [of n])
    have "hex_digit (hex_lower (n mod 16)) \<noteq> None" by (simp add: hex_digit_hex_lower)
    with n 1 False show ?thesis by auto
  qed
qed

lemma nat_hex_no_sign: "c \<in> set (nat_hex n) \<Longrightarrow> c \<noteq> CHR ''-''"
  using nat_hex_digits by (force simp: hex_digit_def Let_def)

lemma log_id_has_no_percent: "CHR 0x25 \<notin> set (int_hex i)"
proof -
  have "CHR 0x25 \<notin> set (nat_hex n)" for n
    using nat_hex_digits [of "CHR 0x25" n] by (auto simp: hex_digit_def Let_def)
  then show ?thesis by (simp add: int_hex_def)
qed

text \<open>Two log ids are the same text only if the generator gave the same number.\<close>

lemma int_hex_inject: "int_hex i = int_hex j \<longleftrightarrow> i = j"
proof
  assume eq: "int_hex i = int_hex j"
  have sign: "(\<exists>t. int_hex k = CHR ''-'' # t) \<longleftrightarrow> k < 0" for k
    using nat_hex_no_sign [of "CHR ''-''" "nat k"] by (auto simp: int_hex_def)
  then have "i < 0 \<longleftrightarrow> j < 0" using eq by metis
  moreover have "hex_value (nat_hex (nat k)) = nat k" for k by (rule hex_value_nat_hex)
  ultimately show "i = j"
    using eq by (metis int_hex_def hex_value_nat_hex list.inject neg_0_le_iff_le nat_eq_iff2 linear not_less neg_equal_iff_equal eq_nat_nat_iff)
qed simp

end
