(* ===== verification/HeaderTrippers.thy ===== *)
theory HeaderTrippers
  imports ApiCore
begin

text \<open>
  The two middlewares of \<open>pkg/apicore/tripper_headers.go\<close>, which the package offers and the
  program does not use: they fill in headers that the request does not have. Both write into
  the header map of the request, so with a nil request they panic (\<open>None\<close>) as soon as there is
  a header to write. A nil header map, which \<open>ensureHeaders\<close> replaces, reads as an empty one.
\<close>

definition ensureHeaders :: "request option \<Rightarrow> strmap option" where
  "ensureHeaders req = map_option rq_Headers req"

definition add_missing :: "string \<Rightarrow> string \<Rightarrow> strmap \<Rightarrow> strmap" where
  "add_missing key val headers = (if mhas headers key then headers else mset_key headers key val)"

fun fill_headers :: "strmap \<Rightarrow> strmap option \<Rightarrow> strmap option option" where
  "fill_headers [] headers = Some headers"
| "fill_headers ((key, val) # extra) headers =
     (case headers of
        None \<Rightarrow> None
      | Some h \<Rightarrow> fill_headers extra (Some (add_missing key val h)))"

text \<open>Handing the request on, with the headers it has now.\<close>

definition with_headers :: "request option \<Rightarrow> strmap option \<Rightarrow> request option" where
  "with_headers req headers =
     (case (req, headers) of (Some r, Some h) \<Rightarrow> Some (r\<lparr>rq_Headers := h\<rparr>) | _ \<Rightarrow> req)"

definition Headers ::
  "'w round_trip \<Rightarrow> logctx \<Rightarrow> request option \<Rightarrow> 'w \<Rightarrow> ((response option \<times> goerror option) \<times> request option \<times> 'w) option" where
  "Headers nxt ctx req w =
     (case fill_headers (HeadersFromContext ctx) (ensureHeaders req) of
        None \<Rightarrow> None
      | Some headers \<Rightarrow> Some (nxt ctx (with_headers req headers) w))"

definition Header ::
  "string \<Rightarrow> string \<Rightarrow> 'w round_trip \<Rightarrow> logctx \<Rightarrow> request option \<Rightarrow> 'w
     \<Rightarrow> ((response option \<times> goerror option) \<times> request option \<times> 'w) option" where
  "Header key val nxt ctx req w =
     (case fill_headers [(key, val)] (ensureHeaders req) of
        None \<Rightarrow> None
      | Some headers \<Rightarrow> Some (nxt ctx (with_headers req headers) w))"

section \<open>Headers are filled in, never replaced\<close>

lemma map_of_add_missing:
  "map_of (add_missing k v h) x = (case map_of h x of Some y \<Rightarrow> Some y | None \<Rightarrow> if x = k then Some v else None)"
  by (auto simp: add_missing_def mhas_def map_of_mset_key split: option.splits)

lemma fill_headers_some: "\<exists>h'. fill_headers extra (Some h) = Some (Some h')"
  by (induction extra arbitrary: h) auto

lemma map_of_fill_headers:
  "fill_headers extra (Some h) = Some (Some h') \<Longrightarrow>
     map_of h' x = (case map_of h x of Some y \<Rightarrow> Some y | None \<Rightarrow> map_of extra x)"
proof (induction extra arbitrary: h)
  case (Cons kv extra)
  obtain k v where kv: "kv = (k, v)" by (rule prod.exhaust)
  from Cons.prems kv have "fill_headers extra (Some (add_missing k v h)) = Some (Some h')" by simp
  from Cons.IH [OF this] kv show ?case by (auto simp: map_of_add_missing split: option.splits)
qed (simp split: option.split)

text \<open>
  A request goes on with every header it has unchanged, and with the headers of the context that
  it does not have; a nil request goes on unless the context has headers.
\<close>

lemma Headers_fills:
  "\<exists>h. Headers nxt ctx (Some r) w = Some (nxt ctx (Some (r\<lparr>rq_Headers := h\<rparr>)) w) \<and>
     (\<forall>x. map_of h x = (case map_of (rq_Headers r) x of Some y \<Rightarrow> Some y | None \<Rightarrow> map_of (HeadersFromContext ctx) x))"
proof -
  obtain h where h: "fill_headers (HeadersFromContext ctx) (Some (rq_Headers r)) = Some (Some h)"
    using fill_headers_some by blast
  with map_of_fill_headers [OF h] show ?thesis
    by (intro exI [of _ h]) (simp add: Headers_def ensureHeaders_def with_headers_def)
qed

lemma Headers_nil: "Headers nxt ctx None w = (if HeadersFromContext ctx = [] then Some (nxt ctx None w) else None)"
  by (cases "HeadersFromContext ctx") (auto simp: Headers_def ensureHeaders_def with_headers_def)

end
