(* ===== verification/Progress.thy ===== *)
theory Progress
  imports Prelude
begin

text \<open>
  Paths of a step relation, and the argument by which a system of interleaved steps is shown to
  be able to finish: while it is not finished, some step keeps the invariant and lowers a number.
  The step relations of the development that must be able to finish are interpretations.
\<close>

section \<open>Paths\<close>

lemma one_step_path: "r s s' \<Longrightarrow> r\<^sup>*\<^sup>* s s'"
  by (rule r_into_rtranclp)

text \<open>What every step keeps holds at the end of a path.\<close>

lemma path_keeps:
  assumes "r\<^sup>*\<^sup>* s s'" and "P s" and "\<And>a b. r a b \<Longrightarrow> P a \<Longrightarrow> P b"
  shows "P s'"
  using assms(1,2) by (induction rule: rtranclp_induct) (auto intro: assms(3))

section \<open>A system that can always finish\<close>

locale progress =
  fixes steps :: "'s \<Rightarrow> 's \<Rightarrow> bool"
    and invariant :: "'s \<Rightarrow> bool"
    and finished :: "'s \<Rightarrow> bool"
    and distance :: "'s \<Rightarrow> nat"
  assumes helpful: "invariant s \<Longrightarrow> \<not> finished s \<Longrightarrow>
    \<exists>s'. steps s s' \<and> invariant s' \<and> distance s' < distance s"
begin

text \<open>It finishes in no more steps than the distance.\<close>

lemma finishes_within:
  assumes "invariant s"
  shows "\<exists>n s'. n \<le> distance s \<and> (steps ^^ n) s s' \<and> invariant s' \<and> finished s'"
  using assms
proof (induction "distance s" arbitrary: s rule: less_induct)
  case less
  show ?case
  proof (cases "finished s")
    case True
    with less.prems show ?thesis by (intro exI [of _ 0]) auto
  next
    case False
    from helpful [OF less.prems False] obtain t where t: "steps s t" "invariant t" "distance t < distance s"
      by blast
    from less.hyps [OF t(3,2)] obtain n s' where n: "n \<le> distance t" "(steps ^^ n) t s'" "invariant s'" "finished s'"
      by blast
    from t(1) n(2) have "(steps ^^ Suc n) s s'" by (rule relpowp_Suc_I2)
    with n t(3) show ?thesis by (intro exI [of _ "Suc n"] exI [of _ s']) auto
  qed
qed

lemma can_finish: "invariant s \<Longrightarrow> \<exists>s'. steps\<^sup>*\<^sup>* s s' \<and> invariant s' \<and> finished s'"
  using finishes_within by (meson relpowp_imp_rtranclp)

end

end
