(* ===== verification/Shutdown.thy ===== *)
theory Shutdown
  imports App Progress
begin

text \<open>
  The whole process under any interleaving: the goroutine of \<open>main.go\<close>, which runs once or starts
  the timer and then closes everything (\<open>execute\<close>, and \<open>RunOnce\<close>, \<open>Start\<close>, \<open>Close\<close> of
  \<open>internal/app/app.go\<close>), the jobs that the timer starts (\<open>runWithDelay\<close>), the runs inside them, and
  the notifications and requests of those runs. The parts keep their own state and operations
  (Runtime, Scheduler, Notify, TlsClient); each rule here lets one goroutine make one of their
  atomic steps. What a run uses is open while it runs, and the process can always end.
\<close>

section \<open>States\<close>

text \<open>
  A job of the timer waits for its delay or is inside \<open>TryRun\<close>. The main goroutine is before its
  run (\<open>True\<close> for the local run), in \<open>RunOnce\<close>, waiting in \<open>Start\<close>, or at one of the calls of \<open>Close\<close>.
\<close>

datatype job_point = JobWaiting | JobTrying

datatype main_point =
    MainReady bool
  | MainRunOnce
  | MainServing
  | CloseRuntime
  | CloseScheduler
  | CloseSchedulerWait
  | CloseNotify
  | CloseNotifyWait
  | CloseTransport
  | CloseTransportWait
  | CloseStorage
  | MainDone

text \<open>
  The callers of the runtime are numbered: \<open>RunOnce\<close> is 0, \<open>Stop\<close> is 1, a job has a number from 2
  on. \<open>pr_notifying\<close> has the callers whose run is inside \<open>Notify\<close>, \<open>pr_exchanges\<close> one entry for each
  request that a run has in flight.
\<close>

record ('svc, 'k, 'c, 'x) process =
  pr_runtime :: "'svc runtime"
  pr_scheduler :: "'k scheduler"
  pr_manager :: "('c, 'x) manager"
  pr_tls :: "'c tls_client"
  pr_ext :: 'x
  pr_store_open :: bool
  pr_main :: main_point
  pr_jobs :: "(nat \<times> job_point) list"
  pr_notifying :: "nat list"
  pr_exchanges :: "nat list"

text \<open>A step of the runtime's rules that caller \<open>i\<close> makes.\<close>

definition caller_step :: "nat \<Rightarrow> 'svc runtime \<Rightarrow> 'svc runtime \<Rightarrow> bool" where
  "caller_step i r r' \<longleftrightarrow>
     runtime_step r r' \<and> rt_at r' i \<noteq> rt_at r i \<and> (\<forall>j. j \<noteq> i \<longrightarrow> rt_at r' j = rt_at r j)"

text \<open>The goroutines that are inside \<open>TryRun\<close>.\<close>

definition in_TryRun :: "('svc, 'k, 'c, 'x) process \<Rightarrow> nat \<Rightarrow> bool" where
  "in_TryRun s i \<longleftrightarrow> (i = 0 \<and> pr_main s = MainRunOnce) \<or> (i, JobTrying) \<in> set (pr_jobs s)"

section \<open>Steps\<close>

text \<open>
  A run returns only when its notification and its requests have returned. The context of a
  waiting job may be done at any moment, by a signal or by \<open>Stop\<close>.
\<close>

inductive process_step ::
  "'k cron_ops \<Rightarrow> (client_config \<Rightarrow> 'x \<Rightarrow> (goerror + 'c) \<times> 'x) \<Rightarrow> ('svc, 'k, 'c, 'x) process
     \<Rightarrow> ('svc, 'k, 'c, 'x) process \<Rightarrow> bool" for C f where
  once: "pr_main s = MainReady True \<Longrightarrow> process_step C f s (s\<lparr>pr_main := MainRunOnce\<rparr>)"
| once_back: "pr_main s = MainRunOnce \<Longrightarrow> rt_at (pr_runtime s) 0 = TryReturned res \<Longrightarrow>
     process_step C f s (s\<lparr>pr_main := CloseRuntime\<rparr>)"
| serve: "pr_main s = MainReady False \<Longrightarrow> Start C (pr_scheduler s) = (None, sched) \<Longrightarrow>
     process_step C f s (s\<lparr>pr_scheduler := sched, pr_main := MainServing\<rparr>)"
| serve_failed: "pr_main s = MainReady False \<Longrightarrow> Start C (pr_scheduler s) = (Some err, sched) \<Longrightarrow>
     process_step C f s (s\<lparr>pr_scheduler := sched, pr_main := CloseRuntime\<rparr>)"
| signal: "pr_main s = MainServing \<Longrightarrow> process_step C f s (s\<lparr>pr_main := CloseRuntime\<rparr>)"
| job_fires: "cr_fires C (sch_cron (pr_scheduler s)) \<Longrightarrow> 2 \<le> i \<Longrightarrow> i \<notin> fst ` set (pr_jobs s) \<Longrightarrow>
     rt_at (pr_runtime s) i = TryIdle \<Longrightarrow>
     process_step C f s (s\<lparr>pr_scheduler := (pr_scheduler s)\<lparr>sch_jobs := sch_jobs (pr_scheduler s) + 1\<rparr>,
       pr_jobs := (i, JobWaiting) # pr_jobs s\<rparr>)"
| job_skips: "pr_jobs s = xs @ (i, JobWaiting) # ys \<Longrightarrow>
     process_step C f s (s\<lparr>pr_scheduler := (pr_scheduler s)\<lparr>sch_jobs := sch_jobs (pr_scheduler s) - 1\<rparr>,
       pr_jobs := xs @ ys\<rparr>)"
| job_tries: "pr_jobs s = xs @ (i, JobWaiting) # ys \<Longrightarrow>
     process_step C f s (s\<lparr>pr_jobs := xs @ (i, JobTrying) # ys\<rparr>)"
| job_ends: "pr_jobs s = xs @ (i, JobTrying) # ys \<Longrightarrow> rt_at (pr_runtime s) i = TryReturned res \<Longrightarrow>
     process_step C f s (s\<lparr>pr_scheduler := (pr_scheduler s)\<lparr>sch_jobs := sch_jobs (pr_scheduler s) - 1\<rparr>,
       pr_jobs := xs @ ys\<rparr>)"
| tries: "in_TryRun s i \<Longrightarrow> i \<notin> set (pr_notifying s) \<Longrightarrow> i \<notin> set (pr_exchanges s) \<Longrightarrow>
     caller_step i (pr_runtime s) r \<Longrightarrow> process_step C f s (s\<lparr>pr_runtime := r\<rparr>)"
| notify_in: "rt_at (pr_runtime s) i = TryRunning \<Longrightarrow> i \<notin> set (pr_notifying s) \<Longrightarrow>
     notify_enter (pr_manager s) = Some m \<Longrightarrow>
     process_step C f s (s\<lparr>pr_manager := m, pr_notifying := i # pr_notifying s\<rparr>)"
| notify_out: "i \<in> set (pr_notifying s) \<Longrightarrow> i \<notin> set (pr_exchanges s) \<Longrightarrow>
     process_step C f s (s\<lparr>pr_manager := notify_leave (pr_manager s), pr_notifying := remove1 i (pr_notifying s)\<rparr>)"
| exchange_in: "rt_at (pr_runtime s) i = TryRunning \<Longrightarrow>
     acquire f req ua (pr_tls s, pr_ext s) = (Inr client, c, x) \<Longrightarrow>
     process_step C f s (s\<lparr>pr_tls := c, pr_ext := x, pr_exchanges := i # pr_exchanges s\<rparr>)"
| exchange_refused: "rt_at (pr_runtime s) i = TryRunning \<Longrightarrow>
     acquire f req ua (pr_tls s, pr_ext s) = (Inl err, c, x) \<Longrightarrow>
     process_step C f s (s\<lparr>pr_tls := c, pr_ext := x\<rparr>)"
| exchange_out: "i \<in> set (pr_exchanges s) \<Longrightarrow>
     process_step C f s (s\<lparr>pr_tls := release (pr_tls s), pr_exchanges := remove1 i (pr_exchanges s)\<rparr>)"
| stop_runtime: "pr_main s = CloseRuntime \<Longrightarrow> caller_step 1 (pr_runtime s) r \<Longrightarrow>
     process_step C f s (s\<lparr>pr_runtime := r\<rparr>)"
| runtime_stopped: "pr_main s = CloseRuntime \<Longrightarrow> rt_at (pr_runtime s) 1 = StopReturned \<Longrightarrow>
     process_step C f s (s\<lparr>pr_main := CloseScheduler\<rparr>)"
| stop_scheduler: "pr_main s = CloseScheduler \<Longrightarrow>
     process_step C f s (s\<lparr>pr_scheduler := stop_begin C (pr_scheduler s), pr_main := CloseSchedulerWait\<rparr>)"
| scheduler_stopped: "pr_main s = CloseSchedulerWait \<Longrightarrow> sch_jobs (pr_scheduler s) = 0 \<Longrightarrow>
     process_step C f s (s\<lparr>pr_scheduler := stop_end (pr_scheduler s), pr_main := CloseNotify\<rparr>)"
| close_notify: "pr_main s = CloseNotify \<Longrightarrow>
     process_step C f s (s\<lparr>pr_manager := close_mark (pr_manager s), pr_main := CloseNotifyWait\<rparr>)"
| notify_closed: "pr_main s = CloseNotifyWait \<Longrightarrow> mg_active (pr_manager s) = 0 \<Longrightarrow>
     process_step C f s (s\<lparr>pr_main := CloseTransport\<rparr>)"
| close_transport: "pr_main s = CloseTransport \<Longrightarrow>
     process_step C f s (s\<lparr>pr_tls := close_begin (pr_tls s), pr_main := CloseTransportWait\<rparr>)"
| transport_closed: "pr_main s = CloseTransportWait \<Longrightarrow> tc_inflight (pr_tls s) = 0 \<Longrightarrow>
     process_step C f s (s\<lparr>pr_tls := close_finish (pr_tls s), pr_main := CloseStorage\<rparr>)"
| close_storage: "pr_main s = CloseStorage \<Longrightarrow>
     process_step C f s (s\<lparr>pr_store_open := False, pr_main := MainDone\<rparr>)"

text \<open>The process as \<open>New\<close> makes it: a published service, and nobody has called yet.\<close>

definition process_init :: "'k cron_ops \<Rightarrow> ('svc, 'k, 'c, 'x) process \<Rightarrow> bool" where
  "process_init C s \<longleftrightarrow>
     (\<exists>svc. pr_runtime s = Publish svc (new_runtime\<lparr>rt_at := (\<lambda>_. TryIdle)(1 := StopIdle)\<rparr>)) \<and>
     (\<exists>parse cfg c. scheduler_New parse cfg c = Inr (pr_scheduler s) \<and> \<not> cr_fires C c) \<and>
     \<not> mg_closing (pr_manager s) \<and> mg_active (pr_manager s) = 0 \<and> pr_tls s = newTLSClient \<and> pr_store_open s \<and>
     (\<exists>local. pr_main s = MainReady local) \<and> pr_jobs s = [] \<and> pr_notifying s = [] \<and> pr_exchanges s = []"

definition process_reach ::
  "'k cron_ops \<Rightarrow> (client_config \<Rightarrow> 'x \<Rightarrow> (goerror + 'c) \<times> 'x) \<Rightarrow> ('svc, 'k, 'c, 'x) process \<Rightarrow> bool" where
  "process_reach C f s \<longleftrightarrow> (\<exists>s0. process_init C s0 \<and> (process_step C f)\<^sup>*\<^sup>* s0 s)"

section \<open>The invariant\<close>

fun stage :: "main_point \<Rightarrow> nat" where
  "stage (MainReady local) = 0"
| "stage MainRunOnce = 1"
| "stage MainServing = 1"
| "stage CloseRuntime = 2"
| "stage CloseScheduler = 3"
| "stage CloseSchedulerWait = 4"
| "stage CloseNotify = 5"
| "stage CloseNotifyWait = 6"
| "stage CloseTransport = 7"
| "stage CloseTransportWait = 8"
| "stage CloseStorage = 9"
| "stage MainDone = 10"

fun is_stop :: "run_point \<Rightarrow> bool" where
  "is_stop StopIdle = True"
| "is_stop StopMarked = True"
| "is_stop StopCancelled = True"
| "is_stop StopLocked = True"
| "is_stop StopReturned = True"
| "is_stop _ = False"

fun at_rest :: "run_point \<Rightarrow> bool" where
  "at_rest TryIdle = True"
| "at_rest (TryReturned res) = True"
| "at_rest _ = False"

text \<open>The runtime: 1 is its one caller of \<open>Stop\<close>, and whoever is on the way is inside \<open>TryRun\<close>.\<close>

definition calls_inv :: "('svc, 'k, 'c, 'x) process \<Rightarrow> bool" where
  "calls_inv s \<longleftrightarrow> runtime_inv (pr_runtime s) \<and>
     (\<forall>i. is_stop (rt_at (pr_runtime s) i) \<longleftrightarrow> i = 1) \<and>
     (\<forall>i. i \<noteq> 1 \<longrightarrow> \<not> at_rest (rt_at (pr_runtime s) i) \<longrightarrow> in_TryRun s i) \<and>
     (2 < stage (pr_main s) \<longrightarrow> rt_at (pr_runtime s) 1 = StopReturned)"

text \<open>The scheduler counts the jobs, and it is the main goroutine that stops it.\<close>

definition jobs_inv :: "'k cron_ops \<Rightarrow> ('svc, 'k, 'c, 'x) process \<Rightarrow> bool" where
  "jobs_inv C s \<longleftrightarrow> scheduler_inv C (pr_scheduler s) \<and>
     distinct (map fst (pr_jobs s)) \<and> (\<forall>(i, p) \<in> set (pr_jobs s). 2 \<le> i) \<and>
     sch_jobs (pr_scheduler s) = length (pr_jobs s) \<and>
     (sch_stopping (pr_scheduler s) \<longleftrightarrow> 3 < stage (pr_main s)) \<and>
     (sch_done (pr_scheduler s) \<longleftrightarrow> 4 < stage (pr_main s))"

text \<open>The wait groups count what is in progress, and only a run has something in progress.\<close>

definition uses_inv :: "('svc, 'k, 'c, 'x) process \<Rightarrow> bool" where
  "uses_inv s \<longleftrightarrow> mg_active (pr_manager s) = length (pr_notifying s) \<and>
     tc_inflight (pr_tls s) = length (pr_exchanges s) \<and>
     (\<forall>i \<in> set (pr_notifying s) \<union> set (pr_exchanges s). rt_at (pr_runtime s) i = TryRunning)"

text \<open>What is closed was closed by the main goroutine, and what it has passed is closed.\<close>

definition closing_inv :: "('svc, 'k, 'c, 'x) process \<Rightarrow> bool" where
  "closing_inv s \<longleftrightarrow> (mg_closing (pr_manager s) \<longleftrightarrow> 5 < stage (pr_main s)) \<and>
     (tc_closed (pr_tls s) \<longleftrightarrow> 7 < stage (pr_main s)) \<and> (pr_store_open s \<longleftrightarrow> stage (pr_main s) \<le> 9)"

definition process_inv :: "'k cron_ops \<Rightarrow> ('svc, 'k, 'c, 'x) process \<Rightarrow> bool" where
  "process_inv C s \<longleftrightarrow> calls_inv s \<and> jobs_inv C s \<and> uses_inv s \<and> closing_inv s"

lemma runtime_step_is_stop: "runtime_step r r' \<Longrightarrow> is_stop (rt_at r' j) = is_stop (rt_at r j)"
  by (erule runtime_stepE) auto

lemma caller_step_is_stop: "caller_step i r r' \<Longrightarrow> is_stop (rt_at r' j) = is_stop (rt_at r j)"
  by (auto simp: caller_step_def dest: runtime_step_is_stop)

lemma caller_step_other: "caller_step i r r' \<Longrightarrow> j \<noteq> i \<Longrightarrow> rt_at r' j = rt_at r j"
  by (simp add: caller_step_def)

lemma caller_step_inv: "caller_step i r r' \<Longrightarrow> runtime_inv r \<Longrightarrow> runtime_inv r'"
  by (auto simp: caller_step_def intro: runtime_step_inv)

lemma caller_step_returned: "caller_step i r r' \<Longrightarrow> rt_at r i = StopReturned \<Longrightarrow> False"
  by (auto simp: caller_step_def dest: returned_stays)

lemma in_TryRun_main [simp]:
  "in_TryRun (s\<lparr>pr_runtime := r\<rparr>) i = in_TryRun s i" "in_TryRun (s\<lparr>pr_manager := m\<rparr>) i = in_TryRun s i"
  "in_TryRun (s\<lparr>pr_tls := c\<rparr>) i = in_TryRun s i" "in_TryRun (s\<lparr>pr_ext := x\<rparr>) i = in_TryRun s i"
  "in_TryRun (s\<lparr>pr_scheduler := sch\<rparr>) i = in_TryRun s i" "in_TryRun (s\<lparr>pr_store_open := b\<rparr>) i = in_TryRun s i"
  "in_TryRun (s\<lparr>pr_notifying := ns\<rparr>) i = in_TryRun s i" "in_TryRun (s\<lparr>pr_exchanges := es\<rparr>) i = in_TryRun s i"
  by (simp_all add: in_TryRun_def)

lemma calls_stage: "calls_inv s \<Longrightarrow> 2 < stage (pr_main s) \<Longrightarrow> rt_at (pr_runtime s) 1 = StopReturned"
  by (simp add: calls_inv_def)

lemma calls_on_the_way: "calls_inv s \<Longrightarrow> i \<noteq> 1 \<Longrightarrow> \<not> at_rest (rt_at (pr_runtime s) i) \<Longrightarrow> in_TryRun s i"
  by (simp add: calls_inv_def)

text \<open>Where the runtime stays, it is enough that nobody on the way leaves \<open>TryRun\<close>.\<close>

lemma calls_inv_frame:
  assumes "calls_inv s" and "pr_runtime s' = pr_runtime s"
    and "\<And>i. in_TryRun s i \<Longrightarrow> \<not> at_rest (rt_at (pr_runtime s) i) \<Longrightarrow> in_TryRun s' i"
    and "2 < stage (pr_main s') \<Longrightarrow> rt_at (pr_runtime s) 1 = StopReturned"
  shows "calls_inv s'"
  using assms(1,4) assms(3) [OF calls_on_the_way [OF assms(1)]] unfolding calls_inv_def assms(2) by blast

lemma calls_inv_caller:
  assumes "calls_inv s" and "caller_step i (pr_runtime s) r" and "in_TryRun s i \<or> i = 1"
    and "i = 1 \<Longrightarrow> stage (pr_main s) \<le> 2" and "in_TryRun s i \<Longrightarrow> i \<noteq> 1"
  shows "calls_inv (s\<lparr>pr_runtime := r\<rparr>)"
proof -
  note other = caller_step_other [OF assms(2)]
  have "in_TryRun s j" if "j \<noteq> 1" "\<not> at_rest (rt_at r j)" for j
    using that assms(3) other [of j] calls_on_the_way [OF assms(1), of j] by (cases "j = i") auto
  moreover have "rt_at r 1 = StopReturned" if "2 < stage (pr_main s)"
    using that assms(3,4) other [of 1] calls_stage [OF assms(1) that] assms(5) by (cases "i = 1") auto
  ultimately show ?thesis
    using assms(1) caller_step_inv [OF assms(2)] by (simp add: calls_inv_def caller_step_is_stop [OF assms(2)])
qed

lemma calls_inv_step:
  assumes "process_step C f s s'" and "calls_inv s" and "jobs_inv C s"
  shows "calls_inv s'"
  using assms(1)
proof cases
  case (tries i r)
  have "in_TryRun s i \<Longrightarrow> i \<noteq> 1" using assms(3) by (auto simp: in_TryRun_def jobs_inv_def)
  with calls_inv_caller [OF assms(2) tries(5)] tries show ?thesis by blast
next
  case (stop_runtime r)
  have "in_TryRun s 1 \<Longrightarrow> False" using assms(3) by (auto simp: in_TryRun_def jobs_inv_def)
  with calls_inv_caller [OF assms(2) stop_runtime(3)] stop_runtime show ?thesis by auto
qed (use calls_stage [OF assms(2)] in \<open>auto simp: in_TryRun_def intro!: calls_inv_frame [OF assms(2)]\<close>)

lemma jobs_inv_step:
  assumes "cron_laws C" and "process_step C f s s'" and "jobs_inv C s"
  shows "jobs_inv C s'"
proof -
  note sched = scheduler_step_inv [OF assms(1) _ , of "pr_scheduler s"]
  have inv: "scheduler_inv C (pr_scheduler s)" using assms(3) by (simp add: jobs_inv_def)
  from assms(2) show ?thesis
  proof cases
    case (serve sched)
    from Start_inv [OF assms(1) inv serve(3)] serve assms(3) show ?thesis
      by (auto simp: jobs_inv_def Start_def Let_def split: if_splits sum.splits)
  next
    case (serve_failed err sched)
    from Start_inv [OF assms(1) inv serve_failed(3)] serve_failed assms(3) show ?thesis
      by (auto simp: jobs_inv_def Start_def Let_def split: if_splits sum.splits)
  next
    case (job_fires i)
    from sched [OF scheduler_step.fire [OF job_fires(2)] inv] job_fires assms(3) show ?thesis
      by (auto simp: jobs_inv_def)
  next
    case (job_skips xs i ys)
    have "0 < sch_jobs (pr_scheduler s)" using job_skips assms(3) by (simp add: jobs_inv_def)
    from sched [OF scheduler_step.job_end [OF this] inv] job_skips assms(3) show ?thesis
      by (auto simp: jobs_inv_def)
  next
    case (job_ends xs i ys res)
    have "0 < sch_jobs (pr_scheduler s)" using job_ends assms(3) by (simp add: jobs_inv_def)
    from sched [OF scheduler_step.job_end [OF this] inv] job_ends assms(3) show ?thesis
      by (auto simp: jobs_inv_def)
  next
    case stop_scheduler
    have "\<not> sch_stopping (pr_scheduler s)" using stop_scheduler assms(3) by (auto simp: jobs_inv_def)
    from sched [OF scheduler_step.stop_first [OF this] inv] stop_scheduler assms(3) show ?thesis
      by (auto simp: jobs_inv_def stop_begin_def)
  next
    case scheduler_stopped
    have "sch_stopping (pr_scheduler s)" "\<not> sch_done (pr_scheduler s)"
      using scheduler_stopped assms(3) by (auto simp: jobs_inv_def)
    from sched [OF scheduler_step.stop_second [OF this scheduler_stopped(3)] inv] scheduler_stopped assms(3)
    show ?thesis by (auto simp: jobs_inv_def stop_end_def)
  qed (use assms(3) in \<open>auto simp: jobs_inv_def\<close>)
qed

lemma notify_enter_sel:
  "notify_enter m = Some m' \<Longrightarrow> mg_active m' = mg_active m + 1 \<and> mg_closing m' = mg_closing m"
  by (auto simp: notify_enter_def split: if_splits)

lemma uses_inv_frame:
  assumes "uses_inv s" and "pr_runtime s' = pr_runtime s"
    and "set (pr_notifying s') \<union> set (pr_exchanges s') \<subseteq> set (pr_notifying s) \<union> set (pr_exchanges s) \<union>
      {i. rt_at (pr_runtime s) i = TryRunning}"
    and "mg_active (pr_manager s') = length (pr_notifying s')"
    and "tc_inflight (pr_tls s') = length (pr_exchanges s')"
  shows "uses_inv s'"
  using assms unfolding uses_inv_def by auto

lemma uses_inv_caller:
  assumes "uses_inv s" and "caller_step i (pr_runtime s) r"
    and "i \<notin> set (pr_notifying s)" and "i \<notin> set (pr_exchanges s)"
  shows "uses_inv (s\<lparr>pr_runtime := r\<rparr>)"
proof -
  have "rt_at r j = TryRunning" if j: "j \<in> set (pr_notifying s) \<union> set (pr_exchanges s)" for j
  proof -
    have "j \<noteq> i" using j assms(3,4) by auto
    from caller_step_other [OF assms(2) this] j assms(1) show ?thesis by (simp add: uses_inv_def)
  qed
  with assms(1) show ?thesis by (simp add: uses_inv_def)
qed

lemma uses_count: "uses_inv s \<Longrightarrow> mg_active (pr_manager s) = length (pr_notifying s)"
    "uses_inv s \<Longrightarrow> tc_inflight (pr_tls s) = length (pr_exchanges s)"
  by (simp_all add: uses_inv_def)

lemma uses_inv_step:
  assumes "process_step C f s s'" and "uses_inv s" and "calls_inv s"
  shows "uses_inv s'"
  using assms(1)
proof cases
  case (tries i r)
  with uses_inv_caller [OF assms(2)] show ?thesis by blast
next
  case (stop_runtime r)
  have "is_stop (rt_at (pr_runtime s) 1)" using assms(3) by (simp add: calls_inv_def)
  then have "1 \<notin> set (pr_notifying s)" "1 \<notin> set (pr_exchanges s)"
    using assms(2) by (auto simp: uses_inv_def)
  with uses_inv_caller [OF assms(2) stop_runtime(3)] stop_runtime show ?thesis by blast
next
  case (exchange_in i req ua client c x)
  with acquire_inflight [OF exchange_in(3)] show ?thesis
    by (intro uses_inv_frame [OF assms(2)]) (auto simp: uses_count [OF assms(2)])
next
  case (exchange_refused i req ua err c x)
  with acquire_inflight [OF exchange_refused(3)] show ?thesis
    by (intro uses_inv_frame [OF assms(2)]) (auto simp: uses_count [OF assms(2)])
qed (auto simp: uses_count [OF assms(2)] length_remove1 notify_leave_def release_def close_mark_def close_begin_def
    close_finish_def dest!: notify_enter_sel dest: notin_set_remove1 set_mp [OF set_remove1_subset]
    intro!: uses_inv_frame [OF assms(2)])

lemma closing_inv_step:
  assumes "process_step C f s s'" and "closing_inv s"
  shows "closing_inv s'"
  using assms(1)
proof cases
  case (exchange_in i req ua client c x)
  with acquire_inflight [OF exchange_in(3)] assms(2) show ?thesis by (simp add: closing_inv_def)
next
  case (exchange_refused i req ua err c x)
  with acquire_inflight [OF exchange_refused(3)] assms(2) show ?thesis by (simp add: closing_inv_def)
qed (use assms(2) in \<open>auto simp: closing_inv_def notify_leave_def release_def close_mark_def close_begin_def
    close_finish_def dest!: notify_enter_sel\<close>)

lemma process_step_inv:
  assumes "cron_laws C" and "process_step C f s s'" and "process_inv C s"
  shows "process_inv C s'"
  using assms calls_inv_step [OF assms(2)] jobs_inv_step [OF assms(1,2)] uses_inv_step [OF assms(2)]
    closing_inv_step [OF assms(2)]
  by (simp add: process_inv_def)

lemma new_scheduler:
  "scheduler_New parse cfg c = Inr sch \<Longrightarrow> \<not> cr_fires C c \<Longrightarrow>
     scheduler_inv C sch \<and> sch_jobs sch = 0 \<and> \<not> sch_stopping sch \<and> \<not> sch_done sch"
  by (auto simp: scheduler_New_def scheduler_inv_def split: option.splits)

lemma process_init_inv:
  assumes "process_init C s"
  shows "process_inv C s"
proof -
  let ?r0 = "new_runtime\<lparr>rt_at := (\<lambda>_. TryIdle)(1 := StopIdle)\<rparr>"
  obtain svc local where r: "pr_runtime s = Publish svc ?r0" and m: "pr_main s = MainReady local"
    using assms by (auto simp: process_init_def)
  have "runtime_init ?r0" by (simp add: runtime_init_def new_runtime_def)
  then have "runtime_inv (pr_runtime s)"
    unfolding r by (intro runtime_step_inv [OF publish] runtime_init_inv)
  then have "calls_inv s" using m by (simp add: calls_inv_def r)
  moreover have "jobs_inv C s"
    using assms m by (auto simp: jobs_inv_def process_init_def dest: new_scheduler)
  moreover have "uses_inv s" "closing_inv s"
    using assms by (auto simp: uses_inv_def closing_inv_def process_init_def newTLSClient_def)
  ultimately show ?thesis by (simp add: process_inv_def)
qed

lemma process_reach_inv:
  assumes "cron_laws C" and "process_reach C f s"
  shows "process_inv C s"
proof -
  obtain s0 where s0: "process_init C s0" "(process_step C f)\<^sup>*\<^sup>* s0 s"
    using assms(2) by (auto simp: process_reach_def)
  show ?thesis
    using path_keeps [OF s0(2), of "process_inv C"] process_init_inv [OF s0(1)] process_step_inv [OF assms(1)]
    by blast
qed

section \<open>The process can always end\<close>

fun point_distance :: "run_point \<Rightarrow> nat" where
  "point_distance TryIdle = 5"
| "point_distance TryPassedFlag = 4"
| "point_distance TryPassedContexts = 3"
| "point_distance TryLocked = 2"
| "point_distance TryRunning = 1"
| "point_distance (TryReturned res) = 0"
| "point_distance StopIdle = 4"
| "point_distance StopMarked = 3"
| "point_distance StopCancelled = 2"
| "point_distance StopLocked = 1"
| "point_distance StopReturned = 0"

fun job_distance :: "job_point \<Rightarrow> nat" where
  "job_distance JobWaiting = 2"
| "job_distance JobTrying = 1"

text \<open>How many steps are left, when no job fires any more.\<close>

definition process_distance :: "('svc, 'k, 'c, 'x) process \<Rightarrow> nat" where
  "process_distance s =
     (10 - stage (pr_main s)) + point_distance (rt_at (pr_runtime s) 0) + point_distance (rt_at (pr_runtime s) 1) +
     sum_list (map (\<lambda>(i, p). job_distance p + point_distance (rt_at (pr_runtime s) i)) (pr_jobs s)) +
     length (pr_notifying s) + length (pr_exchanges s)"

text \<open>Inside \<open>TryRun\<close> there is always a next step.\<close>

lemma caller_go:
  assumes "runtime_step r r'" and "rt_at r' = (rt_at r)(i := p)" and "p \<noteq> rt_at r i"
  shows "caller_step i r r'"
  using assms by (simp add: caller_step_def)

lemma caller_advances:
  assumes "runtime_step r r'" and "rt_at r' = (rt_at r)(i := p)" and "point_distance p < point_distance (rt_at r i)"
  shows "\<exists>r'. caller_step i r r' \<and> point_distance (rt_at r' i) < point_distance (rt_at r i)"
proof -
  have "p \<noteq> rt_at r i" using assms(3) by auto
  from caller_go [OF assms(1,2) this] assms show ?thesis by (intro exI [of _ r']) simp
qed

lemma try_advances:
  assumes "\<not> is_stop (rt_at r i)" and "\<And>res. rt_at r i \<noteq> TryReturned res"
  shows "\<exists>r'. caller_step i r r' \<and> point_distance (rt_at r' i) < point_distance (rt_at r i)"
proof (cases "rt_at r i")
  case TryIdle
  show ?thesis
  proof (cases "rt_stopped r")
    case True
    from caller_advances [OF flag_stopped [OF TryIdle True]] TryIdle show ?thesis by fastforce
  next
    case False
    from caller_advances [OF flag_clear [OF TryIdle False]] TryIdle show ?thesis by fastforce
  qed
next
  case TryPassedFlag
  from caller_advances [OF context_done [OF TryPassedFlag, of ctx_canceled]] TryPassedFlag show ?thesis by fastforce
next
  case TryPassedContexts
  show ?thesis
  proof (cases "rt_lock r = None")
    case True
    from caller_advances [OF locked [OF TryPassedContexts True]] TryPassedContexts show ?thesis by fastforce
  next
    case False
    from caller_advances [OF busy [OF TryPassedContexts False]] TryPassedContexts show ?thesis by fastforce
  qed
next
  case TryLocked
  show ?thesis
  proof (cases "rt_stopped r")
    case True
    from caller_advances [OF late_stop [OF TryLocked True]] TryLocked show ?thesis by fastforce
  next
    case False
    show ?thesis
    proof (cases "rt_service r")
      case None
      from caller_advances [OF unpublished [OF TryLocked False None]] TryLocked show ?thesis by fastforce
    next
      case (Some svc)
      from caller_advances [OF runtime_step.run [OF TryLocked False Some]] TryLocked show ?thesis by fastforce
    qed
  qed
next
  case TryRunning
  from caller_advances [OF finish [OF TryRunning, of None]] TryRunning show ?thesis by fastforce
qed (use assms in auto)

text \<open>A call of \<open>Stop\<close> has a next step unless it waits for the lock.\<close>

lemma stop_advances:
  assumes "is_stop (rt_at r i)" and "rt_at r i \<noteq> StopReturned" and "rt_at r i = StopCancelled \<Longrightarrow> rt_lock r = None"
  shows "\<exists>r'. caller_step i r r' \<and> point_distance (rt_at r' i) < point_distance (rt_at r i)"
proof (cases "rt_at r i")
  case StopIdle
  show ?thesis
  proof (cases "rt_stopped r")
    case True
    from caller_advances [OF stop_again [OF StopIdle True]] StopIdle show ?thesis by fastforce
  next
    case False
    from caller_advances [OF runtime_step.stop_first [OF StopIdle False]] StopIdle show ?thesis by fastforce
  qed
next
  case StopMarked
  from caller_advances [OF stop_cancel [OF StopMarked]] StopMarked show ?thesis by fastforce
next
  case StopCancelled
  from caller_advances [OF stop_lock [OF StopCancelled assms(3) [OF StopCancelled]]] StopCancelled show ?thesis
    by fastforce
next
  case StopLocked
  from caller_advances [OF stop_return [OF StopLocked]] StopLocked show ?thesis by fastforce
qed (use assms in auto)

lemma jobs_distance_less:
  assumes "(i, p) \<in> set jobs" and "\<And>j. g j \<le> h j" and "(g i :: nat) < h i"
  shows "(\<Sum>(j, q) \<leftarrow> jobs. job_distance q + g j) < (\<Sum>(j, q) \<leftarrow> jobs. job_distance q + h j)"
  using assms(1)
proof (induction jobs)
  case (Cons a jobs)
  have le: "(\<Sum>(j, q) \<leftarrow> js. job_distance q + g j) \<le> (\<Sum>(j, q) \<leftarrow> js. job_distance q + h j)" for js
    by (intro sum_list_mono) (auto simp: assms(2))
  show ?case
  proof (cases "a = (i, p)")
    case True
    with le [of jobs] assms(3) show ?thesis by simp
  next
    case False
    with Cons have "(\<Sum>(j, q) \<leftarrow> jobs. job_distance q + g j) < (\<Sum>(j, q) \<leftarrow> jobs. job_distance q + h j)" by simp
    with assms(2) [of "fst a"] show ?thesis by (cases a) simp
  qed
qed simp

lemma caller_distance:
  assumes "caller_step i (pr_runtime s) r" and "point_distance (rt_at r i) < point_distance (rt_at (pr_runtime s) i)"
    and "i = 0 \<or> i = 1 \<or> (i, p) \<in> set (pr_jobs s)"
  shows "process_distance (s\<lparr>pr_runtime := r\<rparr>) < process_distance s"
proof -
  have le: "point_distance (rt_at r j) \<le> point_distance (rt_at (pr_runtime s) j)" for j
    using caller_step_other [OF assms(1), of j] assms(2) by (cases "j = i") auto
  have "(\<Sum>(j, q) \<leftarrow> pr_jobs s. job_distance q + point_distance (rt_at r j))
      \<le> (\<Sum>(j, q) \<leftarrow> pr_jobs s. job_distance q + point_distance (rt_at (pr_runtime s) j))"
    by (intro sum_list_mono) (auto simp: le)
  with assms(2,3) le [of 0] le [of 1]
    jobs_distance_less [of i p "pr_jobs s" "\<lambda>j. point_distance (rt_at r j)", OF _ le assms(2)]
  show ?thesis unfolding process_distance_def by auto
qed

lemma main_distance:
  assumes "stage (pr_main s) < stage m"
  shows "process_distance (s\<lparr>pr_main := m\<rparr>) < process_distance s"
proof -
  have "stage m \<le> 10" by (cases m) simp_all
  with assms show ?thesis by (simp add: process_distance_def)
qed

text \<open>What the other parts hold does not count.\<close>

lemma distance_frame [simp]:
  "process_distance (s\<lparr>pr_scheduler := sch\<rparr>) = process_distance s"
  "process_distance (s\<lparr>pr_manager := m\<rparr>) = process_distance s"
  "process_distance (s\<lparr>pr_tls := c\<rparr>) = process_distance s"
  "process_distance (s\<lparr>pr_store_open := b\<rparr>) = process_distance s"
  by (simp_all add: process_distance_def)

lemma tries_helps:
  assumes "process_inv C s" and "in_TryRun s i" and "\<And>res. rt_at (pr_runtime s) i \<noteq> TryReturned res"
    and "pr_notifying s = []" and "pr_exchanges s = []"
  shows "\<exists>s'. process_step C f s s' \<and> process_distance s' < process_distance s"
proof -
  have i: "i = 0 \<or> (i, JobTrying) \<in> set (pr_jobs s)" using assms(2) by (auto simp: in_TryRun_def)
  then have "i \<noteq> 1" using assms(1) by (auto simp: process_inv_def jobs_inv_def)
  then have "\<not> is_stop (rt_at (pr_runtime s) i)" using assms(1) by (auto simp: process_inv_def calls_inv_def)
  from try_advances [OF this assms(3)] obtain r where r: "caller_step i (pr_runtime s) r"
    "point_distance (rt_at r i) < point_distance (rt_at (pr_runtime s) i)" by blast
  from tries [OF assms(2) _ _ r(1)] caller_distance [OF r] i assms(4,5) show ?thesis by fastforce
qed

text \<open>While \<open>Stop\<close> waits for the lock, whoever has it is a run or about to be one.\<close>

lemma stop_runtime_helps:
  assumes "process_inv C s" and "pr_main s = CloseRuntime" and "pr_notifying s = []" and "pr_exchanges s = []"
  shows "\<exists>s'. process_step C f s s' \<and> process_distance s' < process_distance s"
proof (cases "rt_at (pr_runtime s) 1 = StopReturned")
  case True
  from runtime_stopped [OF assms(2) True] main_distance [of s CloseScheduler] assms(2) show ?thesis by fastforce
next
  case going: False
  have inv: "calls_inv s" "runtime_inv (pr_runtime s)" "is_stop (rt_at (pr_runtime s) 1)"
    using assms(1) by (auto simp: process_inv_def calls_inv_def)
  show ?thesis
  proof (cases "rt_at (pr_runtime s) 1 = StopCancelled \<and> rt_lock (pr_runtime s) \<noteq> None")
    case True
    then obtain j where j: "rt_lock (pr_runtime s) = Some j" by auto
    then have h: "holds_lock (rt_at (pr_runtime s) j)" using inv_lock [OF inv(2)] by simp
    then have "j \<noteq> 1" using True by (auto simp: holds_lock_def)
    moreover have "\<not> at_rest (rt_at (pr_runtime s) j)" using h by (auto simp: holds_lock_def)
    ultimately have "in_TryRun s j" by (rule calls_on_the_way [OF inv(1)])
    with h assms tries_helps [OF assms(1), of j] show ?thesis by (auto simp: holds_lock_def)
  next
    case False
    then obtain r where r: "caller_step 1 (pr_runtime s) r"
      "point_distance (rt_at r 1) < point_distance (rt_at (pr_runtime s) 1)"
      using stop_advances [OF inv(3) going] by auto
    from stop_runtime [OF assms(2) r(1)] caller_distance [OF r] show ?thesis by fastforce
  qed
qed

lemma step_helps:
  "process_step C f s t \<Longrightarrow> process_distance t < process_distance s \<Longrightarrow>
     \<exists>s'. process_step C f s s' \<and> process_distance s' < process_distance s"
  by blast

text \<open>While the scheduler waits for its jobs, each of them has a next step.\<close>

lemma job_helps:
  assumes "process_inv C s" and "pr_jobs s = (i, p) # jobs" and "pr_notifying s = []" and "pr_exchanges s = []"
  shows "\<exists>s'. process_step C f s s' \<and> process_distance s' < process_distance s"
proof (cases p)
  case JobWaiting
  then have w: "pr_jobs s = [] @ (i, JobWaiting) # jobs" using assms(2) by simp
  from job_tries [OF w] show ?thesis
    by (rule step_helps) (simp add: process_distance_def w)
next
  case JobTrying
  then have t: "pr_jobs s = [] @ (i, JobTrying) # jobs" using assms(2) by simp
  show ?thesis
  proof (cases "\<exists>res. rt_at (pr_runtime s) i = TryReturned res")
    case True
    then obtain res where "rt_at (pr_runtime s) i = TryReturned res" by blast
    from job_ends [OF t this] show ?thesis
      by (rule step_helps) (simp add: process_distance_def t)
  next
    case False
    with tries_helps [OF assms(1) _ _ assms(3,4), of i] t show ?thesis by (auto simp: in_TryRun_def)
  qed
qed

lemma main_moves:
  assumes "process_step C f s (t\<lparr>pr_main := m\<rparr>)" and "process_distance t = process_distance s"
    and "pr_main t = pr_main s" and "stage (pr_main s) < stage m"
  shows "\<exists>s'. process_step C f s s' \<and> process_distance s' < process_distance s"
  using main_distance [of t m] assms by (intro step_helps [OF assms(1)]) simp

text \<open>The calls of \<open>Close\<close> one after the other.\<close>

lemma close_helps:
  assumes "process_inv C s" and "2 \<le> stage (pr_main s)" and "pr_main s \<noteq> MainDone"
    and "pr_notifying s = []" and "pr_exchanges s = []"
  shows "\<exists>s'. process_step C f s s' \<and> process_distance s' < process_distance s"
proof -
  have counts: "mg_active (pr_manager s) = 0" "tc_inflight (pr_tls s) = 0"
    "sch_jobs (pr_scheduler s) = length (pr_jobs s)"
    using assms(1,4,5) by (simp_all add: process_inv_def uses_inv_def jobs_inv_def)
  show ?thesis
  proof (cases "pr_main s")
    case CloseRuntime
    with stop_runtime_helps [OF assms(1) _ assms(4,5)] show ?thesis by blast
  next
    case CloseScheduler
    with main_moves [OF stop_scheduler [OF CloseScheduler]] show ?thesis by simp
  next
    case CloseSchedulerWait
    show ?thesis
    proof (cases "pr_jobs s")
      case Nil
      with CloseSchedulerWait main_moves [OF scheduler_stopped [OF CloseSchedulerWait]] counts(3) show ?thesis by simp
    next
      case (Cons a jobs)
      with job_helps [OF assms(1) _ assms(4,5)] show ?thesis by (cases a) blast
    qed
  next
    case CloseNotify
    with main_moves [OF close_notify [OF CloseNotify]] show ?thesis by simp
  next
    case CloseNotifyWait
    with main_moves [OF notify_closed [OF CloseNotifyWait counts(1)]] show ?thesis by simp
  next
    case CloseTransport
    with main_moves [OF close_transport [OF CloseTransport]] show ?thesis by simp
  next
    case CloseTransportWait
    with main_moves [OF transport_closed [OF CloseTransportWait counts(2)]] show ?thesis by simp
  next
    case CloseStorage
    with main_moves [OF close_storage [OF CloseStorage]] show ?thesis by simp
  qed (use assms(2,3) in auto)
qed

lemma ready_helps:
  assumes "pr_main s = MainReady local"
  shows "\<exists>s'. process_step C f s s' \<and> process_distance s' < process_distance s"
proof (cases local)
  case True
  then have m: "pr_main s = MainReady True" using assms by simp
  with main_moves [OF once [OF m]] show ?thesis by simp
next
  case False
  then have m: "pr_main s = MainReady False" using assms by simp
  obtain err sched where st: "Start C (pr_scheduler s) = (err, sched)" by (rule prod.exhaust)
  show ?thesis
  proof (cases err)
    case None
    with m main_moves [OF serve [OF m]] st show ?thesis by simp
  next
    case (Some e)
    with m main_moves [OF serve_failed [OF m]] st show ?thesis by simp
  qed
qed

lemma main_helps:
  assumes "process_inv C s" and "pr_main s \<noteq> MainDone" and "pr_notifying s = []" and "pr_exchanges s = []"
  shows "\<exists>s'. process_step C f s s' \<and> process_distance s' < process_distance s"
proof (cases "2 \<le> stage (pr_main s)")
  case True
  from close_helps [OF assms(1) True assms(2-4)] show ?thesis .
next
  case False
  then consider local where "pr_main s = MainReady local" | "pr_main s = MainRunOnce" | "pr_main s = MainServing"
    by (cases "pr_main s") auto
  then show ?thesis
  proof cases
    case 1
    then show ?thesis by (rule ready_helps)
  next
    case 2
    with main_moves [OF once_back [OF 2]] tries_helps [OF assms(1) _ _ assms(3,4), of 0] show ?thesis
      by (cases "\<exists>res. rt_at (pr_runtime s) 0 = TryReturned res") (auto simp: in_TryRun_def)
  next
    case 3
    with main_moves [OF signal [OF 3]] show ?thesis by simp
  qed
qed

text \<open>Requests return first, then notifications, then the main goroutine has its turn.\<close>

lemma process_helps:
  assumes "process_inv C s" and "pr_main s \<noteq> MainDone"
  shows "\<exists>s'. process_step C f s s' \<and> process_distance s' < process_distance s"
proof (cases "pr_exchanges s")
  case (Cons i es)
  from exchange_out [of i s C f] show ?thesis
    by (rule step_helps) (simp_all add: Cons process_distance_def)
next
  case none: Nil
  show ?thesis
  proof (cases "pr_notifying s")
    case (Cons i ns)
    from notify_out [of i s C f] show ?thesis
      by (rule step_helps) (simp_all add: Cons none process_distance_def)
  next
    case Nil
    with main_helps [OF assms _ none] show ?thesis by blast
  qed
qed

interpretation shutdown: progress
    "process_step C f :: ('svc, 'k, 'c, 'x) process \<Rightarrow> ('svc, 'k, 'c, 'x) process \<Rightarrow> bool"
    "\<lambda>s. cron_laws C \<and> process_inv C s" "\<lambda>s. pr_main s = MainDone" process_distance
    for C :: "'k cron_ops" and f :: "client_config \<Rightarrow> 'x \<Rightarrow> (goerror + 'c) \<times> 'x"
proof
  fix s :: "('svc, 'k, 'c, 'x) process"
  assume inv: "cron_laws C \<and> process_inv C s" and "\<not> pr_main s = MainDone"
  with process_helps [of C s f] obtain t where "process_step C f s t" "process_distance t < process_distance s" by blast
  with inv process_step_inv [of C f s t] show
    "\<exists>s'. process_step C f s s' \<and> (cron_laws C \<and> process_inv C s') \<and> process_distance s' < process_distance s"
    by blast
qed

section \<open>Properties\<close>

text \<open>
  C27. What a run uses is open while it runs: in every interleaving of the process, as long as a
  run is in progress the process has not stopped the runtime, so the manager takes its
  notifications, the TLS client its requests, and the store is open; and it is the only run.
  Once the store is closed, no job, no notification and no request is in progress.
\<close>

theorem no_run_meets_a_closed_resource:
  assumes "cron_laws C" and "process_reach C f s"
  shows "(\<forall>i. rt_at (pr_runtime s) i = TryRunning \<longrightarrow>
      notify_enter (pr_manager s) \<noteq> None \<and> \<not> tc_closed (pr_tls s) \<and> pr_store_open s \<and>
      \<not> sch_stopping (pr_scheduler s) \<and> (\<forall>j. rt_at (pr_runtime s) j = TryRunning \<longrightarrow> j = i)) \<and>
    (\<not> pr_store_open s \<longrightarrow>
      pr_jobs s = [] \<and> pr_notifying s = [] \<and> pr_exchanges s = [] \<and> (\<forall>i. rt_at (pr_runtime s) i \<noteq> TryRunning))"
proof -
  from process_reach_inv [OF assms] have inv: "calls_inv s" "jobs_inv C s" "uses_inv s" "closing_inv s"
    by (simp_all add: process_inv_def)
  have rinv: "runtime_inv (pr_runtime s)" using inv(1) by (simp add: calls_inv_def)
  have early: "stage (pr_main s) \<le> 2" if "rt_at (pr_runtime s) i = TryRunning" for i
    using that rinv calls_stage [OF inv(1)] by (force simp: runtime_inv_def stop_waited_def)
  have "j = i" if "rt_at (pr_runtime s) i = TryRunning" "rt_at (pr_runtime s) j = TryRunning" for i j
    using holders_unique [OF rinv] that by (simp add: holds_lock_def)
  moreover have "pr_jobs s = []" if "\<not> pr_store_open s"
    using that inv(2,4) by (auto simp: closing_inv_def jobs_inv_def scheduler_inv_def)
  moreover have "stage (pr_main s) > 9" if "\<not> pr_store_open s"
    using that inv(4) by (simp add: closing_inv_def)
  moreover have "pr_notifying s = []" if "\<And>i. rt_at (pr_runtime s) i \<noteq> TryRunning"
    using that inv(3) unfolding uses_inv_def by (metis UnI1 list.set_sel(1))
  moreover have "pr_exchanges s = []" if "\<And>i. rt_at (pr_runtime s) i \<noteq> TryRunning"
    using that inv(3) unfolding uses_inv_def by (metis UnI2 list.set_sel(1))
  ultimately show ?thesis
    using early inv(2,4) by (fastforce simp: closing_inv_def jobs_inv_def notify_enter_def)
qed

text \<open>A process over the flag timer that makes one local run.\<close>

definition sample_process :: "(unit, bool, unit, unit) process" where
  "sample_process = \<lparr>pr_runtime = Publish () (new_runtime\<lparr>rt_at := (\<lambda>_. TryIdle)(1 := StopIdle)\<rparr>),
     pr_scheduler = \<lparr>sch_cfg = \<lparr>sx_Crontab = '''', sx_MinDelay = 0, sx_MaxDelay = 0\<rparr>, sch_cron = False,
       sch_cancel = None, sch_started = False, sch_stopping = False, sch_done = False, sch_jobs = 0, sch_entries = 0\<rparr>,
     pr_manager = \<lparr>mg_notifiers = [], mg_timeout = 0, mg_sender = None, mg_proxy = '''', mg_closing = False, mg_active = 0\<rparr>,
     pr_tls = newTLSClient, pr_ext = (), pr_store_open = True, pr_main = MainReady True,
     pr_jobs = [], pr_notifying = [], pr_exchanges = []\<rparr>"

definition running_process :: "(unit, bool, unit, unit) process" where
  "running_process = sample_process\<lparr>pr_main := MainRunOnce,
     pr_runtime := go 0 TryRunning ((pr_runtime sample_process)\<lparr>rt_lock := Some 0\<rparr>)\<rparr>"

lemma sample_process_init: "process_init flag_cron sample_process"
proof -
  have "scheduler_New (\<lambda>_. None) \<lparr>sx_Crontab = '''', sx_MinDelay = 0, sx_MaxDelay = 0\<rparr> False = Inr (pr_scheduler sample_process)"
    by (simp add: sample_process_def scheduler_New_def)
  moreover have "\<not> cr_fires flag_cron False" by (simp add: flag_cron_def)
  ultimately show ?thesis unfolding process_init_def by (auto simp: sample_process_def)
qed

lemma sample_process_reach: "process_reach flag_cron f sample_process"
  using sample_process_init by (auto simp: process_reach_def)

lemma process_reach_step: "process_reach C f s \<Longrightarrow> process_step C f s s' \<Longrightarrow> process_reach C f s'"
  by (auto simp: process_reach_def intro: rtranclp.rtrancl_into_rtrancl)

lemma tries_once:
  assumes "process_reach C f (s\<lparr>pr_main := MainRunOnce, pr_runtime := r\<rparr>)"
    and "pr_notifying s = []" and "pr_exchanges s = []"
    and "runtime_step r r'" and "rt_at r' = (rt_at r)(0 := p)" and "p \<noteq> rt_at r 0"
  shows "process_reach C f (s\<lparr>pr_main := MainRunOnce, pr_runtime := r'\<rparr>)"
proof -
  let ?s = "s\<lparr>pr_main := MainRunOnce, pr_runtime := r\<rparr>"
  have "in_TryRun ?s 0" by (simp add: in_TryRun_def)
  from tries [OF this _ _, of r' C f] caller_go [OF assms(4-6)] assms(2,3) show ?thesis
    by (intro process_reach_step [OF assms(1)]) simp
qed

lemma running_process_reach: "process_reach flag_cron f running_process"
proof -
  let ?r = "pr_runtime sample_process"
  let ?at = "\<lambda>r. sample_process\<lparr>pr_main := MainRunOnce, pr_runtime := r\<rparr>"
  note d = sample_process_def new_runtime_def go_def
  note once_more = tries_once [where s = sample_process and f = f and C = flag_cron]
  have "process_reach flag_cron f (sample_process\<lparr>pr_main := MainRunOnce\<rparr>)"
    by (rule process_reach_step [OF sample_process_reach once]) (simp add: d)
  then have "process_reach flag_cron f (?at ?r)" by (simp add: d)
  then have "process_reach flag_cron f (?at (go 0 TryPassedFlag ?r))"
    by (rule once_more [where p = TryPassedFlag, OF _ _ _ flag_clear]) (simp_all add: d)
  then have "process_reach flag_cron f (?at (go 0 TryPassedContexts (go 0 TryPassedFlag ?r)))"
    by (rule once_more [where p = TryPassedContexts, OF _ _ _ context_live]) (simp_all add: d)
  then have "process_reach flag_cron f (?at (go 0 TryPassedContexts ?r))" by simp
  then have "process_reach flag_cron f (?at (go 0 TryLocked ((go 0 TryPassedContexts ?r)\<lparr>rt_lock := Some 0\<rparr>)))"
    by (rule once_more [where p = TryLocked, OF _ _ _ locked]) (simp_all add: d)
  then have "process_reach flag_cron f (?at (go 0 TryLocked (?r\<lparr>rt_lock := Some 0\<rparr>)))"
    by (simp add: go_def)
  then have "process_reach flag_cron f (?at (go 0 TryRunning (go 0 TryLocked (?r\<lparr>rt_lock := Some 0\<rparr>))))"
    by (rule once_more [where p = TryRunning, OF _ _ _ runtime_step.run [where svc = "()"]]) (simp_all add: d)
  then show ?thesis by (simp add: running_process_def)
qed

lemma no_run_meets_a_closed_resource_witness:
  "\<exists>i. rt_at (pr_runtime running_process) i = TryRunning \<and> notify_enter (pr_manager running_process) \<noteq> None \<and>
     \<not> tc_closed (pr_tls running_process) \<and> pr_store_open running_process"
proof -
  have "rt_at (pr_runtime running_process) 0 = TryRunning" by (simp add: running_process_def)
  with no_run_meets_a_closed_resource [OF flag_cron_laws running_process_reach [of "\<lambda>_ x. (Inr (), x)"]]
  show ?thesis by blast
qed

text \<open>
  C39. The process can always end: from every state that any interleaving can reach, whatever
  jobs, runs, notifications and requests are in progress, a number of steps that
  \<open>process_distance\<close> bounds leads to the end of \<open>Close\<close>, with the runtime, the scheduler, the
  manager, the TLS client and the store closed. No order of closing makes the parts wait for
  each other.
\<close>

theorem process_can_always_end:
  assumes "cron_laws C" and "process_reach C f s"
  shows "\<exists>n s'. n \<le> process_distance s \<and> (process_step C f ^^ n) s s' \<and> pr_main s' = MainDone \<and>
    rt_stopped (pr_runtime s') \<and> sch_done (pr_scheduler s') \<and> mg_closing (pr_manager s') \<and>
    tc_closed (pr_tls s') \<and> \<not> pr_store_open s'"
proof -
  have "cron_laws C \<and> process_inv C s" using assms process_reach_inv by blast
  from shutdown.finishes_within [OF this, of f] obtain n s' where n: "n \<le> process_distance s"
    "(process_step C f ^^ n) s s'" "process_inv C s'" "pr_main s' = MainDone" by blast
  then have inv: "calls_inv s'" "jobs_inv C s'" "closing_inv s'" by (simp_all add: process_inv_def)
  have "rt_at (pr_runtime s') 1 = StopReturned" using calls_stage [OF inv(1)] n(4) by simp
  then have "rt_stopped (pr_runtime s')" using inv(1) by (force simp: calls_inv_def runtime_inv_def stop_began_def)
  with n inv(2,3) show ?thesis by (intro exI [of _ n] exI [of _ s']) (simp add: jobs_inv_def closing_inv_def)
qed

lemma process_can_always_end_witness:
  "\<exists>n s'. n \<le> 20 \<and> (process_step flag_cron (\<lambda>_ x. (Inr (), x)) ^^ n) running_process s' \<and> pr_main s' = MainDone"
proof -
  have "process_distance running_process \<le> 20"
    by (simp add: process_distance_def running_process_def sample_process_def new_runtime_def)
  with process_can_always_end [OF flag_cron_laws running_process_reach [of "\<lambda>_ x. (Inr (), x)"]] show ?thesis
    by (meson order_trans)
qed

section \<open>Close\<close>

lemma close_mark_active [simp]: "mg_active (close_mark m) = mg_active m"
  by (simp add: close_mark_def)

lemma close_more:
  assumes "(process_step C f)\<^sup>*\<^sup>* s0 (s\<lparr>pr_runtime := r\<rparr>)" and "pr_main s = CloseRuntime"
    and "runtime_step r r'" and "rt_at r' = (rt_at r)(1 := p)" and "p \<noteq> rt_at r 1"
  shows "(process_step C f)\<^sup>*\<^sup>* s0 (s\<lparr>pr_runtime := r'\<rparr>)"
proof -
  from stop_runtime [of "s\<lparr>pr_runtime := r\<rparr>" r' C f] caller_go [OF assms(3-5)] assms(2)
  show ?thesis by (intro rtranclp.rtrancl_into_rtrancl [OF assms(1)]) simp
qed

lemma Stop_path:
  assumes "pr_main s = CloseRuntime" and "rt_at (pr_runtime s) 1 = StopIdle" and "runtime_Stop (pr_runtime s) = Some r"
  shows "(process_step C f)\<^sup>*\<^sup>* s (s\<lparr>pr_runtime := go 1 StopReturned r\<rparr>)"
proof -
  let ?r = "pr_runtime s"
  note more = close_more [where s = s and s0 = s and C = C and f = f, OF _ assms(1)]
  have lock: "rt_lock r = None" "rt_lock ?r = None"
    and r: "r = (if rt_stopped ?r then ?r else ?r\<lparr>rt_stopped := True, rt_cancelled := True\<rparr>)"
    using assms(3) by (auto simp: runtime_Stop_def Let_def split: if_splits)
  have none: "(process_step C f)\<^sup>*\<^sup>* s (s\<lparr>pr_runtime := ?r\<rparr>)" by simp
  have "(process_step C f)\<^sup>*\<^sup>* s (s\<lparr>pr_runtime := go 1 StopCancelled r\<rparr>)"
  proof (cases "rt_stopped ?r")
    case True
    from more [where p = StopCancelled, OF none runtime_step.stop_again [where i = 1]] True r assms(2) show ?thesis by simp
  next
    case False
    from more [where p = StopMarked, OF none runtime_step.stop_first [where i = 1]] False assms(2)
    have "(process_step C f)\<^sup>*\<^sup>* s (s\<lparr>pr_runtime := go 1 StopMarked (?r\<lparr>rt_stopped := True\<rparr>)\<rparr>)" by simp
    from more [where p = StopCancelled, OF this stop_cancel [where i = 1]] False r show ?thesis by (simp add: go_def)
  qed
  from more [where p = StopLocked, OF this stop_lock [where i = 1]] lock
  have "(process_step C f)\<^sup>*\<^sup>* s (s\<lparr>pr_runtime := go 1 StopLocked (r\<lparr>rt_lock := Some 1\<rparr>)\<rparr>)"
    by (simp add: go_def)
  from more [where p = StopReturned, OF this stop_return [where i = 1]]
  have "(process_step C f)\<^sup>*\<^sup>* s (s\<lparr>pr_runtime := go 1 StopReturned (r\<lparr>rt_lock := None\<rparr>)\<rparr>)"
    by (simp add: go_def)
  moreover have "r\<lparr>rt_lock := None\<rparr> = r" using lock by (cases r) simp
  ultimately show ?thesis by simp
qed

text \<open>From the stopped runtime on, each call of \<open>Close\<close> is one step, or two when it waits.\<close>

lemma closing_path:
  assumes "pr_main s = CloseRuntime" and "rt_at (pr_runtime s) 1 = StopReturned"
    and "sch_jobs (stop_begin C (pr_scheduler s)) = 0" and "mg_active (pr_manager s) = 0" and "tc_inflight (pr_tls s) = 0"
  shows "(process_step C f)\<^sup>*\<^sup>* s (s\<lparr>pr_scheduler := stop_end (stop_begin C (pr_scheduler s)),
     pr_manager := close_mark (pr_manager s), pr_tls := close_finish (close_begin (pr_tls s)),
     pr_store_open := False, pr_main := MainDone\<rparr>)"
proof -
  note more = rtranclp.rtrancl_into_rtrancl [where a = s and r = "process_step C f"]
  from runtime_stopped [OF assms(1,2)] have "(process_step C f)\<^sup>*\<^sup>* s (s\<lparr>pr_main := CloseScheduler\<rparr>)" by blast
  from more [OF this stop_scheduler]
  have "(process_step C f)\<^sup>*\<^sup>* s (s\<lparr>pr_scheduler := stop_begin C (pr_scheduler s), pr_main := CloseSchedulerWait\<rparr>)" by simp
  from more [OF this scheduler_stopped] assms(3)
  have "(process_step C f)\<^sup>*\<^sup>* s (s\<lparr>pr_scheduler := stop_end (stop_begin C (pr_scheduler s)), pr_main := CloseNotify\<rparr>)" by simp
  from more [OF this close_notify]
  have "(process_step C f)\<^sup>*\<^sup>* s (s\<lparr>pr_scheduler := stop_end (stop_begin C (pr_scheduler s)),
     pr_manager := close_mark (pr_manager s), pr_main := CloseNotifyWait\<rparr>)" by simp
  from more [OF this notify_closed] assms(4)
  have "(process_step C f)\<^sup>*\<^sup>* s (s\<lparr>pr_scheduler := stop_end (stop_begin C (pr_scheduler s)),
     pr_manager := close_mark (pr_manager s), pr_main := CloseTransport\<rparr>)" by (simp add: close_mark_def)
  from more [OF this close_transport]
  have "(process_step C f)\<^sup>*\<^sup>* s (s\<lparr>pr_scheduler := stop_end (stop_begin C (pr_scheduler s)),
     pr_manager := close_mark (pr_manager s), pr_tls := close_begin (pr_tls s), pr_main := CloseTransportWait\<rparr>)" by simp
  from more [OF this transport_closed] assms(5)
  have "(process_step C f)\<^sup>*\<^sup>* s (s\<lparr>pr_scheduler := stop_end (stop_begin C (pr_scheduler s)),
     pr_manager := close_mark (pr_manager s), pr_tls := close_finish (close_begin (pr_tls s)), pr_main := CloseStorage\<rparr>)"
    by (simp add: close_begin_def)
  from more [OF this close_storage] show ?thesis by simp
qed

end
