(* ===== verification/Spec2Isabelle.thy ===== *)
theory Spec2Isabelle
  imports App HttpLog NotifyRules TlsCache LogOutput HeaderTrippers Shutdown
begin

text \<open>
  A verification library for mtlogin, a Go program that keeps an account of the M-Team site
  alive: on a timer it logs in or reuses a stored identity, makes the requests a browser would
  make, and reports the outcome to notification channels.

  \<^bold>\<open>The program and how its parts interact.\<close> \<open>main.go\<close> makes the application (\<open>internal/app\<close>), which
  loads two TOML files (\<open>pkg/conf\<close>, \<open>apinotify/config.go\<close>), opens the identity store
  (\<open>internal/store\<close>, over LevelDB), makes one TLS client (\<open>pkg/apicore\<close>) that the login client
  (\<open>apikit/apimtauth\<close>), the browsing client (\<open>apikit/apimtbrowse\<close>) and the notification manager
  (\<open>apikit/apinotify\<close>) share through chains of middleware, and wires them into the refresh
  service (\<open>internal/refresh\<close>). The scheduler (\<open>internal/scheduler\<close>) calls the runtime
  (\<open>internal/runtime\<close>), which lets one run of the service at a time through its lock. A run
  resolves an identity (\<open>auth_manager.go\<close>), makes the checks (\<open>checks.go\<close>), writes a rotated
  identity back under the store's epoch, and notifies (\<open>service.go\<close>, \<open>auth.go\<close>, \<open>message.go\<close>).

  \<^bold>\<open>Theories, bottom up.\<close>
  \<^item> Prelude: text, decimal numbers, maps as association lists.
  \<^item> GoErrors: error values, \<open>errors.Is/As/Join\<close>, \<open>internal/domain/error.go\<close>, \<open>errno.go\<close>, the
    sentinels of all packages. GoNumbers: \<open>float64\<close> as exact rationals with IEEE rounding,
    durations, \<open>pkg/util/duration.go\<close>. Domain: identities, profiles, login requests, contexts
    (\<open>pkg/log/context.go\<close>).
  \<^item> Crypto: SHA-1, SHA-256, HMAC, base64 and base32 written out, \<open>pkg/util\<close>, the request
    signature, the one-time password (\<open>totp.go\<close>). Json: the reader of \<open>encoding/json\<close>. GoText: its
    writer, \<open>net/url\<close> queries in both directions, multipart bodies (\<open>body.go\<close>).
  \<^item> ApiCore: \<open>pkg/apicore\<close> but for the TLS client, with \<open>env\<close>, the record of what the program asks
    of its surroundings. TlsClient: \<open>tlsclient.go\<close>, also as interleaved steps; TlsCache: its cache of
    clients and cookie jars. HeaderTrippers: the two middlewares of \<open>tripper_headers.go\<close> that the
    program does not use. Sanitize and HttpLog: \<open>pkg/log/sanitize.go\<close>, \<open>message.go\<close> and the log line of
    \<open>tripper_logging.go\<close>. LogOutput: the loggers, hooks and files of \<open>pkg/log\<close>, the logging methods of a
    context, and the log ids (\<open>pkg/util/log_id.go\<close>).
  \<^item> MtTransport, MtProto: \<open>apikit/internal\<close>. MtAuth: \<open>apimtauth\<close>. MtBrowse, Forum: \<open>apimtbrowse\<close>.
    SessionLaws: what the operations of a session keep, and when the site has confirmed an update.
  \<^item> Messages, Contracts, AuthManager, Service: \<open>internal/refresh\<close>. Store: \<open>internal/store\<close>.
  \<^item> Adapters: \<open>mteam_adapter.go\<close> and the service wired to the M-Team clients. Channels: the object,
    the message and the \<open>Send\<close> of each channel of \<open>apinotify\<close>; Notify, NotifyRules: its manager and
    \<open>notify_adapter.go\<close>, the manager also as interleaved steps. Conf: \<open>pkg/conf\<close>. Runtime, Scheduler.
    App: \<open>app.go\<close>, \<open>config.go\<close>, \<open>main.go\<close> (\<open>main_run\<close> is \<open>run\<close>, the whole process, one call
    after the other).
  \<^item> Progress: paths of a step relation, and systems that can finish. Shutdown: the whole process as
    interleaved steps (\<open>process_step\<close>): the main goroutine through \<open>RunOnce\<close> or \<open>Start\<close> and the calls
    of \<open>Close\<close>, the jobs of the timer (\<open>runWithDelay\<close>), their callers of \<open>TryRun\<close>, and the notifications
    and requests of a run, each rule one operation of Runtime, Scheduler, Notify or TlsClient. This
    theory: the properties that span all of them.

  \<^bold>\<open>State and effects.\<close> A call takes the state it works on and gives it back. The record \<open>world\<close>
  holds the TLS client, the HTTP log, the notification log and an outside state, which answers
  every question put to it (the clock, random draws, the error of a context, the network)
  through the fields of \<open>env\<close>; the answers are arbitrary, so a property holds for every
  behaviour of the site and of the operating system. An error is a value, nil is \<open>None\<close>. A
  round tripper also gives back the request, since the middleware writes into the request its
  caller holds. The session's identity is state beside the world. A run adds the store and
  the list of notifications sent; the process adds an event log of the resources it opens and
  closes. Where the code ranges over a Go map, the order is the order of a list that the
  statement leaves open, or an argument (\<open>ord\<close> in Store, \<open>sched\<close> in Notify for the order of the
  goroutines); \<open>MultipartBody\<close> writes its parts and \<open>PhaseVisitForums\<close> reads \<open>lastPost\<close> in list order.

  \<^bold>\<open>Interfaces.\<close> The Go interfaces are records of operations, their contracts locales (Contracts,
  AuthManager, Service): a store, a login client, a session client, and the two compositions the
  service rests on; \<open>run_frame\<close> (Adapters) lifts a relation that every call keeps to a whole run.
  Store, Adapters and Notify interpret them on the model of the code, and the properties of the
  assembled service come from there. \<open>progress\<close> (Progress) is the contract of a step relation in
  which some step always comes nearer to an end; Shutdown interprets it on the process.

  \<^bold>\<open>What is shown.\<close> Process: a local run that exits with zero was confirmed by the site; everything
  opened is closed; in any interleaving, what a run uses is open while it runs, the process can
  always end, and \<open>Close\<close> is a path of the interleaved rules. Run: what the user is told, that a failure is told, that success leaves a
  whole identity bound to the configured account, that token mode leaves the store alone, what
  a rejected identity leads to. Store: a save is what is loaded; a writer with an old epoch is
  refused. Runtime and Scheduler, as step relations over any interleaving: one run at a time,
  none after a stop, a stop that can always return, one registered job, delays within their
  bounds. Notifications: every channel is tried, in any order of the goroutines; after a close
  nothing is sent; a call of \<open>Notify\<close> is a path of the interleaved rules. Transport and protocol: what goes on the wire for an identity, when a response
  counts as success, how a rejection is recognised, two exchanges for a login at most, a
  bounded body, a close that waits, cookie scopes that never share a jar, a cache of clients
  that nobody can tell from making a client for each request. Logs and messages: no credential
  in the HTTP log, no cause of an error in a message, each line in the file of its logger. Configuration: what is accepted, the codes of its errors.

  \<^bold>\<open>Bounds and termination.\<close> Every definition is a total function. The recursions are structural
  but for a login (once more with a one-time password), the readers of JSON and of the
  redaction patterns (by the length of the text), which have their termination proofs, so no
  fuel is used; the end of the process is at most \<open>process_distance\<close> steps away from any state.
  The nesting limit of the JSON reader is the decoder's own. Epochs are 64-bit
  words and wrap; \<open>time.Duration\<close> arithmetic of the delay wraps at 64 bits; the conversion of a
  float outside the range of an integer is the argument \<open>oob\<close>, as Go leaves it to the machine.

  \<^bold>\<open>Arguments of the model.\<close> LevelDB (\<open>leveldb_laws\<close>: a lookup answers what is stored, a write without
  an error took effect), the cron package (\<open>cron_laws\<close>: a stopped timer starts nothing), the TLS
  and HTTP library, the TOML decoder, the file system, the random sources; of Go's library,
  \<open>strconv.ParseFloat\<close>, \<open>url.Parse\<close> and \<open>URL.String\<close>, the texts of JSON errors, \<open>fmt.Sprintf\<close> of a
  log line, and the text of a float; the log library and its rotating files (\<open>logrus_laws\<close>: the
  hooks that list the level of an entry are run in order), the snowflake generator; and that two
  TLS clients made with the same options are the same (\<open>makes\<close>). The witnesses instantiate them with concrete functions.

  \<^bold>\<open>Not modelled.\<close> The libraries named above. The lines that the operations write to the application
  log while they run: LogOutput says where such a line goes, and the operations leave it out
  (the lines of \<open>main.go\<close> are part of \<open>execute\<close>). Nil receivers, but for those of a log context
  and of the state of a session; panics of a channel, which \<open>Notify\<close> would recover and which no
  channel of the program raises; what happens between two exchanges of one channel's \<open>Send\<close>, which
  is one step of the manager's rules. Copies of maps and \<open>RoundTripFunc\<close> are the identity. Case is folded on ASCII; the site's header names are ASCII. A call of
  the service is one step of the runtime's rules, so a service that hangs is a run that has
  not ended. In the interleaved process the context of a waiting job may be done at any moment,
  what a run does to the store is left out (only whether the store is open is kept), and a
  notification or a request that has begun may return at any moment.
\<close>

section \<open>An environment for concrete runs\<close>

text \<open>
  A world in which nothing answers: no client can be made, every draw is zero, the clock stands
  still. The witnesses below apply the properties in it, on the database in memory.
\<close>

definition offline_env :: "(unit, unit) env" where
  "offline_env = \<lparr>ev_ctx_err = (\<lambda>_ x. (None, x)), ev_now = (\<lambda>x. (0, x)), ev_draw = (\<lambda>_ x. (Inr 0, x)),
     ev_intn = (\<lambda>_ x. (0, x)), ev_boundary = (\<lambda>x. (''b'', x)), ev_parse_float = (\<lambda>_. None),
     ev_json_error = (\<lambda>_. ''''), ev_parse_url = (\<lambda>u. Inr u), ev_newClient = (\<lambda>_ x. (Inl (ErrText ''offline''), x)),
     ev_NewRequest = (\<lambda>_ _. None), ev_Do = (\<lambda>_ _ x. (Inl (ErrText ''offline''), x)), ev_CloseIdle = (\<lambda>_ x. x)\<rparr>"

definition sample_browse_config :: mt_browse_config where
  "sample_browse_config = \<lparr>mbc_APIHost = ''api.example'', mbc_Referer = '''', mbc_UserAgent = '''', mbc_Version = '''',
     mbc_WebVersion = '''', mbc_Proxy = '''', mbc_Timeout = second\<rparr>"

definition sample_auth_config :: "token_auth \<Rightarrow> mt_auth_config" where
  "sample_auth_config t = \<lparr>mac_APIHost = ''api.example'', mac_Referer = '''', mac_UserAgent = '''', mac_Version = '''',
     mac_WebVersion = '''', mac_Proxy = '''', mac_Timeout = second,
     mac_PasswordAuth = \<lparr>pw_Username = ''u'', pw_Password = ''p'', pw_TotpSecret = ''''\<rparr>, mac_TokenAuth = t\<rparr>"

definition no_token :: token_auth where
  "no_token = \<lparr>ta_Auth = '''', ta_DID = '''', ta_VisitorID = ''''\<rparr>"

definition sample_parts :: "token_auth \<Rightarrow> bool \<Rightarrow> (unit, unit) app_parts" where
  "sample_parts t retry = tls_parts offline_env (sample_auth_config t) None sample_browse_config None retry second
     (\<lambda>ctx msg w. (None, w))"

definition sample_net :: "(unit, unit) world" where
  "sample_net = \<lparr>w_ext = (), w_tls = newTLSClient, w_httplog = [], w_notifylog = []\<rparr>"

definition sample_run :: "(string \<rightharpoonup> string) \<Rightarrow> ((string \<rightharpoonup> string) level_store, (unit, unit) world) run_state" where
  "sample_run d = \<lparr>rs_store = \<lparr>ls_db = d, ls_epoch = 0\<rparr>, rs_net = sample_net, rs_notified = []\<rparr>"

definition sample_ctx :: logctx where
  "sample_ctx = \<lparr>lc_ctx = Background, lc_logid = ''1''\<rparr>"

lemma sample_parts_logged [simp]:
  "logged (mc_rt (pt_auth (sample_parts t retry)))" "logged (bc_rt (pt_browse (sample_parts t retry)))"
  by (simp_all add: sample_parts_def tls_parts_def)

lemma sample_parts_cfg [simp]:
  "mc_cfg (pt_auth (sample_parts t retry)) = sample_auth_config t" "pt_retry (sample_parts t retry) = retry"
  by (simp_all add: sample_parts_def tls_parts_def tls_auth_client_def)

lemma sample_no_token [simp]: "ac_TokenAuth (app_auth_config (sample_auth_config no_token) retry) = no_auth_state"
  by (simp add: app_auth_config_def sample_auth_config_def no_token_def no_auth_state_def)

lemma sample_username: "pw_Username (mac_PasswordAuth (sample_auth_config t)) = ''u''"
  by (simp add: sample_auth_config_def)

section \<open>A run and the stored identity\<close>



text \<open>
  C6. A token identity from the configuration never touches the store: in token mode a run,
  whatever it meets, leaves the store as it was, and tells the user exactly one thing.
\<close>

theorem token_mode_leaves_the_store_alone:
  assumes "\<not> Empty (ac_TokenAuth (app_auth_config (mc_cfg (pt_auth p)) (pt_retry p)))"
  shows "case Run (app_service E S p) ctx r of (res, r') \<Rightarrow>
     rs_store r' = rs_store r \<and> (\<exists>msg. rs_notified r' = rs_notified r @ [(ctx, msg)])"
proof -
  let ?svc = "app_service E S p" and ?tok = "ac_TokenAuth (app_auth_config (mc_cfg (pt_auth p)) (pt_retry p))"
  define rctx where "rctx = (if 0 < pt_timeout p then ctx_WithTimeout (pt_timeout p) ctx else ctx)"
  have tm: "\<not> Empty (ac_TokenAuth (am_cfg (app_manager E S p)))" using assms by simp
  show ?thesis
  proof (cases "Complete ?tok")
    case False
    with Resolve_token [OF tm, of rctx "(rs_store r, rs_net r)"] show ?thesis
      unfolding rctx_def by (cases "0 < pt_timeout p") (simp_all add: Run_def Let_def auth_iface_Resolve sent_def)
  next
    case True
    obtain e r1 where rw: "runWithSession ?svc rctx ctx ?tok 0 True r = (e, r1)" by (rule prod.exhaust)
    from Resolve_token [OF tm, of rctx "(rs_store r, rs_net r)"] True rw have "Run ?svc ctx r = (e, r1)"
      unfolding rctx_def
      by (cases e; cases "0 < pt_timeout p") (simp_all add: Run_def Let_def auth_iface_Resolve)
    with runWithSession_token_store [OF rw] runWithSession_token_message [OF rw] show ?thesis
      by (auto simp: sent_def)
  qed
qed

lemma token_mode_leaves_the_store_alone_witness:
  "case Run (app_service offline_env (leveldb_store mem_leveldb source_order)
        (sample_parts \<lparr>ta_Auth = ''t'', ta_DID = ''d'', ta_VisitorID = ''v''\<rparr> True)) sample_ctx
        (sample_run [tokenKey \<mapsto> ''old'']) of (res, r') \<Rightarrow>
     rs_store r' = rs_store (sample_run [tokenKey \<mapsto> ''old'']) \<and>
     (\<exists>msg. rs_notified r' = rs_notified (sample_run [tokenKey \<mapsto> ''old'']) @ [(sample_ctx, msg)])"
  by (rule token_mode_leaves_the_store_alone)
     (simp add: app_auth_config_def sample_auth_config_def no_auth_state_def)

lemma app_auth_deps:
  assumes "leveldb_laws L view" and "\<And>s. full_order (ord s)" and "logged (bc_rt (pt_browse p))"
  shows "auth_manager_deps (app_manager E (leveldb_store L ord) p) (abs_store view)"
  using app_deps [OF assms] by (rule refresh_deps.axioms(1))







section \<open>Closing the process\<close>

text \<open>The assembled program on that environment, idle, and the process whose main goroutine is about to close it.\<close>

definition offline_startup :: "(unit, unit, string \<rightharpoonup> string, bool) startup" where
  "offline_startup = \<lparr>su_env = offline_env, su_oob = (\<lambda>_. 0), su_sample = (\<lambda>_. Fin 0),
     su_read = (\<lambda>_. Inl (ErrText ''offline'')), su_decode_app = (\<lambda>_. Inl (ErrText ''offline'')),
     su_decode_notify = (\<lambda>_ _. Inl (ErrText ''offline'')), su_crontab = (\<lambda>_. None), su_cron = flag_cron,
     su_new_cron = False, su_db = mem_leveldb, su_OpenFile = (\<lambda>_. Inr Map.empty), su_Walk = (\<lambda>_. []),
     su_Chmod = (\<lambda>_ _. None), su_order = source_order, su_sched = (\<lambda>items. items)\<rparr>"

definition sample_app :: "(unit, unit, string \<rightharpoonup> string, bool) app" where
  "sample_app = \<lparr>ap_runtime = new_runtime\<lparr>rt_at := (\<lambda>_. TryIdle)(1 := StopIdle)\<rparr>,
     ap_scheduler = pr_scheduler sample_process, ap_notify = pr_manager sample_process,
     ap_closed = False, ap_closeErr = None\<rparr>"

definition sample_app_world :: "(unit, unit, string \<rightharpoonup> string) app_world" where
  "sample_app_world = \<lparr>aw_run = sample_run Map.empty, aw_events = [], aw_modes = []\<rparr>"

definition closing_process ::
  "(((string \<rightharpoonup> string) level_store, (unit, unit) world, identity) service, bool, unit, unit) process" where
  "closing_process = \<lparr>pr_runtime = ap_runtime sample_app, pr_scheduler = ap_scheduler sample_app,
     pr_manager = ap_notify sample_app, pr_tls = w_tls sample_net, pr_ext = (), pr_store_open = True,
     pr_main = CloseRuntime, pr_jobs = [], pr_notifying = [], pr_exchanges = []\<rparr>"



section \<open>The clients\<close>


text \<open>
  C20. A whole round of checks never changes who the session is: token and visitor id stay, the
  DID is only ever replaced by one that is not empty; and it gives back every place in flight
  and only adds to the HTTP log.
\<close>

theorem checks_only_rotate_the_did:
  "case runChecks (mt_client_if E (tls_browse_client E cfg u)) ctx (NewSession st, w) of (r, ss, w') \<Rightarrow>
     rotated st (Snapshot ss) \<and> grows w w'"
proof -
  let ?C = "mt_client_if E (tls_browse_client E cfg u)"
  obtain p err ss w' where rc: "runChecks ?C ctx (NewSession st, w) = ((p, err), ss, w')" by (metis prod.exhaust)
  have "rotated st (Snapshot ss)"
    using mt_session.runChecks_rotated [OF rc] by (simp add: mt_client_if_def)
  moreover have "grows w w'" by (rule runChecks_grows [OF logged_tls_browse rc])
  ultimately show ?thesis using rc by simp
qed

text \<open>
  C21. The forum run is best effort: it ends with an error only for a cancelled or expired context
  or a rejected identity, whatever else fails on the way; and when it reports that the last
  browse time was updated, the site confirmed an update during this run.
\<close>

theorem forum_run_fails_only_critically:
  "case BrowseForum E (tls_browse_client E cfg u) ctx sw of ((updated, err), sw') \<Rightarrow>
     (case err of None \<Rightarrow> True | Some e \<Rightarrow> critical e) \<and>
     (if updated then confirmed (mbc_APIHost cfg) (snd sw) (snd sw') else True)"
proof -
  obtain up err sw' where b: "BrowseForum E (tls_browse_client E cfg u) ctx sw = ((up, err), sw')" by (metis prod.exhaust)
  from error_ok_BrowseForum [of E "tls_browse_client E cfg u" ctx sw]
    run_ok_BrowseForum [OF logged_tls_browse [of E cfg u], of sw E ctx] b show ?thesis
    by (auto simp: error_ok_def run_ok_def run_at_def tls_browse_client_def)
qed

text \<open>
  C23. A rejected identity is recognised as such all the way up: a response of the site reaches
  the refresh logic as the error of an authentication failure exactly when its status is 401,
  or 200 with one of the authentication codes.
\<close>

theorem rejected_identity_is_recognised:
  "(\<exists>e. parseResponse je (Some r) None = Inl e \<and> errors_is (mapBrowseError e) (DomainError MTAuthFailed)) \<longleftrightarrow>
     rp_Status r = status_unauthorized \<or>
     (rp_Status r = status_ok \<and> (\<exists>b. decode_response (rp_Body r) = Some b \<and> ar_Code b \<in> set auth_codes))"
proof -
  have "errors_is (mapBrowseError (translateProtocolError e)) (DomainError MTAuthFailed) \<longleftrightarrow> errors_is e (Sentinel ProtoErrAuthFailed)"
    if "ParseResponse je (Some r) None = Inl e" for e
    using ParseResponse_error_class [OF that]
    by (auto simp: translateProtocolError_def retarget_def mapBrowseError_def domain_error_def Let_def)
  then show ?thesis
    unfolding ParseResponse_auth_iff [of je r, symmetric] by (auto simp: parseResponse_def split: sum.splits)
qed

end
